(* ===== verification/NGram_Prelude.thy ===== *)
theory NGram_Prelude
  imports Main "HOL-Library.Word" "HOL-Library.Char_ord" "HOL-Library.List_Lexorder"
begin

text \<open>
  Shared vocabulary of the development: the machine types of \<^verbatim>\<open>src/main.cpp\<close>
  (\<^verbatim>\<open>int\<close> as a 32-bit word read through \<open>sint\<close>, bytes as 8-bit words), the
  fact collections the component theories unfold with, and the generic lemmas
  the components share: on words (where a word is the number it stands for), on
  scanners (\<open>takeWhile\<close>/\<open>dropWhile\<close>), on slices of arrays and insertion by
  index, on concatenations over a range of rows, and on sorted association
  lists. \<open>Char_ord\<close> and \<open>List_Lexorder\<close> order \<open>string\<close> the way
  \<^verbatim>\<open>std::string::operator<\<close> does: lexicographically, by unsigned character code.
\<close>

section \<open>Fact collections\<close>

named_theorems cclass_defs \<open>definitions of the C-locale character classes\<close>
named_theorems tok_simps \<open>equations of the tokenizer functions\<close>
named_theorems omap_simps \<open>characteristic equations of the ordered-map operations\<close>
named_theorems csr_defs \<open>definitions of the compressed-row matrix operations\<close>

section \<open>Machine types\<close>

type_synonym cint = "32 word"
type_synonym byte = "8 word"

definition INT_MAX :: nat where
  "INT_MAX = 2147483647"

subsection \<open>C++ \<^verbatim>\<open>int\<close>: where the word is the number\<close>

lemma sint_of_nat_small: "n \<le> INT_MAX \<Longrightarrow> sint (of_nat n :: cint) = int n"
  by (simp add: INT_MAX_def signed_of_nat signed_take_bit_int_eq_self)

lemma of_nat_inj_small:
  assumes "m \<le> INT_MAX" and "n \<le> INT_MAX" and "(of_nat m :: cint) = of_nat n"
  shows "m = n"
proof -
  from assms(3) have "sint (of_nat m :: cint) = sint (of_nat n :: cint)" by simp
  with assms(1,2) show ?thesis by (simp add: sint_of_nat_small)
qed

lemma sless_of_nat_pos: "0 < n \<Longrightarrow> n \<le> INT_MAX \<Longrightarrow> (0 :: cint) <s of_nat n"
  by (simp add: word_sless_alt sint_of_nat_small)

lemma of_nat_Suc_cint: "(of_nat (Suc n) :: cint) = of_nat n + 1"
  by simp

subsection \<open>Unsigned fields of 32 bits\<close>

lemma unat_of_nat_small: "n < 2 ^ 32 \<Longrightarrow> unat (of_nat n :: cint) = n"
  by (simp add: unat_of_nat)

lemma map_unat_of_nat: "\<forall>x \<in> set xs. x < 2 ^ 32 \<Longrightarrow> map unat (map of_nat xs :: cint list) = xs"
  by (induction xs) (simp_all add: unat_of_nat_small)

lemma map_of_nat_unat: "map of_nat (map unat ws) = (ws :: cint list)"
  by (induction ws) simp_all

lemma unat_small [simp]: "unat (w :: cint) < 4294967296"
  using unsigned_less [of w] by simp

section \<open>Lists and scanners\<close>

lemma length_dropWhile_less:
  "xs \<noteq> [] \<Longrightarrow> \<not> P (hd xs) \<Longrightarrow> length (dropWhile (\<lambda>x. \<not> P x) xs) < length xs"
  by (cases xs) (auto simp: le_imp_less_Suc length_dropWhile_le)

lemma dropWhile_hd_not: "dropWhile P xs \<noteq> [] \<Longrightarrow> \<not> P (hd (dropWhile P xs))"
  by (simp add: hd_dropWhile)

lemma takeWhile_not_nonempty:
  "xs \<noteq> [] \<Longrightarrow> \<not> P (hd xs) \<Longrightarrow> takeWhile (\<lambda>x. \<not> P x) xs \<noteq> []"
  by (cases xs) auto

lemma filter_dropWhile_same: "filter (\<lambda>x. \<not> P x) (dropWhile P xs) = filter (\<lambda>x. \<not> P x) xs"
  by (induction xs) auto

lemma filter_takeWhile_same: "filter Q (takeWhile Q xs) = takeWhile Q xs"
  by (induction xs) auto

lemma length_le_concat: "x \<in> set xss \<Longrightarrow> length x \<le> length (concat xss)"
  by (induction xss) auto

section \<open>Slices and insertion by index\<close>

text \<open>
  \<open>slice xs lo hi\<close> is the part of an array between two offsets, \<open>insert_at\<close> the
  splice of one element at an index; the compressed-row matrix is built on both.
\<close>

definition slice :: "'a list \<Rightarrow> nat \<Rightarrow> nat \<Rightarrow> 'a list" where
  "slice xs lo hi = take (hi - lo) (drop lo xs)"

definition insert_at :: "nat \<Rightarrow> 'a \<Rightarrow> 'a list \<Rightarrow> 'a list" where
  "insert_at p x xs = take p xs @ x # drop p xs"

lemma length_slice: "length (slice xs lo hi) = min (hi - lo) (length xs - lo)"
  by (simp add: slice_def)

lemma length_slice_le: "lo \<le> hi \<Longrightarrow> hi \<le> length xs \<Longrightarrow> length (slice xs lo hi) = hi - lo"
  by (simp add: slice_def)

lemma nth_slice: "i < hi - lo \<Longrightarrow> hi \<le> length xs \<Longrightarrow> slice xs lo hi ! i = xs ! (lo + i)"
  by (simp add: slice_def)

lemma replicate_numeral_Cons: "replicate (numeral k) x = x # replicate (pred_numeral k) x"
  by (simp add: numeral_eq_Suc)

lemma length_insert_at [simp]: "p \<le> length xs \<Longrightarrow> length (insert_at p x xs) = Suc (length xs)"
  by (simp add: insert_at_def)

lemma slice_update:
  "slice (xs[p := v]) lo hi = (if lo \<le> p \<and> p < hi then (slice xs lo hi)[p - lo := v] else slice xs lo hi)"
proof (cases "lo \<le> p")
  case False
  then show ?thesis by (simp add: slice_def drop_update_cancel)
next
  case True
  then have "slice (xs[p := v]) lo hi = (slice xs lo hi)[p - lo := v]"
    by (simp add: slice_def drop_update_swap take_update_swap)
  moreover have "(slice xs lo hi)[p - lo := v] = slice xs lo hi" if "\<not> p < hi"
    using that True by (intro list_update_beyond) (simp add: slice_def)
  ultimately show ?thesis using True by simp
qed

lemma slice_insert_before:
  assumes "hi \<le> p" and "p \<le> length xs"
  shows "slice (insert_at p x xs) lo hi = slice xs lo hi"
proof (cases "lo \<le> hi")
  case False
  then show ?thesis by (simp add: slice_def)
next
  case True
  with assms have "drop lo (insert_at p x xs) = take (p - lo) (drop lo xs) @ x # drop p xs"
    by (simp add: insert_at_def drop_take)
  moreover from assms True have "hi - lo \<le> length (take (p - lo) (drop lo xs))" by simp
  ultimately show ?thesis using assms True by (simp add: slice_def)
qed

lemma slice_insert_after:
  assumes "p \<le> lo" and "p \<le> length xs"
  shows "slice (insert_at p x xs) (Suc lo) (Suc hi) = slice xs lo hi"
proof -
  from assms have "drop (Suc lo) (insert_at p x xs) = drop (lo - p) (drop p xs)"
    by (simp add: insert_at_def Suc_diff_le)
  with assms show ?thesis by (simp add: slice_def)
qed

lemma slice_insert_in:
  assumes "lo \<le> p" and "p \<le> hi" and "hi \<le> length xs"
  shows "slice (insert_at p x xs) lo (Suc hi) = insert_at (p - lo) x (slice xs lo hi)"
proof -
  from assms have d: "drop lo (insert_at p x xs) = take (p - lo) (drop lo xs) @ x # drop p xs"
    by (simp add: insert_at_def drop_take)
  from assms have l: "length (take (p - lo) (drop lo xs)) = p - lo" by simp
  have "take (Suc hi - lo) (take (p - lo) (drop lo xs) @ x # drop p xs) =
      take (p - lo) (drop lo xs) @ x # take (hi - p) (drop p xs)"
    using assms l by (simp add: Suc_diff_le)
  moreover have "insert_at (p - lo) x (slice xs lo hi) =
      take (p - lo) (drop lo xs) @ x # take (hi - p) (drop p xs)"
    using assms by (simp add: insert_at_def slice_def drop_take min_absorb2)
  ultimately show ?thesis using d by (simp add: slice_def)
qed

lemma insert_at_0 [simp]: "insert_at 0 x xs = x # xs"
  by (simp add: insert_at_def)

lemma insert_at_Suc [simp]: "insert_at (Suc p) x (a # xs) = a # insert_at p x xs"
  by (simp add: insert_at_def)

lemma set_insert_at: "p \<le> length xs \<Longrightarrow> set (insert_at p x xs) = insert x (set xs)"
proof -
  assume "p \<le> length xs"
  have "set (take p xs) \<union> set (drop p xs) = set xs"
    by (metis append_take_drop_id set_append)
  then show ?thesis by (auto simp: insert_at_def)
qed

lemma set_slice_subset: "set (slice xs lo hi) \<subseteq> set xs"
  unfolding slice_def by (meson set_take_subset set_drop_subset subset_trans)

lemma slice_append: "a \<le> b \<Longrightarrow> b \<le> c \<Longrightarrow> slice xs a b @ slice xs b c = slice xs a c"
proof -
  assume "a \<le> b" and "b \<le> c"
  then have "take (c - a) (drop a xs) = take (b - a) (drop a xs) @ take (c - b) (drop b xs)"
    using take_add [of "b - a" "c - b" "drop a xs"] by simp
  then show ?thesis by (simp add: slice_def)
qed

lemma concat_slices:
  "sorted rs \<Longrightarrow> n < length rs \<Longrightarrow>
   concat (map (\<lambda>r. slice xs (rs ! r) (rs ! Suc r)) [0..<n]) = slice xs (rs ! 0) (rs ! n)"
proof (induction n)
  case 0
  show ?case by (simp add: slice_def)
next
  case (Suc n)
  then have "rs ! 0 \<le> rs ! n" and "rs ! n \<le> rs ! Suc n"
    by (simp_all add: sorted_iff_nth_mono)
  with Suc show ?case by (simp add: slice_append)
qed

section \<open>Concatenations over a range\<close>

lemma distinct_concat_upt:
  assumes "\<And>r. r < n \<Longrightarrow> distinct (f r)"
    and "\<And>r r'. r < r' \<Longrightarrow> r' < n \<Longrightarrow> set (f r) \<inter> set (f r') = {}"
  shows "distinct (concat (map f [0..<n]))"
  using assms
proof (induction n)
  case 0
  show ?case by simp
next
  case (Suc n)
  from Suc.prems have "distinct (concat (map f [0..<n]))"
    by (intro Suc.IH) auto
  with Suc.prems show ?case by fastforce
qed

lemma sorted_wrt_concat_upt:
  assumes "\<And>r. r < n \<Longrightarrow> sorted_wrt P (f r)"
    and "\<And>r r' x y. r < r' \<Longrightarrow> r' < n \<Longrightarrow> x \<in> set (f r) \<Longrightarrow> y \<in> set (f r') \<Longrightarrow> P x y"
  shows "sorted_wrt P (concat (map f [0..<n]))"
  using assms
proof (induction n)
  case 0
  show ?case by simp
next
  case (Suc n)
  from Suc.prems have "sorted_wrt P (concat (map f [0..<n]))"
    by (intro Suc.IH) auto
  with Suc.prems show ?case by (fastforce simp: sorted_wrt_append)
qed

lemma map_map_of_zip: "distinct xs \<Longrightarrow> length xs = length ys \<Longrightarrow> map (\<lambda>x. the (map_of (zip xs ys) x)) xs = ys"
  by (intro nth_equalityI) (simp_all add: map_of_zip_nth)

lemma sorted_alist_unique:
  fixes xs ys :: "'a::linorder list"
  assumes "sorted_wrt (<) xs" and "sorted_wrt (<) ys"
    and "length vs = length xs" and "length ws = length ys"
    and "map_of (zip xs vs) = map_of (zip ys ws)"
  shows "xs = ys \<and> vs = ws"
proof -
  from assms(3,4) have "dom (map_of (zip xs vs)) = set xs" and "dom (map_of (zip ys ws)) = set ys"
    by (simp_all add: dom_map_of_zip)
  with assms(5) have "set xs = set ys" by simp
  with assms(1,2) have xy: "xs = ys" by (simp add: strict_sorted_equal)
  from assms(1) have d: "distinct xs" by (simp add: strict_sorted_iff)
  have "vs = map (\<lambda>x. the (map_of (zip xs vs) x)) xs"
    using d assms(3) by (simp add: map_map_of_zip)
  also have "\<dots> = map (\<lambda>x. the (map_of (zip ys ws) x)) ys"
    by (subst assms(5)) (simp only: xy)
  also have "\<dots> = ws"
    using d assms(4) xy by (simp add: map_map_of_zip)
  finally show ?thesis using xy by simp
qed

section \<open>Maxima\<close>

lemma Max_insert_max:
  fixes a :: "'a::linorder"
  shows "finite S \<Longrightarrow> Max (insert (max a b) S) = Max (insert a (insert b S))"
  by (cases "S = {}") (auto simp: max.assoc)

end
