(* ===== verification/Char_Class.thy ===== *)
theory Char_Class
  imports NGram_Prelude
begin

text \<open>
  The character predicates of \<^verbatim>\<open><cctype>\<close> in the "C" locale (the program never
  calls \<^verbatim>\<open>setlocale\<close>: the call in \<^verbatim>\<open>main\<close> is commented out), and the two text
  cleaning functions of \<^verbatim>\<open>src/main.cpp\<close> built on them: \<^verbatim>\<open>remove_predicate\<close>
  (lines 94-100) and \<^verbatim>\<open>clean_text\<close> (lines 102-106). A character is read as the
  \<^verbatim>\<open>unsigned char\<close> code \<open>of_char c\<close>, as the parameter type of
  \<^verbatim>\<open>remove_predicate\<close> does.
\<close>

section \<open>Character classes\<close>

definition char_code :: "char \<Rightarrow> nat" where
  "char_code c = of_char c"

definition in_range :: "nat \<Rightarrow> nat \<Rightarrow> char \<Rightarrow> bool" where
  "in_range lo hi c \<longleftrightarrow> lo \<le> char_code c \<and> char_code c \<le> hi"

definition isalpha :: "char \<Rightarrow> bool" where
  "isalpha c \<longleftrightarrow> in_range 65 90 c \<or> in_range 97 122 c"

definition isblank :: "char \<Rightarrow> bool" where
  "isblank c \<longleftrightarrow> char_code c = 32 \<or> char_code c = 9"

definition isspace :: "char \<Rightarrow> bool" where
  "isspace c \<longleftrightarrow> char_code c = 32 \<or> in_range 9 13 c"

definition ispunct :: "char \<Rightarrow> bool" where
  "ispunct c \<longleftrightarrow>
     in_range 33 47 c \<or> in_range 58 64 c \<or> in_range 91 96 c \<or> in_range 123 126 c"

lemmas [cclass_defs] =
  char_code_def in_range_def isalpha_def isblank_def isspace_def ispunct_def

section \<open>The cleaning functions\<close>

text \<open>
  \<^verbatim>\<open>return ! (isalpha(c) && isblank(c) && (c == '.'));\<close>
\<close>

definition remove_predicate :: "char \<Rightarrow> bool" where
  "remove_predicate c \<longleftrightarrow> \<not> (isalpha c \<and> isblank c \<and> c = CHR ''.'')"

text \<open>
  \<^verbatim>\<open>std::remove_if(first, last, p)\<close> moves the elements that do not satisfy \<open>p\<close> to
  the front, in their order, and returns the end of that prefix;
  \<^verbatim>\<open>str.erase(new_end, str.end())\<close> cuts the string there. \<open>remove_if\<close> returns the
  prefix and its length, \<open>erase\<close> takes the cut.
\<close>

definition remove_if :: "(char \<Rightarrow> bool) \<Rightarrow> string \<Rightarrow> string \<times> nat" where
  "remove_if p str =
     (let kept = filter (\<lambda>c. \<not> p c) str
      in (kept @ drop (length kept) str, length kept))"

definition erase :: "nat \<Rightarrow> string \<Rightarrow> string" where
  "erase new_end str = take new_end str"

definition clean_text :: "string \<Rightarrow> string" where
  "clean_text str = (let (moved, new_end) = remove_if remove_predicate str in erase new_end moved)"

section \<open>Facts about the classes\<close>

lemma char_code_less_256: "char_code c < 256"
  unfolding char_code_def by (cases c) simp

lemma isblank_isspace: "isblank c \<Longrightarrow> isspace c"
  by (auto simp: cclass_defs)

lemma isalpha_not_isspace: "isalpha c \<Longrightarrow> \<not> isspace c"
  by (auto simp: cclass_defs)

lemma isalpha_not_ispunct: "isalpha c \<Longrightarrow> \<not> ispunct c"
  by (auto simp: cclass_defs)

lemma ispunct_not_isspace: "ispunct c \<Longrightarrow> \<not> isspace c"
  by (auto simp: cclass_defs)

lemma dot_is_punct: "ispunct (CHR ''.'') \<and> \<not> isalpha (CHR ''.'') \<and> \<not> isblank (CHR ''.'')"
  by (simp add: cclass_defs)

section \<open>What the cleaning functions compute\<close>

lemma remove_if_kept: "take (snd (remove_if p str)) (fst (remove_if p str)) = filter (\<lambda>c. \<not> p c) str"
  by (simp add: remove_if_def Let_def)

lemma remove_if_length: "length (fst (remove_if p str)) = length str"
proof -
  have "length (filter (\<lambda>c. \<not> p c) str) \<le> length str" by simp
  then show ?thesis by (simp add: remove_if_def Let_def)
qed

lemma clean_text_filter: "clean_text str = filter (\<lambda>c. \<not> remove_predicate c) str"
  by (simp add: clean_text_def erase_def remove_if_def Let_def)

text \<open>
  C8. \<^verbatim>\<open>remove_predicate\<close> holds of every character: the conjunction under its
  negation asks for a character that is a letter, a blank and the full stop at
  once, and there is none. The predicate that was meant to keep letters, blanks
  and full stops marks everything for removal.
\<close>

theorem remove_predicate_always: "remove_predicate c"
  by (auto simp: remove_predicate_def cclass_defs)

text \<open>
  C32. Hence \<^verbatim>\<open>clean_text\<close> erases its whole argument, letters included.
\<close>

theorem clean_text_erases_all: "clean_text str = []"
proof -
  have "\<not> (isalpha c \<and> isblank c \<and> c = CHR ''.'')" for c
    using isalpha_not_isspace [of c] isblank_isspace [of c] by blast
  then show ?thesis
    by (simp add: clean_text_filter remove_predicate_def)
qed

lemma clean_text_example: "clean_text ''Hello, world.'' = []"
  by (simp add: clean_text_filter remove_predicate_def cclass_defs)

end
