(* ===== verification/Tokenizer.thy ===== *)
theory Tokenizer
  imports Char_Class
begin

text \<open>
  The two tokenizers of \<^verbatim>\<open>src/main.cpp\<close>. Both are \<^verbatim>\<open>boost::tokenizer\<close> ranges, and a
  range is iterated by calling its tokenizer function on the rest of the input
  until it reports that nothing is left:
  \<^item> \<^verbatim>\<open>fill_dictionary\<close> (lines 121-124) uses \<^verbatim>\<open>boost::tokenizer<>\<close>, whose default
    function \<^verbatim>\<open>char_delimiters_separator<char>\<close> skips the characters for which
    \<^verbatim>\<open>isspace\<close> or \<^verbatim>\<open>ispunct\<close> holds and returns the run of other characters
    that follows;
  \<^item> \<^verbatim>\<open>main\<close> (lines 203-206) uses \<^verbatim>\<open>char_separator<char> sep(".?!;")\<close>: the four
    characters are dropped delimiters, there is no kept delimiter, and empty
    tokens are dropped.
  With no delimiter returned, both functions are one scanner over a delimiter
  predicate: \<open>next_token\<close> is one call of the tokenizer function (the token and
  the rest of the input, or \<open>None\<close> for the end), \<open>tokens\<close> the loop of the
  iterator. \<open>fields\<close> is the reference: the input cut at every delimiter.
\<close>

section \<open>The scanner\<close>

definition next_token :: "(char \<Rightarrow> bool) \<Rightarrow> string \<Rightarrow> (string \<times> string) option" where
  "next_token delim s =
     (let s' = dropWhile delim s
      in if s' = [] then None
         else Some (takeWhile (\<lambda>c. \<not> delim c) s', dropWhile (\<lambda>c. \<not> delim c) s'))"

lemma next_token_shorter:
  assumes "next_token delim s = Some (tok, rest)"
  shows "length rest < length s"
proof -
  let ?s' = "dropWhile delim s"
  from assms have ne: "?s' \<noteq> []" and r: "rest = dropWhile (\<lambda>c. \<not> delim c) ?s'"
    by (auto simp: next_token_def Let_def split: if_splits)
  from ne have "\<not> delim (hd ?s')" by (rule dropWhile_hd_not)
  with ne have "length rest < length ?s'" unfolding r by (rule length_dropWhile_less)
  also have "\<dots> \<le> length s" by (rule length_dropWhile_le)
  finally show ?thesis .
qed

function tokens :: "(char \<Rightarrow> bool) \<Rightarrow> string \<Rightarrow> string list" where
  "tokens delim s =
     (case next_token delim s of
        None \<Rightarrow> []
      | Some (tok, rest) \<Rightarrow> tok # tokens delim rest)"
  by pat_completeness auto
termination
  by (relation "measure (\<lambda>(delim, s). length s)") (auto dest: next_token_shorter)

declare tokens.simps [simp del]

section \<open>The two tokenizers of the program\<close>

definition word_delim :: "char \<Rightarrow> bool" where
  "word_delim c \<longleftrightarrow> isspace c \<or> ispunct c"

definition word_tokens :: "string \<Rightarrow> string list" where
  "word_tokens str = tokens word_delim str"

definition sentence_delim :: "char \<Rightarrow> bool" where
  "sentence_delim c \<longleftrightarrow> c \<in> set ''.?!;''"

definition sentence_tokens :: "string \<Rightarrow> string list" where
  "sentence_tokens the_text = tokens sentence_delim the_text"

section \<open>The reference: fields between delimiters\<close>

fun fields :: "(char \<Rightarrow> bool) \<Rightarrow> string \<Rightarrow> string list" where
  "fields d [] = [[]]"
| "fields d (c # cs) =
     (if d c then [] # fields d cs
      else (c # hd (fields d cs)) # tl (fields d cs))"

section \<open>Characteristic equations\<close>

lemma next_token_Nil [simp]: "next_token d [] = None"
  by (simp add: next_token_def)

lemma next_token_delim [simp]: "d c \<Longrightarrow> next_token d (c # cs) = next_token d cs"
  by (simp add: next_token_def)

lemma next_token_char:
  "\<not> d c \<Longrightarrow> next_token d (c # cs) = Some (c # takeWhile (\<lambda>c. \<not> d c) cs, dropWhile (\<lambda>c. \<not> d c) cs)"
  by (simp add: next_token_def)

lemma tokens_Nil [simp]: "tokens d [] = []"
  by (simp add: tokens.simps)

lemma tokens_delim [simp]: "d c \<Longrightarrow> tokens d (c # cs) = tokens d cs"
  by (simp add: tokens.simps [of d "c # cs"] tokens.simps [of d cs])

lemma tokens_char:
  "\<not> d c \<Longrightarrow> tokens d (c # cs) =
     (c # takeWhile (\<lambda>c. \<not> d c) cs) # tokens d (dropWhile (\<lambda>c. \<not> d c) cs)"
  by (simp add: tokens.simps [of d "c # cs"] next_token_char)

lemma tokens_step:
  "\<not> d c \<Longrightarrow> tokens d (c # cs) =
     (case cs of [] \<Rightarrow> [[c]]
      | c' # cs' \<Rightarrow> if d c' then [c] # tokens d cs
                   else (c # hd (tokens d cs)) # tl (tokens d cs))"
  by (cases cs) (auto simp: tokens_char)

lemmas [tok_simps] =
  word_tokens_def sentence_tokens_def word_delim_def sentence_delim_def
  tokens_Nil tokens_delim tokens_char

section \<open>The scanner against the reference\<close>

lemma fields_nonempty [simp]: "fields d s \<noteq> []"
  by (induction s) auto

lemma tokens_eq_fields: "tokens d s = filter (\<lambda>t. t \<noteq> []) (fields d s)"
proof (induction s)
  case Nil
  show ?case by simp
next
  case (Cons c cs)
  show ?case
  proof (cases "d c")
    case True
    with Cons show ?thesis by simp
  next
    case False
    show ?thesis
    proof (cases cs)
      case Nil
      with False show ?thesis by (simp add: tokens_step)
    next
      case (Cons c' cs')
      with False Cons.IH show ?thesis
        by (cases "fields d cs") (auto simp: tokens_step)
    qed
  qed
qed


lemma fields_no_delim: "f \<in> set (fields d s) \<Longrightarrow> c \<in> set f \<Longrightarrow> \<not> d c"
proof (induction s arbitrary: f)
  case Nil
  then show ?case by simp
next
  case (Cons a s)
  have hd: "hd (fields d s) \<in> set (fields d s)" by simp
  have tl: "g \<in> set (fields d s)" if "g \<in> set (tl (fields d s))" for g
    using that by (cases "fields d s") auto
  from Cons.prems show ?case
    using Cons.IH [OF hd] Cons.IH [OF tl] Cons.IH by (auto split: if_splits)
qed

lemma concat_fields: "concat (fields d s) = filter (\<lambda>c. \<not> d c) s"
proof (induction s)
  case Nil
  show ?case by simp
next
  case (Cons c cs)
  then show ?case by (cases "fields d cs") auto
qed

lemma concat_filter_nonempty: "concat (filter (\<lambda>t. t \<noteq> []) xss) = concat xss"
  by (induction xss) auto

lemma concat_tokens: "concat (tokens d s) = filter (\<lambda>c. \<not> d c) s"
  by (simp add: tokens_eq_fields concat_filter_nonempty concat_fields)

lemma tokens_wf: "t \<in> set (tokens d s) \<Longrightarrow> t \<noteq> [] \<and> (\<forall>c\<in>set t. \<not> d c)"
  by (auto simp: tokens_eq_fields dest: fields_no_delim)

section \<open>Counting, splitting and nesting\<close>

lemma tokens_empty_iff: "tokens d s = [] \<longleftrightarrow> (\<forall>c\<in>set s. d c)"
proof (induction s)
  case Nil
  show ?case by simp
next
  case (Cons c cs)
  then show ?case by (cases "d c") (auto simp: tokens_char)
qed

lemma length_tokens_aux:
  "2 * length (tokens d s) \<le> length s + (if s \<noteq> [] \<and> \<not> d (hd s) then 1 else 0)"
proof (induction s)
  case Nil
  show ?case by simp
next
  case (Cons c cs)
  show ?case
  proof (cases "d c")
    case True
    with Cons show ?thesis by (auto split: if_splits)
  next
    case False
    show ?thesis
    proof (cases cs)
      case Nil
      with False show ?thesis by (simp add: tokens_step)
    next
      case (Cons c' cs')
      have "tokens d cs \<noteq> []" if "\<not> d c'"
        using that Cons by (auto simp: tokens_empty_iff)
      with False Cons Cons.IH show ?thesis
        by (auto simp: tokens_step split: if_splits)
    qed
  qed
qed

lemma length_tokens: "2 * length (tokens d s) \<le> Suc (length s)"
  using length_tokens_aux [of d s] by (simp split: if_splits)

lemma tokens_append:
  "a = [] \<or> d (last a) \<or> b = [] \<or> d (hd b) \<Longrightarrow> tokens d (a @ b) = tokens d a @ tokens d b"
proof (induction a)
  case Nil
  show ?case by simp
next
  case (Cons c a)
  show ?case
  proof (cases "d c")
    case True
    with Cons show ?thesis by (cases a) auto
  next
    case False
    show ?thesis
    proof (cases a)
      case Nil
      with False Cons.prems show ?thesis
        by (cases b) (auto simp: tokens_step)
    next
      case (Cons c' a')
      with Cons.prems Cons.IH have IH: "tokens d (a @ b) = tokens d a @ tokens d b" by auto
      have "tokens d a \<noteq> []" if "\<not> d c'"
        using that Cons by (auto simp: tokens_empty_iff)
      with False Cons IH show ?thesis
        by (auto simp: tokens_step)
    qed
  qed
qed

lemma tokens_all_delim: "\<forall>c\<in>set s. d c \<Longrightarrow> tokens d s = []"
  by (simp add: tokens_empty_iff)

lemma tokens_no_delim: "s \<noteq> [] \<Longrightarrow> \<forall>c\<in>set s. \<not> d c \<Longrightarrow> tokens d s = [s]"
proof -
  assume ne: "s \<noteq> []" and nd: "\<forall>c\<in>set s. \<not> d c"
  then obtain c cs where s: "s = c # cs" by (cases s) auto
  from nd s have t: "takeWhile (\<lambda>c. \<not> d c) cs = cs" and r: "dropWhile (\<lambda>c. \<not> d c) cs = []"
    by auto
  from nd s show ?thesis by (simp add: tokens_char t r)
qed

lemma tokens_refine:
  assumes sub: "\<And>c. d1 c \<Longrightarrow> d2 c"
  shows "concat (map (tokens d2) (tokens d1 s)) = tokens d2 s"
proof (induction s rule: length_induct)
  case (1 s)
  show ?case
  proof (cases s)
    case Nil
    then show ?thesis by simp
  next
    case (Cons c cs)
    show ?thesis
    proof (cases "d1 c")
      case True
      with Cons sub "1.IH" show ?thesis by simp
    next
      case False
      let ?t = "takeWhile (\<lambda>c. \<not> d1 c) cs" and ?r = "dropWhile (\<lambda>c. \<not> d1 c) cs"
      have r: "?r = [] \<or> d2 (hd ?r)"
        using sub hd_dropWhile [of "\<lambda>c. \<not> d1 c" cs] by auto
      have "tokens d2 (c # cs) = tokens d2 ((c # ?t) @ ?r)" by simp
      also have "\<dots> = tokens d2 (c # ?t) @ tokens d2 ?r"
        using r by (intro tokens_append) simp
      finally have split: "tokens d2 (c # cs) = tokens d2 (c # ?t) @ tokens d2 ?r" .
      have "length ?r < length s"
        using Cons by (simp add: le_imp_less_Suc length_dropWhile_le)
      with "1.IH" have "concat (map (tokens d2) (tokens d1 ?r)) = tokens d2 ?r" by blast
      with False Cons split show ?thesis by (simp add: tokens_char)
    qed
  qed
qed


lemma sentence_delim_word_delim: "sentence_delim c \<Longrightarrow> word_delim c"
  by (auto simp: sentence_delim_def word_delim_def cclass_defs)

lemma token_length_le: "t \<in> set (tokens d s) \<Longrightarrow> length t \<le> length s"
proof -
  assume "t \<in> set (tokens d s)"
  then have "length t \<le> length (concat (tokens d s))" by (rule length_le_concat)
  also have "\<dots> \<le> length s" by (simp add: concat_tokens)
  finally show ?thesis .
qed

lemma length_tokens_le: "length (tokens d s) \<le> length s"
  using length_tokens [of d s] by (cases s) auto

lemma sentence_words:
  "concat (map word_tokens (sentence_tokens the_text)) = word_tokens the_text"
  unfolding word_tokens_def sentence_tokens_def
  by (rule tokens_refine) (rule sentence_delim_word_delim)

section \<open>Properties of the program's tokenizers\<close>

text \<open>
  C10. The word tokenizer and the sentence tokenizer return exactly the non-empty
  fields between their delimiters, in order: the scanner that skips and takes
  agrees with the reference that cuts at every delimiter.
\<close>

theorem tokenizers_fields:
  "word_tokens str = filter (\<lambda>t. t \<noteq> []) (fields word_delim str) \<and>
   sentence_tokens the_text = filter (\<lambda>t. t \<noteq> []) (fields sentence_delim the_text)"
  by (simp add: word_tokens_def sentence_tokens_def tokens_eq_fields)

text \<open>
  C34. The word tokenizer loses no character other than its delimiters: the
  words, concatenated, are the input without white space and punctuation.
\<close>

theorem word_tokens_content:
  "concat (word_tokens str) = filter (\<lambda>c. \<not> word_delim c) str"
  by (simp add: word_tokens_def concat_tokens)

text \<open>
  C33. Every word the tokenizer returns is non-empty and holds neither white space
  nor punctuation.
\<close>

theorem word_tokens_wf:
  "w \<in> set (word_tokens str) \<Longrightarrow> w \<noteq> [] \<and> (\<forall>c\<in>set w. \<not> isspace c \<and> \<not> ispunct c)"
  using tokens_wf [of w word_delim str] by (simp add: word_tokens_def word_delim_def)

theorem word_tokens_wf_witness:
  "''is'' \<in> set (word_tokens ''This is, it.'') \<and> ''is'' \<noteq> [] \<and>
   \<not> isspace (CHR ''i'') \<and> \<not> ispunct (CHR ''i'') \<and> \<not> isspace (CHR ''s'') \<and> \<not> ispunct (CHR ''s'')"
proof -
  have "''is'' \<in> set (word_tokens ''This is, it.'')"
    by (simp add: tok_simps cclass_defs)
  from this word_tokens_wf [OF this] show ?thesis by simp
qed

text \<open>
  C36. A text of \<open>n\<close> characters has at most \<open>(n + 1) div 2\<close> words, since two
  words are at least one delimiter apart; the word counter of
  \<^verbatim>\<open>fill_dictionary\<close> therefore stays far below the length of its input.
\<close>

theorem word_tokens_bound: "2 * length (word_tokens str) \<le> Suc (length str)"
  by (simp add: word_tokens_def length_tokens)

text \<open>
  C37. One call of the tokenizer function that finds a token returns a non-empty
  token and a strictly shorter rest, so the iteration over the tokens ends.
\<close>

theorem next_token_consumes:
  "next_token delim s = Some (tok, rest) \<Longrightarrow> tok \<noteq> [] \<and> length rest < length s"
proof
  assume *: "next_token delim s = Some (tok, rest)"
  then have ne: "dropWhile delim s \<noteq> []"
    and tok: "tok = takeWhile (\<lambda>c. \<not> delim c) (dropWhile delim s)"
    by (auto simp: next_token_def Let_def split: if_splits)
  from ne have "\<not> delim (hd (dropWhile delim s))" by (rule dropWhile_hd_not)
  with ne show "tok \<noteq> []" unfolding tok by (rule takeWhile_not_nonempty)
  from * show "length rest < length s" by (rule next_token_shorter)
qed

theorem next_token_consumes_witness:
  "next_token sentence_delim ''..Hi. Ho'' = Some (''Hi'', ''. Ho'') \<and> ''Hi'' \<noteq> [] \<and>
   length ''. Ho'' < length ''..Hi. Ho''"
proof -
  have "next_token sentence_delim ''..Hi. Ho'' = Some (''Hi'', ''. Ho'')"
    by (simp add: next_token_def sentence_delim_def)
  from this next_token_consumes [OF this] show ?thesis by simp
qed

end
