(* ===== verification/Ordered_Map.thy ===== *)
theory Ordered_Map
  imports NGram_Prelude
begin

text \<open>
  \<^verbatim>\<open>std::map\<close> as \<^verbatim>\<open>src/main.cpp\<close> uses it: \<^verbatim>\<open>Dictionary\<close> (line 31,
  \<^verbatim>\<open>std::map<string, int>\<close>) and \<^verbatim>\<open>Stats::sentence_len\<close> (line 28,
  \<^verbatim>\<open>std::map<int, int>\<close>). A map is the sequence of its entries in the order an
  iteration visits them, ascending by key; an iterator is a position in that
  sequence. The program uses three operations: \<^verbatim>\<open>insert\<close>, which leaves an existing
  entry alone and reports through the flag of its result whether it inserted,
  the increment of the count through the iterator that \<^verbatim>\<open>insert\<close> returned, and
  \<^verbatim>\<open>size\<close>. Lines 128-132 and 138-142 combine the first two into the same
  idiom, \<open>insert_or_increment\<close>.

  The abstract view of a map is the partial function \<open>map_of m\<close>; \<open>bump\<close> is
  what the idiom promises on it, and \<open>omap_inv\<close> (keys strictly ascending) is
  the invariant under which the sequence represents its partial function.
\<close>

section \<open>Representation and operations\<close>

type_synonym ('k, 'v) omap = "('k \<times> 'v) list"

definition omap_inv :: "('k::linorder, 'v) omap \<Rightarrow> bool" where
  "omap_inv m \<longleftrightarrow> sorted_wrt (<) (map fst m)"

fun omap_insert :: "'k::linorder \<times> 'v \<Rightarrow> ('k, 'v) omap \<Rightarrow> ('k, 'v) omap \<times> nat \<times> bool" where
  "omap_insert (k, v) [] = ([(k, v)], 0, True)"
| "omap_insert (k, v) ((a, b) # ps) =
     (if k < a then ((k, v) # (a, b) # ps, 0, True)
      else if a < k then (case omap_insert (k, v) ps of (ps', i, ins) \<Rightarrow> ((a, b) # ps', Suc i, ins))
      else ((a, b) # ps, 0, False))"

definition omap_incr_at :: "nat \<Rightarrow> ('k, cint) omap \<Rightarrow> ('k, cint) omap" where
  "omap_incr_at i m = m[i := (fst (m ! i), snd (m ! i) + 1)]"

definition insert_or_increment :: "'k::linorder \<Rightarrow> ('k, cint) omap \<Rightarrow> ('k, cint) omap" where
  "insert_or_increment k m =
     (case omap_insert (k, 1) m of (m', i, inserted) \<Rightarrow>
        if \<not> inserted then omap_incr_at i m' else m')"

definition omap_size :: "('k, 'v) omap \<Rightarrow> nat" where
  "omap_size m = length m"

section \<open>Abstract specification\<close>

definition bump :: "'k \<Rightarrow> ('k \<rightharpoonup> cint) \<Rightarrow> ('k \<rightharpoonup> cint)" where
  "bump k f = f(k \<mapsto> (case f k of None \<Rightarrow> 1 | Some c \<Rightarrow> c + 1))"




definition count_of :: "('k \<rightharpoonup> cint) \<Rightarrow> 'k \<Rightarrow> cint" where
  "count_of f k = (case f k of None \<Rightarrow> 0 | Some c \<Rightarrow> c)"

definition counts_map :: "'k list \<Rightarrow> 'k \<rightharpoonup> cint" where
  "counts_map ws = (\<lambda>w. if w \<in> set ws then Some (of_nat (count_list ws w)) else None)"

section \<open>Characteristic equations and the induction rule of an insertion\<close>

lemma fst_in_keys [intro]: "(a, b) \<in> set m \<Longrightarrow> a \<in> fst ` set m"
  by force

lemma omap_insert_less: "k < a \<Longrightarrow> omap_insert (k, v) ((a, b) # ps) = ((k, v) # (a, b) # ps, 0, True)"
  by simp

lemma omap_insert_equal: "omap_insert (k, v) ((k, b) # ps) = ((k, b) # ps, 0, False)"
  by simp

lemma omap_insert_greater:
  "a < k \<Longrightarrow> omap_insert (k, v) ((a, b) # ps) =
     ((a, b) # fst (omap_insert (k, v) ps), Suc (fst (snd (omap_insert (k, v) ps))),
      snd (snd (omap_insert (k, v) ps)))"
  by (simp add: split_beta)

lemmas omap_insert_simps = omap_insert.simps(1) omap_insert_less omap_insert_equal omap_insert_greater

declare omap_insert.simps(2) [simp del]
declare omap_insert_less [simp] omap_insert_equal [simp] omap_insert_greater [simp]

lemma omap_induct [case_names Nil Less Equal Greater]:
  fixes k :: "'k::linorder"
  assumes "P []"
    and "\<And>a b ps. k < a \<Longrightarrow> P ((a, b) # ps)"
    and "\<And>b ps. P ((k, b) # ps)"
    and "\<And>a b ps. a < k \<Longrightarrow> P ps \<Longrightarrow> P ((a, b) # ps)"
  shows "P m"
proof (induction m)
  case Nil
  show ?case by fact
next
  case (Cons p ps)
  obtain a b where p: "p = (a, b)" by (cases p)
  consider "k < a" | "k = a" | "a < k" by (rule linorder_cases)
  then show ?case
    using assms(2-4) Cons.IH by cases (auto simp: p)
qed

lemmas [omap_simps] =
  omap_insert_simps insert_or_increment_def omap_incr_at_def omap_inv_def omap_size_def

section \<open>\<open>insert\<close>: keys, invariant, position and flag\<close>

lemma omap_insert_keys:
  "fst ` set (fst (omap_insert (k, v) m)) = insert k (fst ` set m)"
  by (induction m rule: omap_induct [where k = k]) auto

lemma omap_insert_inv:
  "omap_inv m \<Longrightarrow> omap_inv (fst (omap_insert (k, v) m))"
  unfolding omap_inv_def
proof (induction m rule: omap_induct [where k = k])
  case (Greater a b ps)
  then have "\<forall>x\<in>fst ` set (fst (omap_insert (k, v) ps)). a < x"
    by (simp add: omap_insert_keys)
  with Greater show ?case by auto
qed auto

lemma omap_insert_pos:
  "fst (snd (omap_insert (k, v) m)) < length (fst (omap_insert (k, v) m)) \<and>
   fst (fst (omap_insert (k, v) m) ! fst (snd (omap_insert (k, v) m))) = k"
  by (induction m rule: omap_induct [where k = k]) auto

lemma omap_insert_inserted:
  "omap_inv m \<Longrightarrow> snd (snd (omap_insert (k, v) m)) \<longleftrightarrow> map_of m k = None"
  unfolding omap_inv_def
  by (induction m rule: omap_induct [where k = k]) (force simp: map_of_eq_None_iff)+

lemma map_of_above:
  "sorted_wrt (<) (map fst ((a, b) # ps)) \<Longrightarrow> k \<le> a \<Longrightarrow> map_of ps (k :: 'k::linorder) = None"
proof -
  assume srt: "sorted_wrt (<) (map fst ((a, b) # ps))" and le: "k \<le> a"
  have "k \<notin> fst ` set ps"
  proof
    assume "k \<in> fst ` set ps"
    then obtain x where "x \<in> set ps" and "fst x = k" by auto
    with srt have "a < k" by auto
    with le show False by simp
  qed
  then show ?thesis by (simp add: map_of_eq_None_iff)
qed

lemma omap_insert_map_of:
  "omap_inv m \<Longrightarrow>
   map_of (fst (omap_insert (k, v) m)) = (if map_of m k = None then (map_of m)(k \<mapsto> v) else map_of m)"
  unfolding omap_inv_def
proof (induction m rule: omap_induct [where k = k])
  case (Less a b ps)
  then have "map_of ps k = None" by (intro map_of_above [of a b ps k]) auto
  with Less show ?case by auto
next
  case (Greater a b ps)
  then show ?case by (auto simp: fun_eq_iff)
qed auto

lemma omap_insert_length:
  "length (fst (omap_insert (k, v) m)) = (if snd (snd (omap_insert (k, v) m)) then Suc (length m) else length m)"
  by (induction m rule: omap_induct [where k = k]) auto

lemma omap_insert_unchanged:
  "\<not> snd (snd (omap_insert (k, v) m)) \<Longrightarrow> fst (omap_insert (k, v) m) = m"
  by (induction m rule: omap_induct [where k = k]) auto

section \<open>The increment through the iterator\<close>

lemma map_of_update_at:
  "distinct (map fst m) \<Longrightarrow> i < length m \<Longrightarrow>
   map_of (m[i := (fst (m ! i), w)]) = (map_of m)(fst (m ! i) \<mapsto> w)"
proof (induction m arbitrary: i)
  case Nil
  then show ?case by simp
next
  case (Cons p ps)
  show ?case
  proof (cases i)
    case 0
    then show ?thesis by (cases p) auto
  next
    case (Suc j)
    with Cons.prems have "fst (ps ! j) \<in> fst ` set ps" by auto
    with Cons Suc show ?thesis by (cases p) (auto simp: fun_eq_iff)
  qed
qed

lemma omap_inv_distinct: "omap_inv m \<Longrightarrow> distinct (map fst m)"
  unfolding omap_inv_def by (simp add: strict_sorted_iff)

lemma map_of_incr_at:
  "omap_inv m \<Longrightarrow> i < length m \<Longrightarrow>
   map_of (omap_incr_at i m) = (map_of m)(fst (m ! i) \<mapsto> snd (m ! i) + 1)"
  by (simp add: omap_incr_at_def map_of_update_at omap_inv_distinct)

lemma omap_incr_at_keys [simp]: "map fst (omap_incr_at i m) = map fst m"
  by (cases "i < length m") (simp_all add: omap_incr_at_def map_update list_update_same_conv list_update_beyond)

lemma omap_incr_at_inv [simp]: "omap_inv (omap_incr_at i m) \<longleftrightarrow> omap_inv m"
  by (simp add: omap_inv_def)

section \<open>The idiom against its specification\<close>

lemma insert_or_increment_inv: "omap_inv m \<Longrightarrow> omap_inv (insert_or_increment k m)"
  by (simp add: insert_or_increment_def split_beta omap_insert_inv)

lemma insert_or_increment_map_of:
  assumes "omap_inv m"
  shows "map_of (insert_or_increment k m) = bump k (map_of m)"
proof (cases "map_of m k")
  case None
  with assms show ?thesis
    by (simp add: insert_or_increment_def split_beta omap_insert_inserted omap_insert_map_of bump_def)
next
  case (Some c)
  let ?r = "omap_insert (k, 1 :: cint) m"
  from Some assms have ins: "\<not> snd (snd ?r)"
    by (simp add: omap_insert_inserted)
  then have same: "fst ?r = m" by (rule omap_insert_unchanged)
  from omap_insert_pos [of k 1 m] same
  have i: "fst (snd ?r) < length m" and key: "fst (m ! fst (snd ?r)) = k" by simp_all
  from assms i key Some have "snd (m ! fst (snd ?r)) = c"
    by (metis map_of_eq_Some_iff nth_mem omap_inv_distinct prod.collapse option.inject)
  with assms i key Some ins same show ?thesis
    by (simp add: insert_or_increment_def split_beta map_of_incr_at bump_def)
qed

lemma fold_bump:
  "fold bump ws f k =
     (if k \<in> set ws then Some (count_of f k + of_nat (count_list ws k)) else f k)"
  by (induction ws arbitrary: f) (auto simp: bump_def count_of_def split: option.splits)

lemma fold_insert_or_increment_inv:
  "omap_inv m \<Longrightarrow> omap_inv (fold insert_or_increment ws m)"
  by (induction ws arbitrary: m) (auto simp: insert_or_increment_inv)

lemma fold_insert_or_increment_map_of:
  "omap_inv m \<Longrightarrow> map_of (fold insert_or_increment ws m) = fold bump ws (map_of m)"
  by (induction ws arbitrary: m) (auto simp: insert_or_increment_inv insert_or_increment_map_of)

lemma dom_bump [simp]: "dom (bump k f) = insert k (dom f)"
  by (simp add: bump_def)

lemma dom_fold_bump: "dom (fold bump ws f) = set ws \<union> dom f"
  by (induction ws arbitrary: f) auto

lemma omap_keys_dom: "fst ` set m = dom (map_of m)"
  by (simp add: dom_map_of_conv_image_fst)

lemma omap_size_card: "omap_inv m \<Longrightarrow> omap_size m = card (dom (map_of m))"
  using distinct_card [of "map fst m"]
  by (simp add: omap_size_def omap_inv_distinct dom_map_of_conv_image_fst)

lemma sum_list_update_snd:
  "i < length m \<Longrightarrow> sum_list (map snd (m[i := (a, snd (m ! i) + (1::cint))])) = sum_list (map snd m) + 1"
  by (induction m arbitrary: i) (auto split: nat.splits)

lemma omap_insert_sum:
  "sum_list (map snd (fst (omap_insert (k, v :: cint) m))) =
     (if snd (snd (omap_insert (k, v) m)) then sum_list (map snd m) + v else sum_list (map snd m))"
  by (induction m rule: omap_induct [where k = k]) auto

lemma insert_or_increment_sum:
  "sum_list (map snd (insert_or_increment k m)) = sum_list (map snd m) + 1"
proof (cases "snd (snd (omap_insert (k, 1 :: cint) m))")
  case True
  then show ?thesis
    by (simp add: insert_or_increment_def split_beta omap_insert_sum)
next
  case False
  then have same: "fst (omap_insert (k, 1 :: cint) m) = m" by (rule omap_insert_unchanged)
  with omap_insert_pos [of k 1 m] have "fst (snd (omap_insert (k, 1 :: cint) m)) < length m"
    by simp
  with False same show ?thesis
    by (simp add: insert_or_increment_def split_beta omap_incr_at_def sum_list_update_snd)
qed

lemma fold_insert_or_increment_sum:
  "sum_list (map snd (fold insert_or_increment ws m)) = sum_list (map snd m) + of_nat (length ws)"
  by (induction ws arbitrary: m) (auto simp: insert_or_increment_sum)

section \<open>Counting a list from the empty map\<close>

lemma omap_inv_Nil [simp]: "omap_inv []"
  by (simp add: omap_inv_def)

lemma counted_map_of: "map_of (fold insert_or_increment ws []) = counts_map ws"
  by (auto simp: fold_insert_or_increment_map_of fold_bump counts_map_def count_of_def fun_eq_iff)

lemma counted_inv: "omap_inv (fold insert_or_increment ws ([] :: ('k::linorder, cint) omap))"
  by (rule fold_insert_or_increment_inv) (simp add: omap_inv_def)

lemma counted_size: "omap_size (fold insert_or_increment ws ([] :: ('k::linorder, cint) omap)) = card (set ws)"
proof -
  have "dom (counts_map ws) = set ws" by (auto simp: counts_map_def split: if_splits)
  then show ?thesis by (simp add: omap_size_card counted_inv counted_map_of)
qed

lemma counted_values:
  "snd ` set (fold insert_or_increment ws ([] :: ('k::linorder, cint) omap)) = (\<lambda>w. of_nat (count_list ws w)) ` set ws"
proof -
  let ?d = "fold insert_or_increment ws ([] :: ('k::linorder, cint) omap)"
  have "snd ` set ?d = ran (map_of ?d)"
    by (simp add: ran_distinct omap_inv_distinct counted_inv)
  also have "\<dots> = (\<lambda>w. of_nat (count_list ws w)) ` set ws"
    by (auto simp: counted_map_of counts_map_def ran_def split: if_splits)
  finally show ?thesis .
qed

section \<open>Properties\<close>

text \<open>
  C9. The insert-or-increment idiom of lines 128-132 implements the counter
  update on the abstract map and keeps the keys strictly ascending: a key that
  is absent gets the count 1, a key that is present has its count incremented,
  and no other entry changes.
\<close>

theorem insert_or_increment_refines:
  "omap_inv m \<Longrightarrow>
   map_of (insert_or_increment k m) = bump k (map_of m) \<and> omap_inv (insert_or_increment k m)"
  by (simp add: insert_or_increment_map_of insert_or_increment_inv)

theorem insert_or_increment_refines_witness:
  "omap_inv [(''a'', 1 :: cint), (''c'', 2)] \<and>
   map_of (insert_or_increment ''c'' [(''a'', 1), (''c'', 2)]) = bump ''c'' (map_of [(''a'', 1), (''c'', 2)]) \<and>
   insert_or_increment ''c'' [(''a'', 1), (''c'', 2)] = [(''a'', 1), (''c'', 3)] \<and>
   insert_or_increment ''b'' [(''a'', 1), (''c'', 2)] = [(''a'', 1), (''b'', 1), (''c'', 2)]"
proof -
  have inv: "omap_inv [(''a'', 1 :: cint), (''c'', 2)]"
    by (simp add: omap_inv_def)
  from inv insert_or_increment_refines [OF inv, of "''c''"] show ?thesis
    by (simp add: insert_or_increment_def omap_incr_at_def)
qed

end
