(* ===== verification/Text_Stats.thy ===== *)
theory Text_Stats
  imports Tokenizer Ordered_Map
begin

text \<open>
  The word statistics of \<^verbatim>\<open>src/main.cpp\<close>: the global \<^verbatim>\<open>Stats\<close> (lines 24-29), the
  \<^verbatim>\<open>Dictionary\<close> (line 31), \<^verbatim>\<open>fill_dictionary\<close> (lines 118-144), which counts the
  words of one sentence, and the part of \<^verbatim>\<open>main\<close> that runs it over the sentences
  of the text and derives the number of unique words and the highest count
  (lines 203-215). The dictionary is passed by reference and \<^verbatim>\<open>stats\<close> is a
  global, so a call takes the pair of both and returns it updated.

  Counters are \<^verbatim>\<open>int\<close>: 32-bit words here, compared through \<open>sint\<close> where the
  code compares them. The keys of \<^verbatim>\<open>sentence_len\<close> are the signed values, which
  is how \<^verbatim>\<open>std::map<int, int>\<close> orders them. The theorems that read a counter as
  a number assume a text of at most \<open>INT_MAX\<close> characters, the range in which
  no counter wraps around.
\<close>

section \<open>State\<close>

record Stats =
  words_number :: cint
  unique_words_number :: cint
  max_number :: cint
  sentence_len :: "(int, cint) omap"

definition stats_init :: Stats where
  "stats_init = \<lparr>words_number = 0, unique_words_number = 0, max_number = 0, sentence_len = []\<rparr>"

type_synonym Dictionary = "(string, cint) omap"

definition count_token :: "string \<Rightarrow> cint \<times> Dictionary \<Rightarrow> cint \<times> Dictionary" where
  "count_token t = (\<lambda>(number_of_words, dictionary).
     (number_of_words + 1, insert_or_increment t dictionary))"

definition fill_dictionary :: "string \<Rightarrow> Dictionary \<times> Stats \<Rightarrow> Dictionary \<times> Stats" where
  "fill_dictionary str = (\<lambda>(dictionary, stats).
     case fold count_token (word_tokens str) (0, dictionary) of
       (number_of_words, dictionary') \<Rightarrow>
         if 0 <s number_of_words
         then (dictionary',
               stats\<lparr>words_number := words_number stats + number_of_words,
                     sentence_len := insert_or_increment (sint number_of_words) (sentence_len stats)\<rparr>)
         else (dictionary', stats))"

definition std_max :: "cint \<Rightarrow> cint \<Rightarrow> cint" where
  "std_max a b = (if a <s b then b else a)"

definition analyse_text :: "string \<Rightarrow> Dictionary \<times> Stats \<Rightarrow> Dictionary \<times> Stats" where
  "analyse_text the_text = (\<lambda>(dictionary, stats).
     case fold fill_dictionary (sentence_tokens the_text) (dictionary, stats) of
       (dictionary', stats') \<Rightarrow>
         let stats'' = stats'\<lparr>unique_words_number := of_nat (omap_size dictionary')\<rparr>
         in (dictionary',
             stats''\<lparr>max_number :=
               fold (\<lambda>pair mx. std_max mx (snd pair)) dictionary' (max_number stats'')\<rparr>))"

definition word_counts :: "string list \<Rightarrow> nat list" where
  "word_counts ss = map (\<lambda>s. length (word_tokens s)) ss"

section \<open>One sentence\<close>

lemma fold_count_token:
  "fold count_token ws (n, d) = (n + of_nat (length ws), fold insert_or_increment ws d)"
  by (induction ws arbitrary: n d) (auto simp: count_token_def)

lemma fill_dictionary_fst:
  "fst (fill_dictionary str (d, st)) = fold insert_or_increment (word_tokens str) d"
  by (simp add: fill_dictionary_def fold_count_token)

lemma fill_dictionary_snd:
  "snd (fill_dictionary str (d, st)) =
     (let n = of_nat (length (word_tokens str)) :: cint
      in if 0 <s n
         then st\<lparr>words_number := words_number st + n,
                 sentence_len := insert_or_increment (sint n) (sentence_len st)\<rparr>
         else st)"
  by (simp add: fill_dictionary_def fold_count_token Let_def)

lemma fill_dictionary_snd_small:
  assumes "length (word_tokens str) \<le> INT_MAX"
  shows "snd (fill_dictionary str (d, st)) =
     (if word_tokens str = [] then st
      else st\<lparr>words_number := words_number st + of_nat (length (word_tokens str)),
              sentence_len := insert_or_increment (int (length (word_tokens str))) (sentence_len st)\<rparr>)"
proof (cases "word_tokens str = []")
  case True
  then show ?thesis by (simp add: fill_dictionary_snd)
next
  case False
  with assms have "(0 :: cint) <s of_nat (length (word_tokens str))"
    by (intro sless_of_nat_pos) simp_all
  with False assms show ?thesis
    by (simp add: fill_dictionary_snd Let_def sint_of_nat_small)
qed

section \<open>All sentences\<close>

lemma fold_fill_dictionary_fst:
  "fst (fold fill_dictionary ss (d, st)) = fold insert_or_increment (concat (map word_tokens ss)) d"
proof (induction ss arbitrary: d st)
  case Nil
  show ?case by simp
next
  case (Cons s ss)
  obtain d' st' where r: "fill_dictionary s (d, st) = (d', st')" by (cases "fill_dictionary s (d, st)")
  with fill_dictionary_fst [of s d st] have "d' = fold insert_or_increment (word_tokens s) d" by simp
  with Cons r show ?case by simp
qed

lemma analyse_text_fst:
  "fst (analyse_text the_text (d, st)) = fold insert_or_increment (word_tokens the_text) d"
  using fold_fill_dictionary_fst [of "sentence_tokens the_text" d st]
  by (simp add: analyse_text_def split_beta Let_def sentence_words)

lemma fold_fill_dictionary_snd:
  assumes "\<forall>s\<in>set ss. length (word_tokens s) \<le> INT_MAX"
  shows "snd (fold fill_dictionary ss (d, st)) =
     st\<lparr>words_number := words_number st + of_nat (sum_list (word_counts ss)),
         sentence_len :=
           fold insert_or_increment (map int (filter (\<lambda>n. 0 < n) (word_counts ss))) (sentence_len st)\<rparr>"
  using assms
proof (induction ss arbitrary: d st)
  case Nil
  show ?case by (simp add: word_counts_def)
next
  case (Cons s ss)
  obtain d' st' where r: "fill_dictionary s (d, st) = (d', st')" by (cases "fill_dictionary s (d, st)")
  from Cons.prems have small: "length (word_tokens s) \<le> INT_MAX" by simp
  from r fill_dictionary_snd_small [OF small, of d st]
  have st': "st' = (if word_tokens s = [] then st
      else st\<lparr>words_number := words_number st + of_nat (length (word_tokens s)),
              sentence_len := insert_or_increment (int (length (word_tokens s))) (sentence_len st)\<rparr>)"
    by simp
  from Cons.prems have "\<forall>s\<in>set ss. length (word_tokens s) \<le> INT_MAX" by simp
  from Cons.IH [OF this, of d' st'] r st' show ?case
    by (simp add: word_counts_def add.assoc)
qed

lemma sum_word_counts: "sum_list (word_counts (sentence_tokens the_text)) = length (word_tokens the_text)"
proof -
  have "sum_list (word_counts (sentence_tokens the_text)) =
      length (concat (map word_tokens (sentence_tokens the_text)))"
    by (simp add: word_counts_def length_concat comp_def)
  then show ?thesis by (simp add: sentence_words)
qed

lemma sentences_small:
  assumes "length the_text \<le> INT_MAX" and "s \<in> set (sentence_tokens the_text)"
  shows "length (word_tokens s) \<le> INT_MAX"
proof -
  have "length (word_tokens s) \<le> length s" by (simp add: word_tokens_def length_tokens_le)
  also from assms(2) have "\<dots> \<le> length the_text" by (simp add: sentence_tokens_def token_length_le)
  finally show ?thesis using assms(1) by simp
qed

section \<open>The highest count\<close>

lemma sint_std_max: "sint (std_max a b) = max (sint a) (sint b)"
  by (simp add: std_max_def word_sless_alt max_def)

lemma sint_fold_std_max:
  "sint (fold (\<lambda>pair mx. std_max mx (snd pair)) m mx0) = Max (insert (sint mx0) (sint ` snd ` set m))"
proof (induction m arbitrary: mx0)
  case Nil
  show ?case by simp
next
  case (Cons p ps)
  have "Max (insert (max (sint mx0) (sint (snd p))) (sint ` snd ` set ps)) =
      Max (insert (sint mx0) (insert (sint (snd p)) (sint ` snd ` set ps)))"
    by (rule Max_insert_max) simp
  with Cons show ?case by (simp add: sint_std_max)
qed

lemma counted_max:
  assumes "length ws \<le> INT_MAX"
  shows "sint (fold (\<lambda>pair mx. std_max mx (snd pair)) (fold insert_or_increment ws []) 0) =
     int (Max (insert 0 (count_list ws ` set ws)))"
proof -
  have le: "count_list ws w \<le> INT_MAX" for w
    using count_le_length [of ws w] assms by simp
  have "sint ` (\<lambda>w. of_nat (count_list ws w) :: cint) ` set ws = int ` count_list ws ` set ws"
    by (simp add: image_image sint_of_nat_small le)
  then have "sint (fold (\<lambda>pair mx. std_max mx (snd pair)) (fold insert_or_increment ws []) 0) =
      Max (insert 0 (int ` count_list ws ` set ws))"
    by (simp add: sint_fold_std_max counted_values)
  also have "\<dots> = Max (int ` insert 0 (count_list ws ` set ws))" by simp
  also have "\<dots> = int (Max (insert 0 (count_list ws ` set ws)))"
    by (intro mono_Max_commute [symmetric]) (auto simp: mono_def)
  finally show ?thesis .
qed

lemma analyse_text_snd:
  assumes "length the_text \<le> INT_MAX"
  shows "snd (analyse_text the_text (d, st)) =
     st\<lparr>words_number := words_number st + of_nat (length (word_tokens the_text)),
         sentence_len :=
           fold insert_or_increment
             (map int (filter (\<lambda>n. 0 < n) (word_counts (sentence_tokens the_text)))) (sentence_len st),
         unique_words_number := of_nat (omap_size (fold insert_or_increment (word_tokens the_text) d)),
         max_number :=
           fold (\<lambda>pair mx. std_max mx (snd pair)) (fold insert_or_increment (word_tokens the_text) d)
             (max_number st)\<rparr>"
proof -
  from assms have "\<forall>s\<in>set (sentence_tokens the_text). length (word_tokens s) \<le> INT_MAX"
    by (auto intro: sentences_small)
  from fold_fill_dictionary_snd [OF this, of d st]
    fold_fill_dictionary_fst [of "sentence_tokens the_text" d st]
  show ?thesis
    by (simp add: analyse_text_def split_beta Let_def sum_word_counts sentence_words)
qed

lemma analysis_numbers:
  assumes "length the_text \<le> INT_MAX"
  shows "sint (words_number (snd (analyse_text the_text ([], stats_init)))) = int (length (word_tokens the_text))"
    and "sint (unique_words_number (snd (analyse_text the_text ([], stats_init)))) = int (card (set (word_tokens the_text)))"
    and "sint (max_number (snd (analyse_text the_text ([], stats_init)))) =
      int (Max (insert 0 (count_list (word_tokens the_text) ` set (word_tokens the_text))))"
    and "sentence_len (snd (analyse_text the_text ([], stats_init))) =
      fold insert_or_increment (map int (filter (\<lambda>n. 0 < n) (word_counts (sentence_tokens the_text)))) []"
proof -
  have "length (word_tokens the_text) \<le> length the_text"
    by (simp add: word_tokens_def length_tokens_le)
  with assms have l: "length (word_tokens the_text) \<le> INT_MAX" by simp
  have "card (set (word_tokens the_text)) \<le> length (word_tokens the_text)" by (rule card_length)
  with l have c: "card (set (word_tokens the_text)) \<le> INT_MAX" by simp
  from assms l show "sint (words_number (snd (analyse_text the_text ([], stats_init)))) = int (length (word_tokens the_text))"
    by (simp add: analyse_text_snd stats_init_def sint_of_nat_small)
  from assms c show "sint (unique_words_number (snd (analyse_text the_text ([], stats_init)))) = int (card (set (word_tokens the_text)))"
    by (simp add: analyse_text_snd stats_init_def counted_size sint_of_nat_small)
  from counted_max [OF l] assms show "sint (max_number (snd (analyse_text the_text ([], stats_init)))) =
      int (Max (insert 0 (count_list (word_tokens the_text) ` set (word_tokens the_text))))"
    by (simp add: analyse_text_snd stats_init_def)
  from assms show "sentence_len (snd (analyse_text the_text ([], stats_init))) =
      fold insert_or_increment (map int (filter (\<lambda>n. 0 < n) (word_counts (sentence_tokens the_text)))) []"
    by (simp add: analyse_text_snd stats_init_def)
qed

lemmas text_stats_eval =
  analyse_text_def fill_dictionary_def count_token_def stats_init_def std_max_def
  word_sless_alt tok_simps cclass_defs omap_simps

section \<open>Properties\<close>

text \<open>
  C3. After the analysis of a text from an empty dictionary, the dictionary
  holds exactly the words of the text, each with the number of its occurrences
  (as an \<^verbatim>\<open>int\<close>), and its entries are in strictly ascending order of the words.
\<close>

theorem analyse_text_counts:
  "map_of (fst (analyse_text the_text ([], stats_init))) = counts_map (word_tokens the_text) \<and>
   omap_inv (fst (analyse_text the_text ([], stats_init)))"
  by (simp add: analyse_text_fst counted_map_of counted_inv)

text \<open>
  C7. \<^verbatim>\<open>fill_dictionary\<close> refines the counter update of the abstract map: from
  any well-formed dictionary, the new dictionary maps every word of the
  sentence to its old count plus its occurrences, leaves every other entry
  alone, and is well-formed again.
\<close>

theorem fill_dictionary_refines:
  "omap_inv d \<Longrightarrow>
   map_of (fst (fill_dictionary str (d, st))) = fold bump (word_tokens str) (map_of d) \<and>
   omap_inv (fst (fill_dictionary str (d, st)))"
  by (simp add: fill_dictionary_fst fold_insert_or_increment_map_of fold_insert_or_increment_inv)

theorem fill_dictionary_refines_witness:
  "omap_inv [(''b'', 2 :: cint)] \<and>
   map_of (fst (fill_dictionary ''a b a'' ([(''b'', 2)], stats_init))) =
     fold bump (word_tokens ''a b a'') (map_of [(''b'', 2)]) \<and>
   fst (fill_dictionary ''a b a'' ([(''b'', 2)], stats_init)) = [(''a'', 2), (''b'', 3)]"
proof -
  have inv: "omap_inv [(''b'', 2 :: cint)]" by (simp add: omap_inv_def)
  from inv fill_dictionary_refines [OF inv, of "''a b a''" stats_init] show ?thesis
    by (simp add: text_stats_eval)
qed

text \<open>
  C16. For a text of at most \<open>INT_MAX\<close> characters, \<^verbatim>\<open>stats.words_number\<close> after the
  analysis is the number of words of the whole text: the per-sentence counts
  add up without wrapping.
\<close>

theorem analyse_text_words_number:
  "length the_text \<le> INT_MAX \<Longrightarrow>
   sint (words_number (snd (analyse_text the_text ([], stats_init)))) = int (length (word_tokens the_text))"
proof -
  assume small: "length the_text \<le> INT_MAX"
  have "length (word_tokens the_text) \<le> length the_text"
    by (simp add: word_tokens_def length_tokens_le)
  with small have "length (word_tokens the_text) \<le> INT_MAX" by simp
  with small show ?thesis
    by (simp add: analyse_text_snd stats_init_def sint_of_nat_small)
qed

theorem analyse_text_words_number_witness:
  "length ''a b. a'' \<le> INT_MAX \<and>
   sint (words_number (snd (analyse_text ''a b. a'' ([], stats_init)))) = int (length (word_tokens ''a b. a'')) \<and>
   words_number (snd (analyse_text ''a b. a'' ([], stats_init))) = 3"
proof -
  have small: "length ''a b. a'' \<le> INT_MAX" by (simp add: INT_MAX_def)
  from small analyse_text_words_number [OF small] show ?thesis
    by (simp add: text_stats_eval)
qed

text \<open>
  C28. \<^verbatim>\<open>stats.unique_words_number\<close> after the analysis is the number of distinct
  words of the text, converted to \<^verbatim>\<open>int\<close>.
\<close>

theorem analyse_text_unique:
  "unique_words_number (snd (analyse_text the_text ([], stats_init))) =
     of_nat (card (set (word_tokens the_text)))"
  using fold_fill_dictionary_fst [of "sentence_tokens the_text" "[]" stats_init]
  by (simp add: analyse_text_def split_beta Let_def sentence_words counted_size)

text \<open>
  C22. For a text of at most \<open>INT_MAX\<close> characters, \<^verbatim>\<open>stats.max_number\<close> after the
  analysis is the highest number of occurrences of a word, and 0 for a text
  without words.
\<close>

theorem analyse_text_max_number:
  "length the_text \<le> INT_MAX \<Longrightarrow>
   sint (max_number (snd (analyse_text the_text ([], stats_init)))) =
     int (Max (insert 0 (count_list (word_tokens the_text) ` set (word_tokens the_text))))"
proof -
  assume small: "length the_text \<le> INT_MAX"
  have "length (word_tokens the_text) \<le> length the_text"
    by (simp add: word_tokens_def length_tokens_le)
  with small have "length (word_tokens the_text) \<le> INT_MAX" by simp
  from counted_max [OF this] small show ?thesis
    by (simp add: analyse_text_snd stats_init_def)
qed

theorem analyse_text_max_number_witness:
  "length ''a b. a'' \<le> INT_MAX \<and>
   sint (max_number (snd (analyse_text ''a b. a'' ([], stats_init)))) =
     int (Max (insert 0 (count_list (word_tokens ''a b. a'') ` set (word_tokens ''a b. a'')))) \<and>
   max_number (snd (analyse_text ''a b. a'' ([], stats_init))) = 2"
proof -
  have small: "length ''a b. a'' \<le> INT_MAX" by (simp add: INT_MAX_def)
  from small analyse_text_max_number [OF small] show ?thesis
    by (simp add: text_stats_eval)
qed

text \<open>
  C21. For a text of at most \<open>INT_MAX\<close> characters, \<^verbatim>\<open>stats.sentence_len\<close> after the
  analysis is the histogram of sentence lengths: it maps \<open>n\<close> to the number of
  sentences with exactly \<open>n\<close> words, and has no entry for sentences without
  words.
\<close>

theorem analyse_text_sentence_len:
  "length the_text \<le> INT_MAX \<Longrightarrow>
   map_of (sentence_len (snd (analyse_text the_text ([], stats_init)))) =
     counts_map (map int (filter (\<lambda>n. 0 < n) (word_counts (sentence_tokens the_text))))"
  by (simp add: analyse_text_snd stats_init_def counted_map_of)

theorem analyse_text_sentence_len_witness:
  "length ''a b. a! ,. b c'' \<le> INT_MAX \<and>
   map_of (sentence_len (snd (analyse_text ''a b. a! ,. b c'' ([], stats_init)))) =
     counts_map (map int (filter (\<lambda>n. 0 < n) (word_counts (sentence_tokens ''a b. a! ,. b c'')))) \<and>
   sentence_len (snd (analyse_text ''a b. a! ,. b c'' ([], stats_init))) = [(1, 1), (2, 2)]"
proof -
  have small: "length ''a b. a! ,. b c'' \<le> INT_MAX" by (simp add: INT_MAX_def)
  from small analyse_text_sentence_len [OF small] show ?thesis
    by (simp add: text_stats_eval)
qed

text \<open>
  C29. For a text of at most \<open>INT_MAX\<close> characters, the counts of the dictionary add
  up to \<^verbatim>\<open>stats.words_number\<close>: the total that \<^verbatim>\<open>print_dictionary\<close> would print
  and the one \<^verbatim>\<open>print_stats\<close> prints agree.
\<close>

theorem dictionary_total:
  "length the_text \<le> INT_MAX \<Longrightarrow>
   sum_list (map snd (fst (analyse_text the_text ([], stats_init)))) =
     words_number (snd (analyse_text the_text ([], stats_init)))"
  by (simp add: analyse_text_fst analyse_text_snd fold_insert_or_increment_sum stats_init_def)

theorem dictionary_total_witness:
  "length ''a b. a'' \<le> INT_MAX \<and>
   sum_list (map snd (fst (analyse_text ''a b. a'' ([], stats_init)))) =
     words_number (snd (analyse_text ''a b. a'' ([], stats_init))) \<and>
   fst (analyse_text ''a b. a'' ([], stats_init)) = [(''a'', 2), (''b'', 1)]"
proof -
  have small: "length ''a b. a'' \<le> INT_MAX" by (simp add: INT_MAX_def)
  from small dictionary_total [OF small] show ?thesis
    by (simp add: text_stats_eval)
qed

text \<open>
  C38. A sentence without words changes neither the dictionary nor the
  statistics: the guard \<^verbatim>\<open>number_of_words > 0\<close> keeps the length 0 out of
  \<^verbatim>\<open>sentence_len\<close>.
\<close>

theorem fill_dictionary_no_words:
  "word_tokens str = [] \<Longrightarrow> fill_dictionary str (d, st) = (d, st)"
  by (simp add: fill_dictionary_def)

theorem fill_dictionary_no_words_witness:
  "word_tokens '' , -'' = [] \<and>
   fill_dictionary '' , -'' ([(''b'', 2)], stats_init) = ([(''b'', 2)], stats_init)"
proof -
  have none: "word_tokens '' , -'' = []" by (simp add: tok_simps cclass_defs)
  from none fill_dictionary_no_words [OF none] show ?thesis by simp
qed

end
