(* ===== verification/Console.thy ===== *)
theory Console
  imports NGram_Prelude
begin

text \<open>
  The outside world of the program as far as \<^verbatim>\<open>src/main.cpp\<close> touches it: the two
  output streams \<^verbatim>\<open>cout\<close> and \<^verbatim>\<open>cerr\<close>, the files it opens by name, the names it
  cannot open for writing, and the ways a function can end (\<^verbatim>\<open>exit\<close> with a status,
  a normal return, or \<^verbatim>\<open>std::terminate\<close> after an exception that nothing catches). A stream is the
  sequence of the items written to it with \<^verbatim>\<open><<\<close>, one item per operand; how the
  library formats a number or an option description into characters is not
  modelled. A file that cannot be opened is a name without contents.
\<close>

section \<open>Streams\<close>

datatype out_item =
    OStr string       \<comment> \<open>a string or character literal, or a \<^verbatim>\<open>std::string\<close>\<close>
  | OInt int          \<comment> \<open>an \<^verbatim>\<open>int\<close>, by its signed value\<close>
  | OSize nat         \<comment> \<open>a \<^verbatim>\<open>size_t\<close>\<close>
  | OEndl             \<comment> \<open>\<^verbatim>\<open>std::endl\<close>\<close>
  | ODesc             \<comment> \<open>the \<^verbatim>\<open>options_description\<close> of the command line\<close>
  | OMat nat nat "cint list list"
                      \<comment> \<open>a matrix, by its dimensions and its rows in full\<close>

record World =
  cout :: "out_item list"
  cerr :: "out_item list"
  files :: "string \<rightharpoonup> string"
  unwritable :: "string set"

definition put :: "out_item list \<Rightarrow> World \<Rightarrow> World" where
  "put items w = w\<lparr>cout := cout w @ items\<rparr>"

definition put_err :: "out_item list \<Rightarrow> World \<Rightarrow> World" where
  "put_err items w = w\<lparr>cerr := cerr w @ items\<rparr>"

section \<open>Ways to end\<close>

datatype 'a outcome =
    Exit int World      \<comment> \<open>\<^verbatim>\<open>exit(status)\<close>\<close>
  | Return 'a World     \<comment> \<open>the function returned\<close>
  | Abort World         \<comment> \<open>an exception left \<^verbatim>\<open>main\<close>\<close>

definition world_of :: "'a outcome \<Rightarrow> World" where
  "world_of r = (case r of Exit _ w \<Rightarrow> w | Return _ w \<Rightarrow> w | Abort w \<Rightarrow> w)"

text \<open>The exit status of the process, if it ends with one.\<close>

definition status_of :: "int outcome \<Rightarrow> int option" where
  "status_of r = (case r of Exit n w \<Rightarrow> Some n | Return n w \<Rightarrow> Some n | Abort w \<Rightarrow> None)"

text \<open>Sequencing: what follows a call runs only when the call returned.\<close>

definition and_then :: "'a outcome \<Rightarrow> ('a \<Rightarrow> World \<Rightarrow> 'b outcome) \<Rightarrow> 'b outcome" where
  "and_then r f = (case r of Exit n w \<Rightarrow> Exit n w | Return x w \<Rightarrow> f x w | Abort w \<Rightarrow> Abort w)"

section \<open>Bytes in files\<close>

text \<open>A file holds characters; a binary stream writes and reads them as bytes.\<close>

definition char_of_byte :: "byte \<Rightarrow> char" where
  "char_of_byte b = char_of (unat b)"

definition byte_of_char :: "char \<Rightarrow> byte" where
  "byte_of_char c = of_char c"

section \<open>Reading a file\<close>

text \<open>
  \<^verbatim>\<open>read_file\<close> (lines 84-92): open the file; if that fails, complain on \<^verbatim>\<open>cerr\<close>
  and go on; assign what the stream yields, which is nothing for a stream that is
  not open.
\<close>

definition read_file :: "string \<Rightarrow> World \<Rightarrow> string \<times> World" where
  "read_file file_name w =
     (case files w file_name of
        None \<Rightarrow> ([], put_err [OStr ''can't open input file: '', OStr file_name, OEndl] w)
      | Some contents \<Rightarrow> (contents, w))"

section \<open>Facts\<close>

lemma put_simps [simp]:
  "cout (put items w) = cout w @ items"
  "cerr (put items w) = cerr w"
  "files (put items w) = files w"
  "unwritable (put items w) = unwritable w"
  by (simp_all add: put_def)

lemma put_err_simps [simp]:
  "cout (put_err items w) = cout w"
  "cerr (put_err items w) = cerr w @ items"
  "files (put_err items w) = files w"
  "unwritable (put_err items w) = unwritable w"
  by (simp_all add: put_err_def)

lemma put_put: "put ys (put xs w) = put (xs @ ys) w"
  by (simp add: put_def)

lemma put_Nil [simp]: "put [] w = w"
  by (simp add: put_def)

lemma world_of_simps [simp]:
  "world_of (Exit n w) = w"
  "world_of (Return x w) = w"
  "world_of (Abort w) = w"
  by (simp_all add: world_of_def)

lemma status_of_simps [simp]:
  "status_of (Exit n w) = Some n" "status_of (Return n w) = Some n" "status_of (Abort w) = None"
  by (simp_all add: status_of_def)

lemma and_then_simps [simp]:
  "and_then (Exit n w) f = Exit n w"
  "and_then (Return x w) f = f x w"
  "and_then (Abort w) f = Abort w"
  by (simp_all add: and_then_def)

lemma byte_of_char_of_byte [simp]: "byte_of_char (char_of_byte b) = b"
proof -
  have "unat b < 256" using unsigned_less [of b] by simp
  then have "(of_char (char_of (unat b)) :: nat) = unat b"
    by (simp add: of_char_of)
  then have "(of_nat (of_char (char_of (unat b)) :: nat) :: byte) = b"
    by simp
  then show ?thesis by (simp only: of_nat_of_char byte_of_char_def char_of_byte_def)
qed

lemma byte_of_char_comp [simp]: "byte_of_char \<circ> char_of_byte = id"
  by (simp add: fun_eq_iff)

lemma map_byte_of_char: "map byte_of_char (map char_of_byte bs) = bs"
  by simp

lemma read_file_files [simp]: "files (snd (read_file file_name w)) = files w"
  by (simp add: read_file_def split: option.splits)

lemma read_file_unwritable [simp]: "unwritable (snd (read_file file_name w)) = unwritable w"
  by (simp add: read_file_def split: option.splits)

lemma read_file_cout [simp]: "cout (snd (read_file file_name w)) = cout w"
  by (simp add: read_file_def split: option.splits)

lemma read_file_result:
  "read_file file_name w =
     (if file_name \<in> dom (files w) then (the (files w file_name), w)
      else ([], w\<lparr>cerr := cerr w @ [OStr ''can't open input file: '', OStr file_name, OEndl]\<rparr>))"
  by (auto simp: read_file_def put_err_def split: option.splits)

end
