(* ===== verification/Command_Line.thy ===== *)
theory Command_Line
  imports Console
begin

text \<open>
  \<^verbatim>\<open>Options\<close> (lines 17-22) and \<^verbatim>\<open>parse_command_line\<close> (lines 37-82) of
  \<^verbatim>\<open>src/main.cpp\<close>. The function declares six options to
  \<^verbatim>\<open>boost::program_options\<close>, lets the library parse \<^verbatim>\<open>av\<close> and store the result in a
  \<^verbatim>\<open>variables_map\<close>, and then reads four of them. The library's parser is not under
  \<^verbatim>\<open>src/\<close>; what it hands to the function is an argument of the model: either
  the \<^verbatim>\<open>variables_map\<close> (one field per declared option, with the value type of
  its declaration) or the exception that \<^verbatim>\<open>store\<close> or \<^verbatim>\<open>notify\<close> threw.
\<close>

section \<open>Data\<close>

record Options =
  dim :: cint
  input :: string
  matrix :: string
  print_chains :: bool

definition options_init :: Options where
  "options_init = \<lparr>dim = 2, input = [], matrix = [], print_chains = False\<rparr>"

text \<open>The options of lines 42-49, as \<^verbatim>\<open>vm.count(name)\<close> and \<^verbatim>\<open>vm[name].as<T>()\<close> see them.\<close>

record variables_map =
  vm_help :: bool
  vm_dim :: "cint option"
  vm_input :: "string option"
  vm_matrix :: "string option"
  vm_print_matrix :: bool
  vm_print_chains :: bool

datatype parse_result =
    Parsed variables_map
  | Std_Exception string    \<comment> \<open>an exception derived from \<^verbatim>\<open>std::exception\<close>, with \<^verbatim>\<open>what()\<close>\<close>
  | Other_Exception         \<comment> \<open>anything else that was thrown\<close>

section \<open>The function\<close>

definition parse_command_line :: "int \<Rightarrow> parse_result \<Rightarrow> Options \<Rightarrow> World \<Rightarrow> Options outcome" where
  "parse_command_line ac parsed options w =
     (case parsed of
        Parsed vm \<Rightarrow>
          if ac = 1 \<or> vm_help vm then Exit 0 (put [ODesc, OEndl] w)
          else
            let options1 = (if vm_print_chains vm then options\<lparr>print_chains := True\<rparr> else options);
                options2 = (case vm_input vm of
                              Some s \<Rightarrow> options1\<lparr>input := s\<rparr> | None \<Rightarrow> options1);
                options3 = (case vm_dim vm of
                              Some d \<Rightarrow> options2\<lparr>dim := d\<rparr> | None \<Rightarrow> options2)
            in Return options3 (put [OStr ''Dimension of the matrix = '', OInt (sint (dim options3)), OEndl] w)
      | Std_Exception what \<Rightarrow> Exit 1 (put_err [OStr ''error: '', OStr what, OEndl] w)
      | Other_Exception \<Rightarrow> Return options (put_err [OStr ''Exception of unknown type!\<newline>''] w))"

section \<open>What a call does\<close>

lemma parse_help:
  "ac = 1 \<or> vm_help vm \<Longrightarrow>
   parse_command_line ac (Parsed vm) options w = Exit 0 (put [ODesc, OEndl] w)"
  by (simp add: parse_command_line_def)

lemma parse_exception:
  "parse_command_line ac (Std_Exception what) options w =
     Exit 1 (put_err [OStr ''error: '', OStr what, OEndl] w)"
  by (simp add: parse_command_line_def)

lemma parse_returns:
  assumes "ac \<noteq> 1" and "\<not> vm_help vm"
  shows "parse_command_line ac (Parsed vm) options w =
     Return
       (options\<lparr>print_chains := print_chains options \<or> vm_print_chains vm,
                input := (case vm_input vm of Some s \<Rightarrow> s | None \<Rightarrow> input options),
                dim := (case vm_dim vm of Some d \<Rightarrow> d | None \<Rightarrow> dim options)\<rparr>)
       (put [OStr ''Dimension of the matrix = '',
             OInt (sint (case vm_dim vm of Some d \<Rightarrow> d | None \<Rightarrow> dim options)), OEndl] w)"
  using assms by (simp add: parse_command_line_def Let_def split: option.splits)

lemma parse_files [simp]: "files (world_of (parse_command_line ac parsed options w)) = files w"
  by (simp add: parse_command_line_def Let_def split: parse_result.splits option.splits)

section \<open>Properties\<close>

text \<open>
  C27. A call that returns leaves \<^verbatim>\<open>options.matrix\<close> as it was, whatever the command
  line says: the option \<^verbatim>\<open>--matrix\<close> is declared and parsed, but its value is
  never copied into \<^verbatim>\<open>Options\<close>, and neither \<^verbatim>\<open>--matrix\<close> nor \<^verbatim>\<open>--print_matrix\<close>
  changes any field or any output of the call.
\<close>

theorem parse_ignores_matrix:
  "parse_command_line ac (Parsed (vm\<lparr>vm_matrix := some_path, vm_print_matrix := flag\<rparr>)) options w =
     parse_command_line ac (Parsed vm) options w \<and>
   (case parse_command_line ac parsed options w of
      Return options' w' \<Rightarrow> matrix options' = matrix options
    | Exit status w' \<Rightarrow> True
    | Abort w' \<Rightarrow> False)"
  by (simp add: parse_command_line_def Let_def split: parse_result.splits option.splits)

text \<open>
  C31. The ways a call ends, each with its exact condition: status 0 after the
  option description when there is no argument (\<^verbatim>\<open>ac == 1\<close>) or \<^verbatim>\<open>--help\<close> was
  given; status 1 after the message of a \<^verbatim>\<open>std::exception\<close>; a return after a
  parse with arguments and without \<^verbatim>\<open>--help\<close>, and also after an exception of
  unknown type, which is reported on \<^verbatim>\<open>cerr\<close> and swallowed, so that the caller
  goes on with the options it passed in. No exception leaves the function.
\<close>

theorem parse_command_line_ends:
  "(\<exists>w'. parse_command_line ac parsed options w = Exit 0 w') =
     (\<exists>vm. parsed = Parsed vm \<and> (ac = 1 \<or> vm_help vm)) \<and>
   (\<exists>w'. parse_command_line ac parsed options w = Exit 1 w') = (\<exists>what. parsed = Std_Exception what) \<and>
   (\<exists>options' w'. parse_command_line ac parsed options w = Return options' w') =
     (parsed = Other_Exception \<or> (\<exists>vm. parsed = Parsed vm \<and> ac \<noteq> 1 \<and> \<not> vm_help vm)) \<and>
   (parsed = Other_Exception \<longrightarrow>
      parse_command_line ac parsed options w =
        Return options (put_err [OStr ''Exception of unknown type!\<newline>''] w)) \<and>
   (\<forall>status w'. parse_command_line ac parsed options w = Exit status w' \<longrightarrow> status = 0 \<or> status = 1) \<and>
   (\<forall>w'. parse_command_line ac parsed options w \<noteq> Abort w')"
  by (cases parsed) (auto simp: parse_command_line_def Let_def)

theorem parse_command_line_ends_witness:
  "parse_command_line 2 Other_Exception options_init
     \<lparr>cout = [], cerr = [], files = Map.empty, unwritable = {}\<rparr> =
   Return options_init
     \<lparr>cout = [], cerr = [OStr ''Exception of unknown type!\<newline>''], files = Map.empty, unwritable = {}\<rparr>"
  using parse_command_line_ends [of 2 Other_Exception options_init
       "\<lparr>cout = [], cerr = [], files = Map.empty, unwritable = {}\<rparr>"]
  by (simp add: put_err_def)

text \<open>
  A call that returns after a successful parse has copied exactly the given
  options: \<^verbatim>\<open>print_chains\<close> is set when its flag was given, \<^verbatim>\<open>input\<close> and \<^verbatim>\<open>dim\<close>
  take the given values and keep their old ones otherwise, and the dimension
  printed is the one stored.
\<close>

lemma parse_command_line_returns:
  "ac \<noteq> 1 \<Longrightarrow> \<not> vm_help vm \<Longrightarrow>
   \<exists>options'. parse_command_line ac (Parsed vm) options w =
       Return options' (put [OStr ''Dimension of the matrix = '', OInt (sint (dim options')), OEndl] w) \<and>
     print_chains options' = (print_chains options \<or> vm_print_chains vm) \<and>
     input options' = (case vm_input vm of Some s \<Rightarrow> s | None \<Rightarrow> input options) \<and>
     dim options' = (case vm_dim vm of Some d \<Rightarrow> d | None \<Rightarrow> dim options) \<and>
     matrix options' = matrix options"
  by (simp add: parse_returns)

lemma parse_command_line_returns_example:
  "(2 :: int) \<noteq> 1 \<and>
   (\<exists>options'. parse_command_line 2 (Parsed \<lparr>vm_help = False, vm_dim = None, vm_input = None,
         vm_matrix = Some ''m.bin'', vm_print_matrix = True, vm_print_chains = True\<rparr>) options_init
         \<lparr>cout = [], cerr = [], files = Map.empty, unwritable = {}\<rparr> =
       Return options' \<lparr>cout = [OStr ''Dimension of the matrix = '', OInt 2, OEndl], cerr = [],
         files = Map.empty, unwritable = {}\<rparr> \<and>
     print_chains options' \<and> input options' = [] \<and> dim options' = 2 \<and> matrix options' = [])"
  using parse_command_line_returns [of 2 "\<lparr>vm_help = False, vm_dim = None, vm_input = None,
         vm_matrix = Some ''m.bin'', vm_print_matrix = True, vm_print_chains = True\<rparr>" options_init
         "\<lparr>cout = [], cerr = [], files = Map.empty, unwritable = {}\<rparr>"]
  by (auto simp: options_init_def put_def)

end
