(* ===== verification/Printing.thy ===== *)
theory Printing
  imports Text_Stats Console
begin

text \<open>
  The three printing functions of \<^verbatim>\<open>src/main.cpp\<close>: \<^verbatim>\<open>print_dictionary\<close> (lines
  108-116), \<^verbatim>\<open>print_stats\<close> (lines 146-163), which reads the global \<^verbatim>\<open>stats\<close>, and
  \<^verbatim>\<open>show_array\<close> (lines 178-184). Each loop is a \<open>fold\<close> of its body over the
  container in iteration order; the theorems give the output in closed form.
\<close>

section \<open>The functions\<close>

definition print_entry :: "string \<times> cint \<Rightarrow> cint \<times> World \<Rightarrow> cint \<times> World" where
  "print_entry p = (\<lambda>(word_num, w).
     (word_num + snd p, put [OStr (fst p), OStr '' '', OInt (sint (snd p)), OEndl] w))"

definition print_dictionary :: "Dictionary \<Rightarrow> World \<Rightarrow> World" where
  "print_dictionary dictionary w =
     (case fold print_entry dictionary (0, w) of
        (word_num, w') \<Rightarrow>
          put [OStr ''Total words: '', OInt (sint word_num), OEndl]
            (put [OStr ''Unique words: '', OSize (omap_size dictionary), OEndl] w'))"

definition print_length :: "int \<times> cint \<Rightarrow> World \<Rightarrow> World" where
  "print_length t w = put [OInt (fst t), OStr '' : '', OInt (sint (snd t)), OEndl] w"

definition print_stats :: "Stats \<Rightarrow> World \<Rightarrow> World" where
  "print_stats stats w =
     fold print_length (sentence_len stats)
       (put [OStr ''Statistics:'', OEndl,
             OInt (sint (words_number stats)), OStr '': Number of all words in the text'', OEndl,
             OInt (sint (unique_words_number stats)), OStr '': Number of unique words in the text'', OEndl,
             OInt (sint (max_number stats)),
             OStr '': Max number of one unique word found in the analysed text'', OEndl, OEndl,
             OStr ''Number of words in sentences depending of sentence length: <words : sentences>'',
             OEndl] w)"

definition show_element :: "cint \<Rightarrow> World \<Rightarrow> World" where
  "show_element element w = put [OInt (sint element), OStr '' ''] w"

definition show_array :: "cint list \<Rightarrow> World \<Rightarrow> World" where
  "show_array a w = put [OEndl] (fold show_element a w)"

section \<open>Loops in closed form\<close>

definition entry_line :: "string \<times> cint \<Rightarrow> out_item list" where
  "entry_line p = [OStr (fst p), OStr '' '', OInt (sint (snd p)), OEndl]"

definition length_line :: "int \<times> cint \<Rightarrow> out_item list" where
  "length_line t = [OInt (fst t), OStr '' : '', OInt (sint (snd t)), OEndl]"

definition stats_lines :: "int \<Rightarrow> int \<Rightarrow> int \<Rightarrow> out_item list" where
  "stats_lines all_words unique_words max_count =
     [OStr ''Statistics:'', OEndl,
      OInt all_words, OStr '': Number of all words in the text'', OEndl,
      OInt unique_words, OStr '': Number of unique words in the text'', OEndl,
      OInt max_count,
      OStr '': Max number of one unique word found in the analysed text'', OEndl, OEndl,
      OStr ''Number of words in sentences depending of sentence length: <words : sentences>'',
      OEndl]"

lemma fold_put: "fold (\<lambda>x. put (f x)) xs w = put (concat (map f xs)) w"
  by (induction xs arbitrary: w) (simp_all add: put_put)

lemma fold_print_entry:
  "fold print_entry d (n, w) = (n + sum_list (map snd d), put (concat (map entry_line d)) w)"
  by (induction d arbitrary: n w) (simp_all add: print_entry_def entry_line_def put_put add.assoc)

lemma fold_print_length: "fold print_length ls w = put (concat (map length_line ls)) w"
  by (induction ls arbitrary: w) (simp_all add: print_length_def length_line_def put_put)

lemma fold_show_element:
  "fold show_element a w = put (concat (map (\<lambda>e. [OInt (sint e), OStr '' '']) a)) w"
  by (induction a arbitrary: w) (simp_all add: show_element_def put_put)

lemma print_frame [simp]:
  "cerr (print_dictionary d w) = cerr w" "files (print_dictionary d w) = files w"
  "cerr (print_stats st w) = cerr w" "files (print_stats st w) = files w"
  "cerr (show_array a w) = cerr w" "files (show_array a w) = files w"
  "unwritable (print_dictionary d w) = unwritable w" "unwritable (print_stats st w) = unwritable w"
  "unwritable (show_array a w) = unwritable w"
  by (simp_all add: print_dictionary_def print_stats_def show_array_def
      fold_print_entry fold_print_length fold_show_element)

section \<open>What is written\<close>

text \<open>
  \<^verbatim>\<open>print_dictionary\<close> writes one line per entry in the order of the map, then
  the number of entries, then the sum of all counts (in \<^verbatim>\<open>int\<close> arithmetic), and
  nothing else.
\<close>

lemma print_dictionary_output:
  "cout (print_dictionary d w) =
     cout w @ concat (map entry_line d) @
     [OStr ''Unique words: '', OSize (length d), OEndl,
      OStr ''Total words: '', OInt (sint (sum_list (map snd d))), OEndl]"
  by (simp add: print_dictionary_def fold_print_entry omap_size_def)

text \<open>
  \<^verbatim>\<open>print_stats\<close> writes the header with the three counters and then one line
  per entry of \<^verbatim>\<open>sentence_len\<close>, in ascending order of the sentence length.
\<close>

lemma print_stats_output:
  "cout (print_stats st w) =
     cout w @
     [OStr ''Statistics:'', OEndl,
      OInt (sint (words_number st)), OStr '': Number of all words in the text'', OEndl,
      OInt (sint (unique_words_number st)), OStr '': Number of unique words in the text'', OEndl,
      OInt (sint (max_number st)),
      OStr '': Max number of one unique word found in the analysed text'', OEndl, OEndl,
      OStr ''Number of words in sentences depending of sentence length: <words : sentences>'',
      OEndl] @
     concat (map length_line (sentence_len st))"
  by (simp add: print_stats_def fold_print_length)

text \<open>
  \<^verbatim>\<open>show_array\<close> writes every element of the array followed by a blank, in
  order, and ends the line.
\<close>

lemma show_array_output:
  "cout (show_array a w) = cout w @ concat (map (\<lambda>e. [OInt (sint e), OStr '' '']) a) @ [OEndl]"
  by (simp add: show_array_def fold_show_element)

lemma print_stats_lines:
  "cout (print_stats st w) =
     cout w @ stats_lines (sint (words_number st)) (sint (unique_words_number st)) (sint (max_number st)) @
     concat (map length_line (sentence_len st))"
  by (simp add: print_stats_output stats_lines_def)

end
