(* ===== verification/Sparse_Matrix.thy ===== *)
theory Sparse_Matrix
  imports NGram_Prelude
begin

text \<open>
  The sparse matrix that \<^verbatim>\<open>src/main.cpp\<close> names \<^verbatim>\<open>Matrix\<close> (line 32, a
  \<^verbatim>\<open>ublas::compressed_matrix<int>\<close>). Its implementation is not under \<^verbatim>\<open>src/\<close>; the
  data layout and the operations follow the specification of the repository
  (sections 3 and 4.1): the values of the stored entries, their column indices,
  and for every row the offset at which its entries begin, with one more offset
  for the end. \<^verbatim>\<open>Set\<close> and \<^verbatim>\<open>Get\<close> take signed indices, so that a negative index is
  an input the bounds check refuses; values are \<^verbatim>\<open>int\<close>, 32-bit words.
  The arrays here hold the stored entries only; the spare elements that the
  arrays of the library have beyond them are in theory \<open>Matrix_Storage\<close>.

  \<open>set_elem\<close> looks the column up in the span of its row and then does one of
  three things: overwrite the value in place (also with zero), nothing (a zero
  for an absent entry), or splice a new entry into the two arrays and move the
  offsets of all later rows (\<open>insert_entry\<close>).

  The abstract view of a matrix is \<open>dense\<close>, the function from row and column
  to value; \<open>entry\<close> tells a stored zero from an absent entry. \<open>wf_matrix\<close> is
  the invariant of section 3 of the specification without its clause that every
  stored value is nonzero: writing zero over an entry keeps the entry, as section
  4.1 demands, so that clause is not an invariant of the operations.
\<close>

section \<open>Errors\<close>

datatype error = InvalidDimension | IndexOutOfBounds | TruncatedInput | MalformedInput | IOFailure

record Matrix =
  rows :: nat
  cols :: nat
  stored_values :: "cint list"
  col_index :: "nat list"
  row_start :: "nat list"

section \<open>Operations\<close>

definition construct :: "int \<Rightarrow> int \<Rightarrow> error + Matrix" where
  "construct r c =
     (if r \<le> 0 \<or> c \<le> 0 then Inl InvalidDimension
      else Inr \<lparr>rows = nat r, cols = nat c, stored_values = [], col_index = [],
                row_start = replicate (Suc (nat r)) 0\<rparr>)"

definition in_bounds :: "Matrix \<Rightarrow> int \<Rightarrow> int \<Rightarrow> bool" where
  "in_bounds m row col \<longleftrightarrow> 0 \<le> row \<and> row < int (rows m) \<and> 0 \<le> col \<and> col < int (cols m)"

definition row_pos :: "nat \<Rightarrow> nat list \<Rightarrow> nat" where
  "row_pos c cs = length (takeWhile (\<lambda>x. x < c) cs)"

definition find_pos :: "nat list \<Rightarrow> nat \<Rightarrow> nat \<Rightarrow> nat \<Rightarrow> nat" where
  "find_pos ci lo hi c = lo + length (takeWhile (\<lambda>x. x < c) (slice ci lo hi))"

definition bump_from :: "nat \<Rightarrow> nat list \<Rightarrow> nat list" where
  "bump_from k rs = take k rs @ map Suc (drop k rs)"

definition overwrite_at :: "nat \<Rightarrow> cint \<Rightarrow> Matrix \<Rightarrow> Matrix" where
  "overwrite_at p v m = m\<lparr>stored_values := (stored_values m)[p := v]\<rparr>"

definition insert_entry :: "nat \<Rightarrow> nat \<Rightarrow> nat \<Rightarrow> cint \<Rightarrow> Matrix \<Rightarrow> Matrix" where
  "insert_entry r p c v m =
     m\<lparr>stored_values := insert_at p v (stored_values m),
       col_index := insert_at p c (col_index m),
       row_start := bump_from (Suc r) (row_start m)\<rparr>"

definition set_elem :: "int \<Rightarrow> int \<Rightarrow> cint \<Rightarrow> Matrix \<Rightarrow> error + Matrix" where
  "set_elem row col v m =
     (if \<not> in_bounds m row col then Inl IndexOutOfBounds
      else
        let r = nat row; c = nat col;
            lo = row_start m ! r; hi = row_start m ! Suc r;
            p = find_pos (col_index m) lo hi c
        in if p < hi \<and> col_index m ! p = c then Inr (overwrite_at p v m)
           else if v = 0 then Inr m
           else Inr (insert_entry r p c v m))"

definition get_elem :: "int \<Rightarrow> int \<Rightarrow> Matrix \<Rightarrow> error + cint" where
  "get_elem row col m =
     (if \<not> in_bounds m row col then Inl IndexOutOfBounds
      else
        let r = nat row; c = nat col;
            lo = row_start m ! r; hi = row_start m ! Suc r;
            p = find_pos (col_index m) lo hi c
        in Inr (if p < hi \<and> col_index m ! p = c then stored_values m ! p else 0))"

definition value_array :: "Matrix \<Rightarrow> cint list" where
  "value_array m = stored_values m"

fun set_all :: "(int \<times> int \<times> cint) list \<Rightarrow> Matrix \<Rightarrow> error + Matrix" where
  "set_all [] m = Inr m"
| "set_all ((row, col, v) # ws) m =
     (case set_elem row col v m of Inl e \<Rightarrow> Inl e | Inr m' \<Rightarrow> set_all ws m')"

section \<open>Rows, invariant and abstraction\<close>

definition row_cols :: "Matrix \<Rightarrow> nat \<Rightarrow> nat list" where
  "row_cols m r = slice (col_index m) (row_start m ! r) (row_start m ! Suc r)"

definition row_vals :: "Matrix \<Rightarrow> nat \<Rightarrow> cint list" where
  "row_vals m r = slice (stored_values m) (row_start m ! r) (row_start m ! Suc r)"

definition wf_matrix :: "Matrix \<Rightarrow> bool" where
  "wf_matrix m \<longleftrightarrow>
     0 < rows m \<and> 0 < cols m \<and>
     length (row_start m) = Suc (rows m) \<and> sorted (row_start m) \<and>
     row_start m ! 0 = 0 \<and> row_start m ! rows m = length (stored_values m) \<and>
     length (col_index m) = length (stored_values m) \<and>
     list_all (\<lambda>r. sorted_wrt (<) (row_cols m r)) [0..<rows m] \<and>
     list_all (\<lambda>c. c < cols m) (col_index m)"

definition entry :: "Matrix \<Rightarrow> nat \<Rightarrow> nat \<Rightarrow> cint option" where
  "entry m r c = (if r < rows m then map_of (zip (row_cols m r) (row_vals m r)) c else None)"

definition pos_of :: "Matrix \<Rightarrow> nat \<Rightarrow> nat \<Rightarrow> nat" where
  "pos_of m r c = row_start m ! r + row_pos c (row_cols m r)"

definition dense :: "Matrix \<Rightarrow> nat \<Rightarrow> nat \<Rightarrow> cint" where
  "dense m r c = (case entry m r c of None \<Rightarrow> 0 | Some v \<Rightarrow> v)"

text \<open>A matrix of two rows and three columns with the entries \<open>(0,0) = 5\<close> and \<open>(1,2) = 6\<close>.\<close>

definition demo_matrix :: Matrix where
  "demo_matrix = \<lparr>rows = 2, cols = 3, stored_values = [5, 6], col_index = [0, 2], row_start = [0, 1, 2]\<rparr>"

lemmas [csr_defs] =
  construct_def set_elem_def get_elem_def overwrite_at_def insert_entry_def in_bounds_def
  find_pos_def row_pos_def slice_def insert_at_def bump_from_def value_array_def

lemmas csr_abs_defs =
  wf_matrix_def dense_def entry_def row_cols_def row_vals_def slice_def upt_conv_Cons

section \<open>Offsets\<close>

lemma length_bump_from [simp]: "length (bump_from k rs) = length rs"
  by (simp add: bump_from_def)

lemma nth_bump_from:
  "i < length rs \<Longrightarrow> bump_from k rs ! i = (if k \<le> i then Suc (rs ! i) else rs ! i)"
  by (auto simp: bump_from_def nth_append min_def)

lemma sorted_bump_from: "sorted rs \<Longrightarrow> sorted (bump_from k rs)"
  unfolding sorted_iff_nth_mono
proof (intro allI impI)
  fix i j
  assume mono: "\<forall>i j. i \<le> j \<longrightarrow> j < length rs \<longrightarrow> rs ! i \<le> rs ! j"
    and "i \<le> j" and "j < length (bump_from k rs)"
  then have "rs ! i \<le> rs ! j" and "i < length rs" and "j < length rs" by auto
  with \<open>i \<le> j\<close> show "bump_from k rs ! i \<le> bump_from k rs ! j"
    by (auto simp: nth_bump_from)
qed

section \<open>One row\<close>

lemma row_pos_Nil [simp]: "row_pos c [] = 0"
  by (simp add: row_pos_def)

lemma row_pos_Cons [simp]: "row_pos c (a # cs) = (if a < c then Suc (row_pos c cs) else 0)"
  by (simp add: row_pos_def)

lemma row_pos_le: "row_pos c cs \<le> length cs"
  by (simp add: row_pos_def length_takeWhile_le)

lemma row_pos_found:
  "sorted_wrt (<) cs \<Longrightarrow> (row_pos c cs < length cs \<and> cs ! row_pos c cs = c) \<longleftrightarrow> c \<in> set cs"
  by (induction cs) (auto simp: not_less)

lemma row_insert_sorted:
  "sorted_wrt (<) cs \<Longrightarrow> c \<notin> set cs \<Longrightarrow> sorted_wrt (<) (insert_at (row_pos c cs) c cs)"
  by (induction cs) (auto simp: set_insert_at row_pos_le not_less)

lemma row_lookup:
  "length vs = length cs \<Longrightarrow> sorted_wrt (<) cs \<Longrightarrow>
   map_of (zip cs vs) c = (if c \<in> set cs then Some (vs ! row_pos c cs) else None)"
  by (induction cs vs rule: list_induct2') (auto simp: not_less)

lemma row_overwrite:
  "length vs = length cs \<Longrightarrow> sorted_wrt (<) cs \<Longrightarrow> c \<in> set cs \<Longrightarrow>
   map_of (zip cs (vs[row_pos c cs := v])) = (map_of (zip cs vs))(c \<mapsto> v)"
  by (induction cs vs rule: list_induct2') (auto simp: not_less fun_eq_iff)

lemma row_insert:
  "length vs = length cs \<Longrightarrow> sorted_wrt (<) cs \<Longrightarrow> c \<notin> set cs \<Longrightarrow>
   map_of (zip (insert_at (row_pos c cs) c cs) (insert_at (row_pos c cs) v vs)) =
     (map_of (zip cs vs))(c \<mapsto> v)"
  by (induction cs vs rule: list_induct2') (auto simp: not_less fun_eq_iff)

section \<open>The invariant, unpacked\<close>

lemma wf_matrix_iff:
  "wf_matrix m \<longleftrightarrow>
     0 < rows m \<and> 0 < cols m \<and>
     length (row_start m) = Suc (rows m) \<and> sorted (row_start m) \<and>
     row_start m ! 0 = 0 \<and> row_start m ! rows m = length (stored_values m) \<and>
     length (col_index m) = length (stored_values m) \<and>
     (\<forall>r<rows m. sorted_wrt (<) (row_cols m r)) \<and>
     (\<forall>c\<in>set (col_index m). c < cols m)"
  by (auto simp: wf_matrix_def list_all_iff)

lemma wf_span:
  assumes "wf_matrix m" and "r < rows m"
  shows "row_start m ! r \<le> row_start m ! Suc r"
    and "row_start m ! Suc r \<le> length (stored_values m)"
    and "row_start m ! Suc r \<le> length (col_index m)"
proof -
  from assms have srt: "sorted (row_start m)" and len: "length (row_start m) = Suc (rows m)"
    and last: "row_start m ! rows m = length (stored_values m)"
    and ci: "length (col_index m) = length (stored_values m)"
    by (simp_all add: wf_matrix_iff)
  from srt len assms(2) show "row_start m ! r \<le> row_start m ! Suc r"
    by (simp add: sorted_iff_nth_mono)
  from srt len assms(2) have "row_start m ! Suc r \<le> row_start m ! rows m"
    by (simp add: sorted_iff_nth_mono)
  with last ci show "row_start m ! Suc r \<le> length (stored_values m)"
    and "row_start m ! Suc r \<le> length (col_index m)" by simp_all
qed

lemma wf_span_mono:
  assumes "wf_matrix m" and "r' < r" and "r < rows m"
  shows "row_start m ! Suc r' \<le> row_start m ! r"
  using assms by (simp add: wf_matrix_iff sorted_iff_nth_mono)

lemma wf_row_lengths:
  assumes "wf_matrix m" and "r < rows m"
  shows "length (row_cols m r) = row_start m ! Suc r - row_start m ! r"
    and "length (row_vals m r) = row_start m ! Suc r - row_start m ! r"
  using wf_span [OF assms] by (simp_all add: row_cols_def row_vals_def length_slice_le)

lemma wf_row_sorted: "wf_matrix m \<Longrightarrow> r < rows m \<Longrightarrow> sorted_wrt (<) (row_cols m r)"
  by (simp add: wf_matrix_iff)

lemma find_pos_row: "find_pos (col_index m) (row_start m ! r) (row_start m ! Suc r) c =
    row_start m ! r + row_pos c (row_cols m r)"
  by (simp add: find_pos_def row_pos_def row_cols_def)

lemma found_iff:
  assumes "wf_matrix m" and "r < rows m"
    and p: "p = row_start m ! r + row_pos c (row_cols m r)"
  shows "(p < row_start m ! Suc r \<and> col_index m ! p = c) \<longleftrightarrow> c \<in> set (row_cols m r)"
proof -
  let ?lo = "row_start m ! r" and ?hi = "row_start m ! Suc r" and ?cs = "row_cols m r"
  from assms have len: "length ?cs = ?hi - ?lo" and le: "?lo \<le> ?hi" "?hi \<le> length (col_index m)"
    by (simp_all add: wf_row_lengths wf_span)
  have nth: "?cs ! i = col_index m ! (?lo + i)" if "i < length ?cs" for i
    using that len le by (simp add: row_cols_def nth_slice)
  have "(p < ?hi \<and> col_index m ! p = c) \<longleftrightarrow> (row_pos c ?cs < length ?cs \<and> ?cs ! row_pos c ?cs = c)"
    using len le nth [of "row_pos c ?cs"] by (auto simp: p)
  also have "\<dots> \<longleftrightarrow> c \<in> set ?cs"
    using assms by (intro row_pos_found wf_row_sorted)
  finally show ?thesis .
qed

section \<open>Set and Get by rows\<close>

lemma set_elem_rows:
  assumes "wf_matrix m" and "in_bounds m row col"
  shows "set_elem row col v m =
     Inr (if nat col \<in> set (row_cols m (nat row)) then overwrite_at (pos_of m (nat row) (nat col)) v m
          else if v = 0 then m
          else insert_entry (nat row) (pos_of m (nat row) (nat col)) (nat col) v m)"
proof -
  from assms(2) have r: "nat row < rows m" by (auto simp: in_bounds_def)
  from found_iff [OF assms(1) r, of "pos_of m (nat row) (nat col)" "nat col"] assms(2)
  show ?thesis by (simp add: set_elem_def Let_def find_pos_row pos_of_def)
qed

lemma get_elem_rows:
  assumes "wf_matrix m" and "in_bounds m row col"
  shows "get_elem row col m =
     Inr (case entry m (nat row) (nat col) of None \<Rightarrow> 0 | Some v \<Rightarrow> v)"
proof -
  let ?r = "nat row" and ?c = "nat col"
  let ?cs = "row_cols m ?r" and ?vs = "row_vals m ?r"
  from assms(2) have r: "?r < rows m" by (auto simp: in_bounds_def)
  note len = wf_row_lengths [OF assms(1) r] and span = wf_span [OF assms(1) r]
  have look: "map_of (zip ?cs ?vs) ?c = (if ?c \<in> set ?cs then Some (?vs ! row_pos ?c ?cs) else None)"
    using len wf_row_sorted [OF assms(1) r] by (intro row_lookup) simp
  have "?vs ! row_pos ?c ?cs = stored_values m ! pos_of m ?r ?c" if "?c \<in> set ?cs"
  proof -
    from that wf_row_sorted [OF assms(1) r] have "row_pos ?c ?cs < length ?cs"
      using row_pos_found [of ?cs ?c] by simp
    with len span show ?thesis by (simp add: row_vals_def nth_slice pos_of_def)
  qed
  with found_iff [OF assms(1) r, of "pos_of m ?r ?c" ?c] assms(2) look r show ?thesis
    by (simp add: get_elem_def Let_def find_pos_row pos_of_def entry_def)
qed

section \<open>The rows after a write\<close>

lemma pos_of_bounds:
  assumes "wf_matrix m" and "r < rows m"
  shows "row_start m ! r \<le> pos_of m r c" and "pos_of m r c \<le> row_start m ! Suc r"
    and "pos_of m r c \<le> length (stored_values m)" and "pos_of m r c \<le> length (col_index m)"
proof -
  have "row_pos c (row_cols m r) \<le> length (row_cols m r)" by (rule row_pos_le)
  with wf_row_lengths(1) [OF assms] wf_span [OF assms]
  show "row_start m ! r \<le> pos_of m r c" and "pos_of m r c \<le> row_start m ! Suc r"
    and "pos_of m r c \<le> length (stored_values m)" and "pos_of m r c \<le> length (col_index m)"
    by (simp_all add: pos_of_def)
qed

lemma pos_of_found:
  assumes "wf_matrix m" and "r < rows m" and "c \<in> set (row_cols m r)"
  shows "pos_of m r c < row_start m ! Suc r"
  using found_iff [OF assms(1,2), of "pos_of m r c" c] assms(3) by (simp add: pos_of_def)

lemma overwrite_rows:
  assumes "wf_matrix m" and "r < rows m" and "c \<in> set (row_cols m r)" and "r' < rows m"
  shows "row_cols (overwrite_at (pos_of m r c) v m) r' = row_cols m r'"
    and "row_vals (overwrite_at (pos_of m r c) v m) r' =
      (if r' = r then (row_vals m r)[row_pos c (row_cols m r) := v] else row_vals m r')"
proof -
  show "row_cols (overwrite_at (pos_of m r c) v m) r' = row_cols m r'"
    by (simp add: row_cols_def overwrite_at_def)
  note lo = pos_of_bounds(1) [OF assms(1,2), of c] and hi = pos_of_found [OF assms(1-3)]
  consider "r' < r" | "r' = r" | "r < r'" by (rule linorder_cases)
  then show "row_vals (overwrite_at (pos_of m r c) v m) r' =
      (if r' = r then (row_vals m r)[row_pos c (row_cols m r) := v] else row_vals m r')"
  proof cases
    case 1
    with wf_span_mono [OF assms(1) 1 assms(2)] lo show ?thesis
      by (simp add: row_vals_def overwrite_at_def slice_update)
  next
    case 2
    with lo hi show ?thesis
      by (simp add: row_vals_def overwrite_at_def slice_update pos_of_def)
  next
    case 3
    with wf_span_mono [OF assms(1) 3 assms(4)] hi show ?thesis
      by (simp add: row_vals_def overwrite_at_def slice_update)
  qed
qed

lemma insert_rows:
  assumes "wf_matrix m" and "r < rows m" and "r' < rows m"
  shows "row_cols (insert_entry r (pos_of m r c) c v m) r' =
      (if r' = r then insert_at (row_pos c (row_cols m r)) c (row_cols m r) else row_cols m r')"
    and "row_vals (insert_entry r (pos_of m r c) c v m) r' =
      (if r' = r then insert_at (row_pos c (row_cols m r)) v (row_vals m r) else row_vals m r')"
proof -
  note b = pos_of_bounds [OF assms(1,2), of c]
  from assms have len: "r' < length (row_start m)" "Suc r' < length (row_start m)"
    by (simp_all add: wf_matrix_iff)
  note sp = wf_span [OF assms(1,2)]
  consider "r' < r" | "r' = r" | "r < r'" by (rule linorder_cases)
  then have "row_cols (insert_entry r (pos_of m r c) c v m) r' =
      (if r' = r then insert_at (row_pos c (row_cols m r)) c (row_cols m r) else row_cols m r') \<and>
    row_vals (insert_entry r (pos_of m r c) c v m) r' =
      (if r' = r then insert_at (row_pos c (row_cols m r)) v (row_vals m r) else row_vals m r')"
  proof cases
    case 1
    with wf_span_mono [OF assms(1) 1 assms(2)] b len show ?thesis
      by (simp add: row_cols_def row_vals_def insert_entry_def nth_bump_from slice_insert_before)
  next
    case 2
    with b len sp show ?thesis
      by (simp add: row_cols_def row_vals_def insert_entry_def nth_bump_from slice_insert_in pos_of_def)
  next
    case 3
    with wf_span_mono [OF assms(1) 3 assms(3)] b len show ?thesis
      by (simp add: row_cols_def row_vals_def insert_entry_def nth_bump_from slice_insert_after)
  qed
  then show "row_cols (insert_entry r (pos_of m r c) c v m) r' =
      (if r' = r then insert_at (row_pos c (row_cols m r)) c (row_cols m r) else row_cols m r')"
    and "row_vals (insert_entry r (pos_of m r c) c v m) r' =
      (if r' = r then insert_at (row_pos c (row_cols m r)) v (row_vals m r) else row_vals m r')"
    by simp_all
qed

section \<open>Every write keeps the invariant\<close>

lemma dims_overwrite [simp]:
  "rows (overwrite_at p v m) = rows m" "cols (overwrite_at p v m) = cols m"
  "row_start (overwrite_at p v m) = row_start m" "col_index (overwrite_at p v m) = col_index m"
  "length (stored_values (overwrite_at p v m)) = length (stored_values m)"
  by (simp_all add: overwrite_at_def)

lemma dims_insert [simp]:
  "rows (insert_entry r p c v m) = rows m" "cols (insert_entry r p c v m) = cols m"
  by (simp_all add: insert_entry_def)

lemma wf_overwrite:
  assumes "wf_matrix m" and "r < rows m" and "c \<in> set (row_cols m r)"
  shows "wf_matrix (overwrite_at (pos_of m r c) v m)"
  using assms by (simp add: wf_matrix_iff overwrite_rows(1))

lemma wf_insert:
  assumes wf: "wf_matrix m" and r: "r < rows m" and c: "c < cols m" and new: "c \<notin> set (row_cols m r)"
  shows "wf_matrix (insert_entry r (pos_of m r c) c v m)"
proof -
  let ?p = "pos_of m r c" and ?m' = "insert_entry r (pos_of m r c) c v m"
  note b = pos_of_bounds [OF wf r, of c]
  from wf have len: "length (row_start m) = Suc (rows m)" by (simp add: wf_matrix_iff)
  have "sorted_wrt (<) (row_cols ?m' r')" if "r' < rows m" for r'
    using that wf r new by (simp add: insert_rows(1) row_insert_sorted wf_row_sorted)
  moreover have "set (col_index ?m') = insert c (set (col_index m))"
    using b by (simp add: insert_entry_def set_insert_at)
  moreover have "row_start ?m' ! 0 = row_start m ! 0" and "row_start ?m' ! rows m = Suc (row_start m ! rows m)"
    using len r by (simp_all add: insert_entry_def nth_bump_from)
  moreover have "length (stored_values ?m') = Suc (length (stored_values m))"
    and "length (col_index ?m') = Suc (length (col_index m))"
    and "length (row_start ?m') = length (row_start m)" and "sorted (row_start ?m')"
    using b wf by (simp_all add: insert_entry_def sorted_bump_from wf_matrix_iff)
  ultimately show ?thesis using wf c by (simp add: wf_matrix_iff)
qed

lemma wf_construct: "construct r c = Inr m \<Longrightarrow> wf_matrix m"
  by (auto simp: construct_def wf_matrix_iff row_cols_def slice_def nth_replicate split: if_splits)

lemma wf_set_elem:
  assumes "wf_matrix m" and "set_elem row col v m = Inr m'"
  shows "wf_matrix m'"
proof -
  from assms(2) have inb: "in_bounds m row col" by (auto simp: set_elem_def split: if_splits)
  then have "nat row < rows m" and "nat col < cols m" by (auto simp: in_bounds_def)
  with assms set_elem_rows [OF assms(1) inb, of v] show ?thesis
    by (auto simp: wf_overwrite wf_insert split: if_splits)
qed

lemma set_elem_dims: "set_elem row col v m = Inr m' \<Longrightarrow> rows m' = rows m \<and> cols m' = cols m"
  by (auto simp: set_elem_def Let_def split: if_splits)

lemma set_all_wf: "wf_matrix m \<Longrightarrow> set_all ws m = Inr m' \<Longrightarrow> wf_matrix m' \<and> rows m' = rows m \<and> cols m' = cols m"
proof (induction ws arbitrary: m)
  case Nil
  then show ?case by simp
next
  case (Cons w ws)
  obtain row col v where w: "w = (row, col, v)" by (cases w)
  from Cons.prems(2) obtain m1 where 1: "set_elem row col v m = Inr m1" and 2: "set_all ws m1 = Inr m'"
    by (auto simp: w split: sum.splits)
  from Cons.prems(1) 1 have "wf_matrix m1" by (rule wf_set_elem)
  from Cons.IH [OF this 2] set_elem_dims [OF 1] show ?case by simp
qed

section \<open>Every write is an update of the abstract matrix\<close>

lemma entry_dom: "wf_matrix m \<Longrightarrow> r < rows m \<Longrightarrow> (entry m r c \<noteq> None) = (c \<in> set (row_cols m r))"
  by (simp add: entry_def row_lookup wf_row_lengths wf_row_sorted)

lemma entry_overwrite:
  assumes "wf_matrix m" and "r < rows m" and "c \<in> set (row_cols m r)"
  shows "entry (overwrite_at (pos_of m r c) v m) = (entry m)(r := (entry m r)(c \<mapsto> v))"
proof (intro ext)
  fix r' c'
  show "entry (overwrite_at (pos_of m r c) v m) r' c' = ((entry m)(r := (entry m r)(c \<mapsto> v))) r' c'"
  proof (cases "r' < rows m")
    case False
    with assms(2) show ?thesis by (auto simp: entry_def)
  next
    case True
    with assms show ?thesis
      by (simp add: entry_def overwrite_rows row_overwrite wf_row_lengths wf_row_sorted)
  qed
qed

lemma entry_insert:
  assumes "wf_matrix m" and "r < rows m" and "c \<notin> set (row_cols m r)"
  shows "entry (insert_entry r (pos_of m r c) c v m) = (entry m)(r := (entry m r)(c \<mapsto> v))"
proof (intro ext)
  fix r' c'
  show "entry (insert_entry r (pos_of m r c) c v m) r' c' = ((entry m)(r := (entry m r)(c \<mapsto> v))) r' c'"
  proof (cases "r' < rows m")
    case False
    with assms(2) show ?thesis by (auto simp: entry_def)
  next
    case True
    with assms show ?thesis
      by (simp add: entry_def insert_rows row_insert wf_row_lengths wf_row_sorted)
  qed
qed

lemma entry_set_elem:
  assumes "wf_matrix m" and "set_elem row col v m = Inr m'"
  shows "entry m' =
     (if entry m (nat row) (nat col) = None \<and> v = 0 then entry m
      else (entry m)(nat row := (entry m (nat row))(nat col \<mapsto> v)))"
proof -
  from assms(2) have inb: "in_bounds m row col" by (auto simp: set_elem_def split: if_splits)
  then have r: "nat row < rows m" by (auto simp: in_bounds_def)
  from assms set_elem_rows [OF assms(1) inb, of v] r entry_dom [OF assms(1) r, of "nat col"]
  show ?thesis
    by (auto simp: entry_overwrite entry_insert split: if_splits)
qed

lemma dense_set_elem:
  assumes "wf_matrix m" and "set_elem row col v m = Inr m'"
  shows "dense m' = (dense m)(nat row := (dense m (nat row))(nat col := v))"
  using entry_set_elem [OF assms]
  by (auto simp: dense_def fun_eq_iff split: option.splits)

lemma row_major:
  assumes "wf_matrix m"
  shows "concat (map (row_vals m) [0..<rows m]) = stored_values m"
    and "concat (map (row_cols m) [0..<rows m]) = col_index m"
proof -
  from assms have srt: "sorted (row_start m)" and n: "rows m < length (row_start m)"
    and z: "row_start m ! 0 = 0" and e: "row_start m ! rows m = length (stored_values m)"
    and l: "length (col_index m) = length (stored_values m)"
    by (simp_all add: wf_matrix_iff)
  from concat_slices [OF srt n, of "stored_values m"] z e
  show "concat (map (row_vals m) [0..<rows m]) = stored_values m"
    by (simp add: row_vals_def [abs_def] slice_def)
  from concat_slices [OF srt n, of "col_index m"] z e l
  show "concat (map (row_cols m) [0..<rows m]) = col_index m"
    by (simp add: row_cols_def [abs_def] slice_def)
qed

lemma set_elem_length:
  assumes "wf_matrix m" and "set_elem row col v m = Inr m'"
  shows "length (stored_values m') =
     (if entry m (nat row) (nat col) = None \<and> v \<noteq> 0 then Suc (length (stored_values m))
      else length (stored_values m))"
proof -
  from assms(2) have inb: "in_bounds m row col" by (auto simp: set_elem_def split: if_splits)
  then have r: "nat row < rows m" by (auto simp: in_bounds_def)
  from assms set_elem_rows [OF assms(1) inb, of v] entry_dom [OF assms(1) r, of "nat col"]
    pos_of_bounds(3) [OF assms(1) r, of "nat col"]
  show ?thesis by (auto simp: insert_entry_def split: if_splits)
qed

section \<open>Bounds\<close>

lemma set_elem_in_bounds: "set_elem row col v m = Inr m' \<Longrightarrow> in_bounds m row col"
  by (auto simp: set_elem_def split: if_splits)

lemma in_bounds_set_elem: "set_elem row col v m = Inr m' \<Longrightarrow> in_bounds m' = in_bounds m"
  by (auto simp: in_bounds_def fun_eq_iff dest: set_elem_dims)

lemma get_elem_dense: "wf_matrix m \<Longrightarrow> in_bounds m row col \<Longrightarrow> get_elem row col m = Inr (dense m (nat row) (nat col))"
  by (simp add: get_elem_rows dense_def)

section \<open>Examples\<close>

lemma wf_demo_matrix: "wf_matrix demo_matrix"
  by (simp add: demo_matrix_def csr_abs_defs)

lemma set_demo_matrix:
  "set_elem 1 1 4 demo_matrix =
     Inr \<lparr>rows = 2, cols = 3, stored_values = [5, 4, 6], col_index = [0, 1, 2], row_start = [0, 1, 3]\<rparr>"
  by (simp add: demo_matrix_def csr_defs)

lemma construct_2_3: "construct 2 3 = Inr \<lparr>rows = 2, cols = 3, stored_values = [], col_index = [], row_start = [0, 0, 0]\<rparr>"
  by (simp add: construct_def eval_nat_numeral)

lemma demo_writes:
  "set_all [(1, 2, 6), (0, 0, 5)]
     \<lparr>rows = 2, cols = 3, stored_values = [], col_index = [], row_start = [0, 0, 0]\<rparr> = Inr demo_matrix"
  by (simp add: demo_matrix_def csr_defs)

section \<open>Properties\<close>

text \<open>
  C1. Refinement: a successful \<^verbatim>\<open>Set\<close> on a well-formed matrix is the update of
  the abstract matrix at one coordinate, and nothing else; the result is
  well-formed and has the dimensions of the argument.
\<close>

theorem set_elem_refines:
  assumes "wf_matrix m" and "set_elem row col v m = Inr m'"
  shows "dense m' = (dense m)(nat row := (dense m (nat row))(nat col := v)) \<and>
         wf_matrix m' \<and> rows m' = rows m \<and> cols m' = cols m"
  using assms by (simp add: dense_set_elem wf_set_elem set_elem_dims)

theorem set_elem_refines_witness:
  "wf_matrix demo_matrix \<and> set_elem 1 1 4 demo_matrix =
     Inr \<lparr>rows = 2, cols = 3, stored_values = [5, 4, 6], col_index = [0, 1, 2], row_start = [0, 1, 3]\<rparr> \<and>
   dense \<lparr>rows = 2, cols = 3, stored_values = [5, 4, 6], col_index = [0, 1, 2], row_start = [0, 1, 3]\<rparr> 1 1 = 4"
  using set_elem_refines [OF wf_demo_matrix set_demo_matrix]
  by (simp add: wf_demo_matrix set_demo_matrix)

text \<open>
  C13. \<^verbatim>\<open>Get\<close> after \<^verbatim>\<open>Set\<close>: the written coordinate reads as the written
  value, every other coordinate in range reads as before.
\<close>

theorem get_after_set:
  assumes "wf_matrix m" and "set_elem row col v m = Inr m'" and "in_bounds m row' col'"
  shows "get_elem row' col' m' = (if row' = row \<and> col' = col then Inr v else get_elem row' col' m)"
proof -
  from assms(2) have b: "in_bounds m row col" by (rule set_elem_in_bounds)
  from assms have "get_elem row' col' m' = Inr (dense m' (nat row') (nat col'))"
    by (simp add: get_elem_dense wf_set_elem in_bounds_set_elem)
  moreover from b assms(3) have "(nat row' = nat row \<and> nat col' = nat col) = (row' = row \<and> col' = col)"
    by (auto simp: in_bounds_def)
  ultimately show ?thesis
    using assms by (auto simp: dense_set_elem get_elem_dense)
qed

theorem get_after_set_witness:
  "get_elem 1 1 \<lparr>rows = 2, cols = 3, stored_values = [5, 4, 6], col_index = [0, 1, 2], row_start = [0, 1, 3]\<rparr> = Inr 4 \<and>
   get_elem 1 2 \<lparr>rows = 2, cols = 3, stored_values = [5, 4, 6], col_index = [0, 1, 2], row_start = [0, 1, 3]\<rparr> =
     get_elem 1 2 demo_matrix"
proof -
  have b: "in_bounds demo_matrix 1 1" "in_bounds demo_matrix 1 2"
    by (simp_all add: demo_matrix_def in_bounds_def)
  from get_after_set [OF wf_demo_matrix set_demo_matrix b(1)]
       get_after_set [OF wf_demo_matrix set_demo_matrix b(2)]
  show ?thesis by simp
qed

text \<open>
  C30. The errors: \<^verbatim>\<open>Set\<close> and \<^verbatim>\<open>Get\<close> fail exactly on a coordinate out of
  range, negative ones included, and then with \<open>IndexOutOfBounds\<close>;
  \<^verbatim>\<open>Construct\<close> fails exactly on a dimension that is not positive, with
  \<open>InvalidDimension\<close>.
\<close>

theorem index_errors:
  "(set_elem row col v m = Inl e \<longleftrightarrow>
      e = IndexOutOfBounds \<and> (row < 0 \<or> int (rows m) \<le> row \<or> col < 0 \<or> int (cols m) \<le> col)) \<and>
   (get_elem row col m = Inl e \<longleftrightarrow>
      e = IndexOutOfBounds \<and> (row < 0 \<or> int (rows m) \<le> row \<or> col < 0 \<or> int (cols m) \<le> col)) \<and>
   (construct r c = Inl e \<longleftrightarrow> e = InvalidDimension \<and> (r \<le> 0 \<or> c \<le> 0))"
  by (auto simp: set_elem_def get_elem_def construct_def in_bounds_def Let_def)

text \<open>
  C25. Zero over an entry: writing zero to a coordinate that holds an entry keeps
  the entry, with the value zero, and the value array keeps its length.
\<close>

theorem zero_overwrite_keeps_entry:
  assumes "wf_matrix m" and "set_elem row col v m = Inr m1" and "v \<noteq> 0" and "set_elem row col 0 m1 = Inr m2"
  shows "entry m2 (nat row) (nat col) = Some 0 \<and> length (value_array m2) = length (value_array m1)"
proof -
  have w1: "wf_matrix m1" using assms(1,2) by (rule wf_set_elem)
  have e1: "entry m1 (nat row) (nat col) = Some v"
    using entry_set_elem [OF assms(1,2)] assms(3) by simp
  have "entry m2 (nat row) (nat col) = Some 0"
    using entry_set_elem [OF w1 assms(4)] e1 by simp
  moreover have "length (stored_values m2) = length (stored_values m1)"
    using set_elem_length [OF w1 assms(4)] e1 by simp
  ultimately show ?thesis by (simp add: value_array_def)
qed

theorem zero_overwrite_keeps_entry_witness:
  "set_elem 1 1 0 \<lparr>rows = 2, cols = 3, stored_values = [5, 4, 6], col_index = [0, 1, 2], row_start = [0, 1, 3]\<rparr> =
     Inr \<lparr>rows = 2, cols = 3, stored_values = [5, 0, 6], col_index = [0, 1, 2], row_start = [0, 1, 3]\<rparr> \<and>
   entry \<lparr>rows = 2, cols = 3, stored_values = [5, 0, 6], col_index = [0, 1, 2], row_start = [0, 1, 3]\<rparr> 1 1 = Some 0"
proof -
  have z: "set_elem 1 1 0 \<lparr>rows = 2, cols = 3, stored_values = [5, 4, 6], col_index = [0, 1, 2], row_start = [0, 1, 3]\<rparr> =
     Inr \<lparr>rows = 2, cols = 3, stored_values = [5, 0, 6], col_index = [0, 1, 2], row_start = [0, 1, 3]\<rparr>"
    by (simp add: csr_defs)
  have n: "(4 :: cint) \<noteq> 0" by simp
  from zero_overwrite_keeps_entry [OF wf_demo_matrix set_demo_matrix n z] z show ?thesis by simp
qed

end
