(* ===== verification/Matrix_Layout.thy ===== *)
theory Matrix_Layout
  imports Sparse_Matrix
begin

text \<open>
  The layout of a matrix as a whole: the coordinates of the stored entries in the
  order of the value array, the matrices that a program can reach by writes, and
  the two facts that make the invariant of \<open>Sparse_Matrix\<close> the right one. It
  is canonical: a well-formed matrix is determined by its dimensions and its
  entries, so the arrays do not depend on the order of the writes. And it is
  exact: every well-formed matrix is reached by a construction and a sequence of
  writes (\<open>writes_of\<close>), so the invariant admits nothing that cannot occur.
  The last section gives the stored coordinates after a run of writes: they are
  the coordinates that were assigned a nonzero value, in row-major order.
\<close>

section \<open>Definitions\<close>

text \<open>
  The matrices that a program can have: constructed, then written to any number
  of times.
\<close>

inductive reachable :: "Matrix \<Rightarrow> bool" where
  constructed: "construct r c = Inr m \<Longrightarrow> reachable m"
| written: "reachable m \<Longrightarrow> set_elem row col v m = Inr m' \<Longrightarrow> reachable m'"

inductive_cases reachable_cases: "reachable m"

text \<open>
  The coordinates of the stored entries in the order of the value array, the
  order the specification calls row-major, and the coordinates that a sequence
  of writes assigns a nonzero value to.
\<close>

definition stored_coords :: "Matrix \<Rightarrow> (nat \<times> nat) list" where
  "stored_coords m = concat (map (\<lambda>r. map (Pair r) (row_cols m r)) [0..<rows m])"

definition nonzero_coords :: "(int \<times> int \<times> cint) list \<Rightarrow> (int \<times> int) list" where
  "nonzero_coords ws = remdups (map (\<lambda>w. (fst w, fst (snd w))) (filter (\<lambda>w. snd (snd w) \<noteq> 0) ws))"

definition row_major_less :: "nat \<times> nat \<Rightarrow> nat \<times> nat \<Rightarrow> bool" where
  "row_major_less p q \<longleftrightarrow> fst p < fst q \<or> fst p = fst q \<and> snd p < snd q"

text \<open>
  A write on the abstract matrix, and a sequence of writes that builds a given
  matrix from the empty one: every stored entry is written once, a stored zero
  as a nonzero value that is then overwritten.
\<close>

definition entry_write :: "int \<times> int \<times> cint \<Rightarrow> (nat \<Rightarrow> nat \<rightharpoonup> cint) \<Rightarrow> (nat \<Rightarrow> nat \<rightharpoonup> cint)" where
  "entry_write w e = (case w of (row, col, v) \<Rightarrow>
     if e (nat row) (nat col) = None \<and> v = 0 then e
     else e(nat row := (e (nat row))(nat col \<mapsto> v)))"

definition writes_of :: "Matrix \<Rightarrow> (int \<times> int \<times> cint) list" where
  "writes_of m = concat (map (\<lambda>(r, c).
     if dense m r c = 0 then [(int r, int c, 1), (int r, int c, 0)] else [(int r, int c, dense m r c)])
     (stored_coords m))"

section \<open>The stored coordinates\<close>

lemma length_stored_coords: "wf_matrix m \<Longrightarrow> length (stored_coords m) = length (stored_values m)"
proof -
  assume w: "wf_matrix m"
  have "length (stored_coords m) = length (concat (map (row_cols m) [0..<rows m]))"
    by (simp add: stored_coords_def length_concat comp_def)
  with w show ?thesis by (simp add: row_major wf_matrix_def)
qed

lemma mem_stored_coords: "(r, c) \<in> set (stored_coords m) \<longleftrightarrow> r < rows m \<and> c \<in> set (row_cols m r)"
  by (auto simp: stored_coords_def)

lemma set_stored_coords: "wf_matrix m \<Longrightarrow> set (stored_coords m) = {(r, c). entry m r c \<noteq> None}"
proof -
  assume w: "wf_matrix m"
  have "(r, c) \<in> set (stored_coords m) \<longleftrightarrow> entry m r c \<noteq> None" for r c
  proof (cases "r < rows m")
    case True
    with w show ?thesis by (simp only: mem_stored_coords entry_dom) simp
  next
    case False
    then show ?thesis by (simp add: mem_stored_coords entry_def)
  qed
  then show ?thesis by auto
qed

lemma distinct_stored_coords: "wf_matrix m \<Longrightarrow> distinct (stored_coords m)"
proof -
  assume w: "wf_matrix m"
  have "distinct (row_cols m r)" if "r < rows m" for r
    using wf_row_sorted [OF w that] by (simp add: strict_sorted_iff)
  then show ?thesis
    unfolding stored_coords_def
    by (intro distinct_concat_upt) (auto simp: distinct_map inj_on_def)
qed

lemma stored_set_elem:
  assumes "wf_matrix m" and "set_elem row col v m = Inr m'"
  shows "set (stored_coords m') =
     (if v = 0 then set (stored_coords m) else insert (nat row, nat col) (set (stored_coords m)))"
  using entry_set_elem [OF assms] assms
  by (auto simp: set_stored_coords wf_set_elem split: if_splits)

lemma stored_set_all:
  "wf_matrix m \<Longrightarrow> set_all ws m = Inr m' \<Longrightarrow>
   set (stored_coords m') = set (stored_coords m) \<union> (\<lambda>(r, c). (nat r, nat c)) ` set (nonzero_coords ws)"
proof (induction ws arbitrary: m)
  case Nil
  then show ?case by (simp add: nonzero_coords_def)
next
  case (Cons w ws)
  obtain row col v where w: "w = (row, col, v)" by (cases w)
  with Cons.prems obtain m1 where s: "set_elem row col v m = Inr m1" and r: "set_all ws m1 = Inr m'"
    by (auto split: sum.splits)
  from Cons.IH [OF wf_set_elem [OF Cons.prems(1) s] r] stored_set_elem [OF Cons.prems(1) s]
  show ?case by (auto simp: w nonzero_coords_def)
qed

lemma set_all_in_bounds:
  "set_all ws m = Inr m' \<Longrightarrow> (row, col, v) \<in> set ws \<Longrightarrow> in_bounds m row col"
proof (induction ws arbitrary: m)
  case Nil
  then show ?case by simp
next
  case (Cons w ws)
  obtain r c u where w: "w = (r, c, u)" by (cases w)
  with Cons.prems obtain m1 where s: "set_elem r c u m = Inr m1" and t: "set_all ws m1 = Inr m'"
    by (auto split: sum.splits)
  from set_elem_dims [OF s] have "in_bounds m1 = in_bounds m" by (simp add: in_bounds_def fun_eq_iff)
  with Cons.IH [OF t] Cons.prems(2) set_elem_in_bounds [OF s] show ?case by (auto simp: w)
qed

lemma stored_construct: "construct r c = Inr m \<Longrightarrow> stored_coords m = []"
  by (auto simp: construct_def stored_coords_def row_cols_def slice_def split: if_splits)

lemma distinct_nonzero_coords: "distinct (nonzero_coords ws)"
  by (simp add: nonzero_coords_def)

lemma dense_row:
  assumes "wf_matrix m" and "r < rows m"
  shows "map (dense m r) (row_cols m r) = row_vals m r"
proof -
  have d: "distinct (row_cols m r)"
    using wf_row_sorted [OF assms] by (simp add: strict_sorted_iff)
  have l: "length (row_cols m r) = length (row_vals m r)"
    using wf_row_lengths [OF assms] by simp
  have "dense m r c = the (map_of (zip (row_cols m r) (row_vals m r)) c)" if "c \<in> set (row_cols m r)" for c
    using that l assms(2) by (auto simp: dense_def entry_def split: option.splits)
  then have "map (dense m r) (row_cols m r) = map (\<lambda>c. the (map_of (zip (row_cols m r) (row_vals m r)) c)) (row_cols m r)"
    by simp
  with d l show ?thesis by (simp add: map_map_of_zip)
qed

lemma sorted_stored_coords: "wf_matrix m \<Longrightarrow> sorted_wrt row_major_less (stored_coords m)"
proof -
  assume w: "wf_matrix m"
  have "sorted_wrt row_major_less (map (Pair r) (row_cols m r))" if "r < rows m" for r
    using wf_row_sorted [OF w that] by (simp add: sorted_wrt_map row_major_less_def)
  then show ?thesis
    unfolding stored_coords_def
    by (intro sorted_wrt_concat_upt) (auto simp: row_major_less_def)
qed

lemma values_stored_coords:
  assumes "wf_matrix m"
  shows "map (\<lambda>(r, c). dense m r c) (stored_coords m) = stored_values m"
proof -
  have "map (\<lambda>(r, c). dense m r c) (stored_coords m) = concat (map (\<lambda>r. map (dense m r) (row_cols m r)) [0..<rows m])"
    by (simp add: stored_coords_def map_concat comp_def)
  also have "\<dots> = concat (map (row_vals m) [0..<rows m])"
    using assms by (intro arg_cong [where f = concat] map_cong) (simp_all add: dense_row)
  finally show ?thesis using assms by (simp add: row_major)
qed

section \<open>Reachable matrices\<close>

lemma set_all_append:
  "set_all (ws @ ws') m = (case set_all ws m of Inl e \<Rightarrow> Inl e | Inr m' \<Rightarrow> set_all ws' m')"
  by (induction ws arbitrary: m) (auto split: sum.splits)

lemma reachable_set_all: "reachable m \<Longrightarrow> set_all ws m = Inr m' \<Longrightarrow> reachable m'"
proof (induction ws arbitrary: m)
  case Nil
  then show ?case by simp
next
  case (Cons w ws)
  obtain row col v where w: "w = (row, col, v)" by (cases w)
  with Cons.prems obtain m1 where s: "set_elem row col v m = Inr m1" and r: "set_all ws m1 = Inr m'"
    by (auto split: sum.splits)
  from Cons.prems(1) s have "reachable m1" by (rule written)
  then show ?case using r by (rule Cons.IH)
qed

lemma reachable_wf: "reachable m \<Longrightarrow> wf_matrix m"
  by (induction rule: reachable.induct) (auto intro: wf_construct wf_set_elem)

lemma reachable_run:
  "reachable m \<Longrightarrow> \<exists>r c m0 ws. construct r c = Inr m0 \<and> set_all ws m0 = Inr m"
proof (induction rule: reachable.induct)
  case (constructed r c m)
  then have "construct r c = Inr m \<and> set_all [] m = Inr m" by simp
  then show ?case by blast
next
  case (written m row col v m')
  then obtain r c m0 ws where c: "construct r c = Inr m0" and s: "set_all ws m0 = Inr m" by blast
  from s written.hyps(2) have "set_all (ws @ [(row, col, v)]) m0 = Inr m'"
    by (simp add: set_all_append)
  with c show ?case by blast
qed

lemma reachable_iff_run:
  "reachable m \<longleftrightarrow> (\<exists>r c m0 ws. construct r c = Inr m0 \<and> set_all ws m0 = Inr m)"
proof
  assume "reachable m"
  then show "\<exists>r c m0 ws. construct r c = Inr m0 \<and> set_all ws m0 = Inr m" by (rule reachable_run)
next
  assume "\<exists>r c m0 ws. construct r c = Inr m0 \<and> set_all ws m0 = Inr m"
  then obtain r c m0 ws where "construct r c = Inr m0" and s: "set_all ws m0 = Inr m" by blast
  then have "reachable m0" by (simp add: constructed)
  then show "reachable m" using s by (rule reachable_set_all)
qed

section \<open>The representation is canonical\<close>

lemma row_start_lengths:
  assumes "wf_matrix m" and "r \<le> rows m"
  shows "row_start m ! r = length (concat (map (row_cols m) [0..<r]))"
proof -
  from assms have s: "sorted (row_start m)" and l: "r < length (row_start m)"
    and z: "row_start m ! 0 = 0" and e: "row_start m ! rows m = length (col_index m)"
    by (simp_all add: wf_matrix_def)
  from assms have "rows m < length (row_start m)" by (simp add: wf_matrix_def)
  with s assms(2) have "row_start m ! r \<le> row_start m ! rows m"
    by (rule sorted_nth_mono)
  with e have "row_start m ! r \<le> length (col_index m)" by simp
  moreover have "concat (map (row_cols m) [0..<r]) = slice (col_index m) 0 (row_start m ! r)"
    using concat_slices [OF s l, of "col_index m"] z by (simp add: row_cols_def [abs_def])
  ultimately show ?thesis by (simp add: length_slice_le)
qed

lemma matrix_ext:
  assumes "wf_matrix m" and "wf_matrix m'" and "rows m = rows m'" and "cols m = cols m'"
    and "\<And>r. r < rows m \<Longrightarrow> row_cols m r = row_cols m' r"
    and "\<And>r. r < rows m \<Longrightarrow> row_vals m r = row_vals m' r"
  shows "m = m'"
proof -
  have c: "map (row_cols m) [0..<r] = map (row_cols m') [0..<r]" if "r \<le> rows m" for r
    using that assms(5) by simp
  have v: "map (row_vals m) [0..<rows m] = map (row_vals m') [0..<rows m]"
    using assms(6) by simp
  have "stored_values m = concat (map (row_vals m) [0..<rows m])"
    using row_major(1) [OF assms(1)] by simp
  also have "\<dots> = concat (map (row_vals m') [0..<rows m'])"
    by (subst v) (simp only: assms(3))
  finally have "stored_values m = stored_values m'"
    using row_major(1) [OF assms(2)] by simp
  moreover have "col_index m = concat (map (row_cols m) [0..<rows m])"
    using row_major(2) [OF assms(1)] by simp
  then have "col_index m = concat (map (row_cols m') [0..<rows m'])"
    by (subst (asm) c [OF order_refl]) (simp only: assms(3))
  then have "col_index m = col_index m'"
    using row_major(2) [OF assms(2)] by simp
  moreover have "row_start m = row_start m'"
  proof (rule nth_equalityI)
    from assms(1-3) show "length (row_start m) = length (row_start m')" by (simp add: wf_matrix_def)
  next
    fix r assume "r < length (row_start m)"
    with assms(1) have "r \<le> rows m" by (simp add: wf_matrix_def)
    with row_start_lengths [OF assms(1)] row_start_lengths [OF assms(2)] c assms(3)
    show "row_start m ! r = row_start m' ! r" by simp
  qed
  ultimately show ?thesis using assms(3,4) by simp
qed

lemma entry_row:
  "r < rows m \<Longrightarrow> entry m r = map_of (zip (row_cols m r) (row_vals m r))"
  by (simp add: entry_def fun_eq_iff)

lemma entry_inject:
  assumes "wf_matrix m" and "wf_matrix m'" and "rows m = rows m'" and "cols m = cols m'"
    and "entry m = entry m'"
  shows "m = m'"
proof (rule matrix_ext [OF assms(1-4)])
  fix r assume r: "r < rows m"
  with assms(3) have r': "r < rows m'" by simp
  have "row_cols m r = row_cols m' r \<and> row_vals m r = row_vals m' r"
  proof (rule sorted_alist_unique)
    show "sorted_wrt (<) (row_cols m r)" using assms(1) r by (rule wf_row_sorted)
    show "sorted_wrt (<) (row_cols m' r)" using assms(2) r' by (rule wf_row_sorted)
    show "length (row_vals m r) = length (row_cols m r)" using wf_row_lengths [OF assms(1) r] by simp
    show "length (row_vals m' r) = length (row_cols m' r)" using wf_row_lengths [OF assms(2) r'] by simp
    show "map_of (zip (row_cols m r) (row_vals m r)) = map_of (zip (row_cols m' r) (row_vals m' r))"
      using entry_row [OF r] entry_row [OF r'] assms(5) by simp
  qed
  then show "row_cols m r = row_cols m' r" and "row_vals m r = row_vals m' r" by simp_all
qed

section \<open>Every well-formed matrix is reachable\<close>

lemma entry_set_all:
  "wf_matrix m \<Longrightarrow> set_all ws m = Inr m' \<Longrightarrow> entry m' = fold entry_write ws (entry m)"
proof (induction ws arbitrary: m)
  case Nil
  then show ?case by simp
next
  case (Cons w ws)
  obtain row col v where w: "w = (row, col, v)" by (cases w)
  with Cons.prems obtain m1 where s: "set_elem row col v m = Inr m1" and r: "set_all ws m1 = Inr m'"
    by (auto split: sum.splits)
  have "entry m1 = entry_write w (entry m)"
    using entry_set_elem [OF Cons.prems(1) s] by (simp add: w entry_write_def)
  with Cons.IH [OF wf_set_elem [OF Cons.prems(1) s] r] show ?case by simp
qed

lemma set_all_succeeds:
  "\<forall>w \<in> set ws. in_bounds m (fst w) (fst (snd w)) \<Longrightarrow> \<exists>m'. set_all ws m = Inr m'"
proof (induction ws arbitrary: m)
  case Nil
  show ?case by simp
next
  case (Cons w ws)
  obtain row col v where w: "w = (row, col, v)" by (cases w)
  with Cons.prems have "in_bounds m row col" by simp
  then have "\<exists>m1. set_elem row col v m = Inr m1"
    by (simp add: set_elem_def Let_def)
  then obtain m1 where s: "set_elem row col v m = Inr m1" ..
  then have "in_bounds m1 = in_bounds m" by (rule in_bounds_set_elem)
  with Cons.prems have "\<forall>w \<in> set ws. in_bounds m1 (fst w) (fst (snd w))" by simp
  from Cons.IH [OF this] s show ?case by (simp add: w)
qed

lemma fold_entry_write_writes:
  "fold entry_write (concat (map (\<lambda>(r, c).
       if f r c = 0 then [(int r, int c, 1), (int r, int c, 0)] else [(int r, int c, f r c)]) ks)) e r c =
     (if (r, c) \<in> set ks then Some (f r c) else e r c)"
proof (induction ks arbitrary: e)
  case Nil
  show ?case by simp
next
  case (Cons k ks)
  obtain a b where k: "k = (a, b)" by (cases k)
  have "fold entry_write (if f a b = 0 then [(int a, int b, 1), (int a, int b, 0)] else [(int a, int b, f a b)]) e =
      e(a := (e a)(b \<mapsto> f a b))"
    by (auto simp: entry_write_def fun_eq_iff)
  then show ?case
    by (simp add: k Cons.IH)
qed

lemma stored_in_bounds:
  assumes "wf_matrix m" and "(r, c) \<in> set (stored_coords m)"
  shows "r < rows m \<and> c < cols m"
proof -
  from assms(2) have r: "r < rows m" and c: "c \<in> set (row_cols m r)"
    by (simp_all add: mem_stored_coords)
  from c have "c \<in> set (col_index m)"
    using set_slice_subset [of "col_index m"] by (auto simp: row_cols_def)
  with assms(1) r show ?thesis by (simp add: wf_matrix_def list_all_iff)
qed

lemma writes_of_in_bounds:
  assumes "wf_matrix m" and "rows m0 = rows m" and "cols m0 = cols m" and "w \<in> set (writes_of m)"
  shows "in_bounds m0 (fst w) (fst (snd w))"
proof -
  from assms(4) obtain r c where "(r, c) \<in> set (stored_coords m)" and "fst w = int r" and "fst (snd w) = int c"
    by (auto simp: writes_of_def split: if_splits)
  with stored_in_bounds [OF assms(1)] assms(2,3) show ?thesis by (simp add: in_bounds_def)
qed

lemma entry_construct: "construct r c = Inr m \<Longrightarrow> entry m = (\<lambda>r c. None)"
  by (auto simp: construct_def entry_def row_cols_def row_vals_def slice_def fun_eq_iff split: if_splits)

lemma wf_reachable:
  assumes "wf_matrix m"
  shows "reachable m"
proof -
  from assms have pos: "0 < rows m" "0 < cols m" by (simp_all add: wf_matrix_def)
  define m0 where "m0 = \<lparr>rows = rows m, cols = cols m, stored_values = [], col_index = [],
      row_start = replicate (Suc (rows m)) 0\<rparr>"
  from pos have c: "construct (int (rows m)) (int (cols m)) = Inr m0"
    by (simp add: construct_def m0_def)
  then have w0: "wf_matrix m0" by (rule wf_construct)
  have d0: "rows m0 = rows m" "cols m0 = cols m" by (simp_all add: m0_def)
  have "\<forall>w \<in> set (writes_of m). in_bounds m0 (fst w) (fst (snd w))"
    using writes_of_in_bounds [OF assms d0] by blast
  then obtain m' where s: "set_all (writes_of m) m0 = Inr m'"
    using set_all_succeeds by blast
  from set_all_wf [OF w0 s] d0 have w': "wf_matrix m'" and d': "rows m' = rows m" "cols m' = cols m"
    by simp_all
  have "entry m' r c = entry m r c" for r c
  proof -
    have "entry m' r c = (if (r, c) \<in> set (stored_coords m) then Some (dense m r c) else None)"
      unfolding entry_set_all [OF w0 s] entry_construct [OF c] writes_of_def
      by (rule fold_entry_write_writes)
    also have "\<dots> = entry m r c"
      using set_stored_coords [OF assms] by (auto simp: dense_def)
    finally show ?thesis .
  qed
  then have "entry m' = entry m" by (simp add: fun_eq_iff)
  with entry_inject [OF w' assms d'] have "m' = m" by simp
  with reachable_set_all [OF constructed [OF c] s] show ?thesis by simp
qed

section \<open>The stored coordinates after a run\<close>

lemma stored_coords_run:
  assumes "construct r c = Inr m0" and "set_all ws m0 = Inr m"
  shows "set (stored_coords m) = (\<lambda>(row, col). (nat row, nat col)) ` set (nonzero_coords ws)"
  using stored_set_all [OF wf_construct [OF assms(1)] assms(2)] stored_construct [OF assms(1)] by simp

lemma stored_count:
  assumes "construct r c = Inr m0" and "set_all ws m0 = Inr m"
  shows "length (stored_values m) = length (nonzero_coords ws)"
proof -
  let ?f = "\<lambda>(r, c). (nat r, nat c)"
  have w: "wf_matrix m"
    using set_all_wf [OF wf_construct [OF assms(1)] assms(2)] by simp
  have "0 \<le> row \<and> 0 \<le> col" if "(row, col) \<in> set (nonzero_coords ws)" for row col
  proof -
    from that obtain v where "(row, col, v) \<in> set ws" by (auto simp: nonzero_coords_def)
    from set_all_in_bounds [OF assms(2) this] show ?thesis by (simp add: in_bounds_def)
  qed
  then have "inj_on ?f (set (nonzero_coords ws))"
    by (intro inj_onI) (clarsimp, metis nat_eq_iff2)
  then have "card (?f ` set (nonzero_coords ws)) = length (nonzero_coords ws)"
    by (simp add: card_image distinct_card distinct_nonzero_coords)
  with stored_coords_run [OF assms] show ?thesis
    using distinct_card [OF distinct_stored_coords [OF w]] w
    by (simp add: length_stored_coords)
qed

lemma stored_bound: "wf_matrix m \<Longrightarrow> length (stored_values m) \<le> rows m * cols m"
proof -
  assume w: "wf_matrix m"
  have "set (stored_coords m) \<subseteq> {..<rows m} \<times> {..<cols m}"
    using stored_in_bounds [OF w] by auto
  then have "card (set (stored_coords m)) \<le> card ({..<rows m} \<times> {..<cols m})"
    by (intro card_mono) simp_all
  with distinct_card [OF distinct_stored_coords [OF w]] w show ?thesis
    by (simp add: length_stored_coords)
qed

section \<open>Properties\<close>

text \<open>
  C2. The invariant of the layout holds of exactly the matrices that can be
  reached: every constructed matrix has it, every successful write keeps it,
  and every matrix that has it is the result of a construction and a sequence of
  writes.
\<close>

theorem reachable_iff_wf: "reachable m \<longleftrightarrow> wf_matrix m"
  by (auto intro: reachable_wf wf_reachable)

text \<open>
  C14. The layout does not depend on the history of the writes: two reachable
  matrices with the same dimensions and the same entries are the same matrix,
  array by array.
\<close>

theorem layout_canonical:
  assumes "reachable m" and "reachable m'" and "rows m = rows m'" and "cols m = cols m'"
    and "entry m = entry m'"
  shows "m = m'"
  using assms by (intro entry_inject reachable_wf)

theorem layout_canonical_witness:
  "set_all [(0, 0, 5), (1, 2, 6)]
     \<lparr>rows = 2, cols = 3, stored_values = [], col_index = [], row_start = [0, 0, 0]\<rparr> = Inr demo_matrix \<and>
   set_all [(1, 2, 6), (0, 0, 9), (0, 0, 5)]
     \<lparr>rows = 2, cols = 3, stored_values = [], col_index = [], row_start = [0, 0, 0]\<rparr> = Inr demo_matrix"
proof -
  let ?m0 = "\<lparr>rows = 2, cols = 3, stored_values = [], col_index = [], row_start = [0, 0, 0]\<rparr>"
  have a: "set_all [(0, 0, 5), (1, 2, 6)] ?m0 = Inr demo_matrix"
    by (simp add: csr_defs demo_matrix_def)
  have b: "set_all [(1, 2, 6), (0, 0, 9), (0, 0, 5)] ?m0 = Inr demo_matrix"
    by (simp add: csr_defs demo_matrix_def)
  have r0: "reachable ?m0" using construct_2_3 by (rule constructed)
  from layout_canonical [OF reachable_set_all [OF r0 a] reachable_set_all [OF r0 b] refl refl refl] a b
  show ?thesis by (simp del: set_all.simps)
qed

text \<open>
  C19. Layout of the value array after a run: after any sequence of successful
  writes to a constructed matrix, the stored coordinates are exactly the
  coordinates that were assigned a nonzero value, they ascend strictly in
  row-major order whatever the order of the writes was, and the value array
  holds the values of these coordinates, in this order.
\<close>

theorem value_array_row_major:
  assumes "construct r c = Inr m0" and "set_all ws m0 = Inr m"
  shows "sorted_wrt row_major_less (stored_coords m) \<and>
         set (stored_coords m) = (\<lambda>(row, col). (nat row, nat col)) ` set (nonzero_coords ws) \<and>
         value_array m = map (\<lambda>(r, c). dense m r c) (stored_coords m)"
proof -
  have "wf_matrix m"
    using set_all_wf [OF wf_construct [OF assms(1)] assms(2)] by simp
  then show ?thesis
    using stored_coords_run [OF assms]
    by (simp add: sorted_stored_coords values_stored_coords value_array_def)
qed

theorem value_array_row_major_witness:
  "set_all [(1, 2, 6), (0, 0, 5)]
     \<lparr>rows = 2, cols = 3, stored_values = [], col_index = [], row_start = [0, 0, 0]\<rparr> = Inr demo_matrix \<and>
   stored_coords demo_matrix = [(0, 0), (1, 2)] \<and> value_array demo_matrix = [5, 6] \<and>
   sorted_wrt row_major_less (stored_coords demo_matrix)"
proof -
  have s: "stored_coords demo_matrix = [(0, 0), (1, 2)]"
    by (simp add: demo_matrix_def stored_coords_def row_cols_def slice_def upt_conv_Cons)
  from value_array_row_major [OF construct_2_3 demo_writes] s demo_writes show ?thesis
    by (simp add: value_array_def demo_matrix_def del: set_all.simps)
qed

end
