(* ===== verification/Matrix_Storage.thy ===== *)
theory Matrix_Storage
  imports Matrix_Layout
begin

text \<open>
  The matrix object of the program. \<^verbatim>\<open>Matrix\<close> of \<^verbatim>\<open>src/main.cpp\<close> (line 32) is a
  \<^verbatim>\<open>ublas::compressed_matrix<int>\<close>, and \<^verbatim>\<open>m.value_data()\<close> (lines 238-244) is the
  array in which the library keeps the values: it has the length of the
  \<^emph>\<open>capacity\<close> of the matrix, the stored values are its first elements, and the
  elements after them are spare. The comments of lines 237-243 show it as
  \<^verbatim>\<open>{1, 0, 0, 0, ...}\<close>, \<^verbatim>\<open>{1, 2, 0, 0, ...}\<close>, \<^verbatim>\<open>{3, 1, 2, 0, ...}\<close> and
  \<^verbatim>\<open>{7, 1, 2, 0, ...}\<close>; the spare elements are zero here as they are there.

  A \<open>compressed_matrix\<close> is the layout of \<open>Sparse_Matrix\<close> together with the
  capacity. The library chooses the capacity at construction
  (\<open>restrict_capacity\<close>: at least the smaller dimension, at most the number of
  coordinates) and doubles it, restricted again, when an insertion finds the
  arrays full (\<open>reserve\<close>); the new elements are zero.
  \<open>assign\<close> is \<^verbatim>\<open>m(i, j) = v\<close>: the write of the specification on the layout,
  with this growth. \<open>value_array\<close> of the specification is the part of
  \<open>value_data\<close> that is in use.
\<close>

section \<open>The object and its operations\<close>

record compressed_matrix =
  layout :: Matrix
  capacity :: nat

definition restrict_capacity :: "nat \<Rightarrow> nat \<Rightarrow> nat \<Rightarrow> nat" where
  "restrict_capacity size1 size2 non_zeros =
     (let n = max non_zeros (min size1 size2)
      in if 0 < size1 \<and> size2 \<le> n div size1 then size1 * size2 else n)"

definition filled :: "compressed_matrix \<Rightarrow> nat" where
  "filled cm = length (stored_values (layout cm))"

definition new_matrix :: "int \<Rightarrow> int \<Rightarrow> error + compressed_matrix" where
  "new_matrix r c =
     (case construct r c of
        Inl e \<Rightarrow> Inl e
      | Inr m \<Rightarrow> Inr \<lparr>layout = m, capacity = restrict_capacity (rows m) (cols m) 0\<rparr>)"

definition reserve :: "nat \<Rightarrow> compressed_matrix \<Rightarrow> compressed_matrix" where
  "reserve non_zeros cm =
     cm\<lparr>capacity := restrict_capacity (rows (layout cm)) (cols (layout cm)) non_zeros\<rparr>"

definition assign :: "int \<Rightarrow> int \<Rightarrow> cint \<Rightarrow> compressed_matrix \<Rightarrow> error + compressed_matrix" where
  "assign row col v cm =
     (case set_elem row col v (layout cm) of
        Inl e \<Rightarrow> Inl e
      | Inr m' \<Rightarrow>
          if length (stored_values m') = filled cm then Inr (cm\<lparr>layout := m'\<rparr>)
          else Inr ((if capacity cm \<le> filled cm then reserve (2 * filled cm) cm else cm)
                      \<lparr>layout := m'\<rparr>))"

definition value_data :: "compressed_matrix \<Rightarrow> cint list" where
  "value_data cm = stored_values (layout cm) @ replicate (capacity cm - filled cm) 0"

fun assign_all :: "(int \<times> int \<times> cint) list \<Rightarrow> compressed_matrix \<Rightarrow> error + compressed_matrix" where
  "assign_all [] cm = Inr cm"
| "assign_all ((row, col, v) # ws) cm =
     (case assign row col v cm of Inl e \<Rightarrow> Inl e | Inr cm' \<Rightarrow> assign_all ws cm')"

section \<open>Invariant\<close>

text \<open>The matrix of \<^verbatim>\<open>main\<close> after its four assignments.\<close>

definition demo_storage :: compressed_matrix where
  "demo_storage =
     \<lparr>layout = \<lparr>rows = 10, cols = 10, stored_values = [7, 1, 2], col_index = [4, 5, 6],
                 row_start = [0, 3, 3, 3, 3, 3, 3, 3, 3, 3, 3]\<rparr>,
      capacity = 10\<rparr>"

definition wf_storage :: "compressed_matrix \<Rightarrow> bool" where
  "wf_storage cm \<longleftrightarrow> wf_matrix (layout cm) \<and> filled cm \<le> capacity cm \<and> 0 < capacity cm"

lemmas storage_eval = assign_def reserve_def restrict_capacity_def filled_def

section \<open>The capacity\<close>

lemma restrict_capacity_bounds:
  "min non_zeros (size1 * size2) \<le> restrict_capacity size1 size2 non_zeros"
  by (auto simp: restrict_capacity_def Let_def)

lemma restrict_capacity_pos: "0 < size1 \<Longrightarrow> 0 < size2 \<Longrightarrow> 0 < restrict_capacity size1 size2 non_zeros"
  by (auto simp: restrict_capacity_def Let_def)

section \<open>The layout under the operations\<close>

lemma assign_layout:
  "assign row col v cm = Inr cm' \<Longrightarrow> set_elem row col v (layout cm) = Inr (layout cm')"
  by (auto simp: assign_def reserve_def split: sum.splits if_splits)

lemma assign_error:
  "assign row col v cm = Inl e \<longleftrightarrow> set_elem row col v (layout cm) = Inl e"
  by (auto simp: assign_def split: sum.splits if_splits)

lemma assign_all_layout:
  "assign_all ws cm = Inr cm' \<Longrightarrow> set_all ws (layout cm) = Inr (layout cm')"
proof (induction ws arbitrary: cm)
  case Nil
  then show ?case by simp
next
  case (Cons w ws)
  obtain row col v where w: "w = (row, col, v)" by (cases w)
  with Cons.prems obtain cm1 where a: "assign row col v cm = Inr cm1" and r: "assign_all ws cm1 = Inr cm'"
    by (auto split: sum.splits)
  from assign_layout [OF a] Cons.IH [OF r] show ?case by (simp add: w)
qed

lemma new_matrix_layout: "new_matrix r c = Inr cm \<Longrightarrow> construct r c = Inr (layout cm)"
  by (auto simp: new_matrix_def split: sum.splits)

section \<open>The storage never overflows\<close>

lemma wf_new_matrix:
  assumes "new_matrix r c = Inr cm"
  shows "wf_storage cm"
proof -
  from new_matrix_layout [OF assms] have c: "construct r c = Inr (layout cm)" .
  then have "stored_coords (layout cm) = []" by (rule stored_construct)
  with wf_construct [OF c] have "stored_values (layout cm) = []"
    using length_stored_coords [of "layout cm"] by simp
  moreover have "capacity cm = restrict_capacity (rows (layout cm)) (cols (layout cm)) 0"
    using assms by (auto simp: new_matrix_def split: sum.splits)
  moreover have "0 < rows (layout cm)" "0 < cols (layout cm)"
    using wf_construct [OF c] by (simp_all add: wf_matrix_def)
  ultimately show ?thesis
    using wf_construct [OF c] by (simp add: wf_storage_def filled_def restrict_capacity_pos)
qed

lemma assign_capacity:
  assumes "assign row col v cm = Inr cm'"
  shows "capacity cm' =
     (if length (stored_values (layout cm')) = filled cm \<or> \<not> capacity cm \<le> filled cm then capacity cm
      else restrict_capacity (rows (layout cm)) (cols (layout cm)) (2 * filled cm))"
  using assms by (auto simp: assign_def reserve_def split: sum.splits if_splits)

lemma wf_assign:
  assumes "wf_storage cm" and "assign row col v cm = Inr cm'"
  shows "wf_storage cm'"
proof -
  let ?m = "layout cm" and ?m' = "layout cm'"
  from assms(1) have w: "wf_matrix ?m" and f: "filled cm \<le> capacity cm" and p: "0 < capacity cm"
    by (simp_all add: wf_storage_def)
  have s: "set_elem row col v ?m = Inr ?m'" using assms(2) by (rule assign_layout)
  then have w': "wf_matrix ?m'" using w by (auto intro: wf_set_elem)
  from set_elem_dims [OF s] have d: "rows ?m' = rows ?m" "cols ?m' = cols ?m" by simp_all
  from set_elem_length [OF w s] have l: "length (stored_values ?m') \<le> Suc (filled cm)"
    by (simp add: filled_def split: if_splits)
  from stored_bound [OF w'] d have b: "length (stored_values ?m') \<le> rows ?m * cols ?m" by simp
  have "filled cm' \<le> capacity cm' \<and> 0 < capacity cm'"
  proof (cases "length (stored_values ?m') = filled cm \<or> \<not> capacity cm \<le> filled cm")
    case True
    with assign_capacity [OF assms(2)] have "capacity cm' = capacity cm" by simp
    with True l f p show ?thesis by (auto simp: filled_def)
  next
    case False
    with assign_capacity [OF assms(2)]
    have c: "capacity cm' = restrict_capacity (rows ?m) (cols ?m) (2 * filled cm)" by simp
    from False f p have n: "0 < filled cm" by simp
    from w have "0 < rows ?m * cols ?m" by (simp add: wf_matrix_def)
    with n have "filled cm' \<le> min (2 * filled cm) (rows ?m * cols ?m)"
      and "0 < min (2 * filled cm) (rows ?m * cols ?m)"
      using b l unfolding filled_def by linarith+
    with restrict_capacity_bounds [of "2 * filled cm" "rows ?m" "cols ?m"] show ?thesis
      unfolding c by linarith
  qed
  with w' show ?thesis by (simp add: wf_storage_def)
qed

lemma wf_assign_all: "wf_storage cm \<Longrightarrow> assign_all ws cm = Inr cm' \<Longrightarrow> wf_storage cm'"
proof (induction ws arbitrary: cm)
  case Nil
  then show ?case by simp
next
  case (Cons w ws)
  obtain row col v where w: "w = (row, col, v)" by (cases w)
  with Cons.prems obtain cm1 where a: "assign row col v cm = Inr cm1" and r: "assign_all ws cm1 = Inr cm'"
    by (auto split: sum.splits)
  from Cons.IH [OF wf_assign [OF Cons.prems(1) a] r] show ?case .
qed

lemma value_data_parts:
  assumes "wf_storage cm"
  shows "length (value_data cm) = capacity cm"
    and "take (filled cm) (value_data cm) = value_array (layout cm)"
    and "drop (filled cm) (value_data cm) = replicate (capacity cm - filled cm) 0"
  using assms by (simp_all add: value_data_def wf_storage_def filled_def value_array_def)

section \<open>Examples\<close>

lemma construct_10: "construct 10 10 = Inr \<lparr>rows = 10, cols = 10, stored_values = [], col_index = [],
     row_start = [0, 0, 0, 0, 0, 0, 0, 0, 0, 0, 0]\<rparr>"
  by (simp add: construct_def eval_nat_numeral)

lemma restrict_capacity_10: "restrict_capacity 10 10 0 = 10"
  by (simp add: restrict_capacity_def)

lemma new_matrix_10:
  "new_matrix 10 10 =
     Inr \<lparr>layout = \<lparr>rows = 10, cols = 10, stored_values = [], col_index = [],
                      row_start = [0, 0, 0, 0, 0, 0, 0, 0, 0, 0, 0]\<rparr>,
          capacity = 10\<rparr>"
  by (simp add: new_matrix_def construct_10 restrict_capacity_10)

lemma demo_assignments:
  "assign_all [(0, 5, 1), (0, 6, 2), (0, 4, 3), (0, 4, 7)]
     \<lparr>layout = \<lparr>rows = 10, cols = 10, stored_values = [], col_index = [],
                 row_start = [0, 0, 0, 0, 0, 0, 0, 0, 0, 0, 0]\<rparr>,
      capacity = 10\<rparr> = Inr demo_storage"
  by (simp add: assign_def filled_def csr_defs demo_storage_def)

lemma growth_example:
  "assign_all [(0, 0, 1), (0, 1, 2)]
     \<lparr>layout = \<lparr>rows = 1, cols = 3, stored_values = [], col_index = [], row_start = [0, 0]\<rparr>,
      capacity = 1\<rparr> =
   Inr \<lparr>layout = \<lparr>rows = 1, cols = 3, stored_values = [1, 2], col_index = [0, 1], row_start = [0, 2]\<rparr>,
        capacity = 2\<rparr>"
  by (simp add: assign_def filled_def reserve_def restrict_capacity_def csr_defs)

lemma value_data_demo_storage: "value_data demo_storage = [7, 1, 2, 0, 0, 0, 0, 0, 0, 0]"
  by (simp add: demo_storage_def value_data_def filled_def eval_nat_numeral)

section \<open>Properties\<close>

text \<open>
  C11. The array that \<^verbatim>\<open>m.value_data()\<close> returns, after any sequence of successful
  assignments to a constructed matrix: it has the length of the capacity, which
  is never less than the number of stored entries; its first elements are the
  value array of the specification, as many as there are distinct coordinates
  that were assigned a nonzero value; all elements after them are zero.
\<close>

theorem value_data_after_writes:
  assumes "new_matrix r c = Inr cm0" and "assign_all ws cm0 = Inr cm"
  shows "length (value_data cm) = capacity cm \<and>
         length (nonzero_coords ws) \<le> capacity cm \<and>
         take (length (nonzero_coords ws)) (value_data cm) = value_array (layout cm) \<and>
         drop (length (nonzero_coords ws)) (value_data cm) =
           replicate (capacity cm - length (nonzero_coords ws)) 0"
proof -
  have w: "wf_storage cm"
    using wf_assign_all [OF wf_new_matrix [OF assms(1)] assms(2)] .
  have "filled cm = length (nonzero_coords ws)"
    using stored_count [OF new_matrix_layout [OF assms(1)] assign_all_layout [OF assms(2)]]
    by (simp add: filled_def)
  with value_data_parts [OF w] w show ?thesis by (simp add: wf_storage_def)
qed

theorem value_data_after_writes_witness:
  "assign_all [(0, 5, 1), (0, 6, 2), (0, 4, 3), (0, 4, 7)]
     \<lparr>layout = \<lparr>rows = 10, cols = 10, stored_values = [], col_index = [],
                 row_start = [0, 0, 0, 0, 0, 0, 0, 0, 0, 0, 0]\<rparr>,
      capacity = 10\<rparr> = Inr demo_storage \<and>
   value_data demo_storage = [7, 1, 2, 0, 0, 0, 0, 0, 0, 0] \<and>
   take 3 (value_data demo_storage) = value_array (layout demo_storage)"
proof -
  let ?ws = "[(0, 5, 1), (0, 6, 2), (0, 4, 3), (0, 4, 7)] :: (int \<times> int \<times> cint) list"
  have n: "length (nonzero_coords ?ws) = 3"
    by (simp add: nonzero_coords_def)
  note v = value_data_demo_storage
  have "take (length (nonzero_coords ?ws)) (value_data demo_storage) = value_array (layout demo_storage)"
    by (rule value_data_after_writes
        [OF new_matrix_10 demo_assignments, THEN conjunct2, THEN conjunct2, THEN conjunct1])
  then have "take 3 (value_data demo_storage) = value_array (layout demo_storage)"
    by (simp only: n)
  with demo_assignments v show ?thesis by (simp only: simp_thms)
qed

end
