(* ===== verification/Matrix_Codec.thy ===== *)
theory Matrix_Codec
  imports Sparse_Matrix
begin

text \<open>
  The binary form of a matrix, which \<^verbatim>\<open>save_matrix\<close> and \<^verbatim>\<open>load_matrix\<close> of
  \<^verbatim>\<open>src/main.cpp\<close> obtain from a serialization library. The library is not under
  \<^verbatim>\<open>src/\<close>; the format is the one of the specification (section 4.2): the number
  of rows, the number of columns, the number of entries, the values, the column
  indices and the \<open>rows + 1\<close> row offsets, every field a 32-bit integer. The byte
  order is fixed here as little-endian.

  \<open>decode\<close> reads the header, then the three arrays in the lengths that the
  header declares. It fails with \<open>TruncatedInput\<close> as soon as a field is not
  complete, and with \<open>MalformedInput\<close> when the last row offset is not the number
  of entries; bytes after the last field are left unread. \<open>encodable\<close> is what
  a matrix needs for its fields to fit the format; every well-formed matrix with
  less than \<open>2^32\<close> rows, columns and entries has it.
\<close>

unbundle bit_operations_syntax

section \<open>One field\<close>

definition encode_word :: "cint \<Rightarrow> byte list" where
  "encode_word x = [ucast x, ucast (drop_bit 8 x), ucast (drop_bit 16 x), ucast (drop_bit 24 x)]"

definition decode_word :: "byte list \<Rightarrow> cint" where
  "decode_word bs = (case bs of
       [b0, b1, b2, b3] \<Rightarrow> ucast b0 OR push_bit 8 (ucast b1) OR push_bit 16 (ucast b2) OR push_bit 24 (ucast b3)
     | _ \<Rightarrow> 0)"

section \<open>Sequences of fields\<close>

definition encode_words :: "cint list \<Rightarrow> byte list" where
  "encode_words ws = concat (map encode_word ws)"

primrec read_words :: "nat \<Rightarrow> byte list \<Rightarrow> error + (cint list \<times> byte list)" where
  "read_words 0 bs = Inr ([], bs)"
| "read_words (Suc n) bs =
     (if length bs < 4 then Inl TruncatedInput
      else case read_words n (drop 4 bs) of
             Inl e \<Rightarrow> Inl e
           | Inr (ws, rest) \<Rightarrow> Inr (decode_word (take 4 bs) # ws, rest))"

section \<open>Encode and Decode\<close>

definition encode :: "Matrix \<Rightarrow> byte list" where
  "encode m =
     encode_words [of_nat (rows m), of_nat (cols m), of_nat (length (stored_values m))] @
     encode_words (stored_values m) @
     encode_words (map of_nat (col_index m)) @
     encode_words (map of_nat (row_start m))"

definition read_arrays :: "nat \<Rightarrow> nat \<Rightarrow> nat \<Rightarrow> byte list \<Rightarrow> error + Matrix" where
  "read_arrays r c n bs =
     (case read_words n bs of
        Inl e \<Rightarrow> Inl e
      | Inr (vals, bs2) \<Rightarrow>
          (case read_words n bs2 of
             Inl e \<Rightarrow> Inl e
           | Inr (cis, bs3) \<Rightarrow>
               (case read_words (Suc r) bs3 of
                  Inl e \<Rightarrow> Inl e
                | Inr (rs, rest) \<Rightarrow>
                    if unat (rs ! r) \<noteq> n then Inl MalformedInput
                    else Inr \<lparr>rows = r, cols = c, stored_values = vals,
                              col_index = map unat cis, row_start = map unat rs\<rparr>)))"

definition decode :: "byte list \<Rightarrow> error + Matrix" where
  "decode bs =
     (case read_words 3 bs of
        Inl e \<Rightarrow> Inl e
      | Inr (header, bs1) \<Rightarrow>
          read_arrays (unat (header ! 0)) (unat (header ! 1)) (unat (header ! 2)) bs1)"

definition representable :: "Matrix \<Rightarrow> bool" where
  "representable m \<longleftrightarrow> rows m < 2 ^ 32 \<and> cols m < 2 ^ 32 \<and> length (stored_values m) < 2 ^ 32"

definition encodable :: "Matrix \<Rightarrow> bool" where
  "encodable m \<longleftrightarrow>
     rows m < 2 ^ 32 \<and> cols m < 2 ^ 32 \<and> length (stored_values m) < 2 ^ 32 \<and>
     length (col_index m) = length (stored_values m) \<and>
     length (row_start m) = Suc (rows m) \<and>
     row_start m ! rows m = length (stored_values m) \<and>
     list_all (\<lambda>x. x < 2 ^ 32) (col_index m) \<and> list_all (\<lambda>x. x < 2 ^ 32) (row_start m)"

text \<open>
  The field with a given number in a byte sequence, and the length that the
  header of a byte sequence declares for the whole of it.
\<close>

definition word_at :: "nat \<Rightarrow> byte list \<Rightarrow> cint" where
  "word_at i bs = decode_word (take 4 (drop (4 * i) bs))"

definition declared_length :: "byte list \<Rightarrow> nat" where
  "declared_length bs = 12 + 4 * (2 * unat (word_at 2 bs) + Suc (unat (word_at 0 bs)))"

section \<open>Bytes and words\<close>

lemma decode_encode_word [simp]: "decode_word (encode_word x) = x"
proof -
  have "(ucast (ucast x :: byte) OR push_bit 8 (ucast (ucast (drop_bit 8 x) :: byte)) OR
         push_bit 16 (ucast (ucast (drop_bit 16 x) :: byte)) OR
         push_bit 24 (ucast (ucast (drop_bit 24 x) :: byte)) :: cint) = x"
  proof (rule bit_word_eqI)
    fix n :: nat
    assume "n < LENGTH(32)"
    then consider "n < 8" | "8 \<le> n" "n < 16" | "16 \<le> n" "n < 24" | "24 \<le> n" "n < 32"
      by fastforce
    then show "bit (ucast (ucast x :: byte) OR push_bit 8 (ucast (ucast (drop_bit 8 x) :: byte)) OR
         push_bit 16 (ucast (ucast (drop_bit 16 x) :: byte)) OR
         push_bit 24 (ucast (ucast (drop_bit 24 x) :: byte)) :: cint) n = bit x n"
      by cases (auto simp: bit_simps)
  qed
  then show ?thesis by (simp add: encode_word_def decode_word_def)
qed

lemma length_encode_word [simp]: "length (encode_word x) = 4"
  by (simp add: encode_word_def)

lemma encode_decode_word: "length bs = 4 \<Longrightarrow> encode_word (decode_word bs) = bs"
proof -
  assume "length bs = 4"
  then obtain b0 b1 b2 b3 where bs: "bs = [b0, b1, b2, b3]"
    by (auto simp: length_Suc_conv eval_nat_numeral)
  have "ucast (ucast b0 OR push_bit 8 (ucast b1) OR push_bit 16 (ucast b2) OR push_bit 24 (ucast b3) :: cint) = b0"
    by (rule bit_word_eqI) (auto simp: bit_simps dest: bit_imp_le_length)
  moreover have "ucast (drop_bit 8 (ucast b0 OR push_bit 8 (ucast b1) OR push_bit 16 (ucast b2) OR push_bit 24 (ucast b3) :: cint)) = b1"
    by (rule bit_word_eqI) (auto simp: bit_simps dest: bit_imp_le_length)
  moreover have "ucast (drop_bit 16 (ucast b0 OR push_bit 8 (ucast b1) OR push_bit 16 (ucast b2) OR push_bit 24 (ucast b3) :: cint)) = b2"
    by (rule bit_word_eqI) (auto simp: bit_simps dest: bit_imp_le_length)
  moreover have "ucast (drop_bit 24 (ucast b0 OR push_bit 8 (ucast b1) OR push_bit 16 (ucast b2) OR push_bit 24 (ucast b3) :: cint)) = b3"
    by (rule bit_word_eqI) (auto simp: bit_simps dest: bit_imp_le_length)
  ultimately show ?thesis by (simp add: bs encode_word_def decode_word_def)
qed

section \<open>Reading what was written, and a prefix of it\<close>

lemma length_encode_words [simp]: "length (encode_words ws) = 4 * length ws"
  by (induction ws) (simp_all add: encode_words_def)

lemma encode_words_Cons: "encode_words (w # ws) = encode_word w @ encode_words ws"
  by (simp add: encode_words_def)

lemma encode_words_Nil [simp]: "encode_words [] = []"
  by (simp add: encode_words_def)

lemma read_words_take:
  "read_words (length ws) (take k (encode_words ws @ rest)) =
     (if k < 4 * length ws then Inl TruncatedInput else Inr (ws, take (k - 4 * length ws) rest))"
proof (induction ws arbitrary: k)
  case Nil
  show ?case by simp
next
  case (Cons w ws)
  show ?case
  proof (cases "k < 4")
    case True
    then show ?thesis by (simp add: encode_words_Cons)
  next
    case False
    define B where "B = take k (encode_words (w # ws) @ rest)"
    from False have t: "take 4 B = encode_word w"
      by (simp add: B_def encode_words_Cons min_absorb1)
    from False have d: "drop 4 B = take (k - 4) (encode_words ws @ rest)"
      by (simp add: B_def encode_words_Cons drop_take)
    from False have l: "\<not> length B < 4"
      by (simp add: B_def encode_words_Cons)
    have "read_words (Suc (length ws)) B =
        (case read_words (length ws) (take (k - 4) (encode_words ws @ rest)) of
           Inl e \<Rightarrow> Inl e | Inr (ws', rest') \<Rightarrow> Inr (w # ws', rest'))"
      by (simp add: t d l split: sum.splits prod.splits)
    also have "\<dots> = (if k < 4 * length (w # ws) then Inl TruncatedInput
        else Inr (w # ws, take (k - 4 * length (w # ws)) rest))"
      using False by (simp only: Cons.IH) auto
    finally show ?thesis by (simp add: B_def)
  qed
qed

lemma read_words_encode: "read_words (length ws) (encode_words ws @ rest) = Inr (ws, rest)"
  using read_words_take [of ws "length (encode_words ws @ rest)" rest] by simp

lemma read_words_short: "length bs < 4 * n \<Longrightarrow> read_words n bs = Inl TruncatedInput"
  by (induction n arbitrary: bs) auto

lemma read_words_result:
  "read_words n bs = Inr (ws, rest) \<Longrightarrow> length ws = n \<and> bs = encode_words ws @ rest"
proof (induction n arbitrary: bs ws)
  case 0
  then show ?case by simp
next
  case (Suc n)
  from Suc.prems obtain ws' where l: "\<not> length bs < 4" and r: "read_words n (drop 4 bs) = Inr (ws', rest)"
    and ws: "ws = decode_word (take 4 bs) # ws'"
    by (auto split: if_splits sum.splits)
  from l have "encode_word (decode_word (take 4 bs)) = take 4 bs"
    by (simp add: encode_decode_word)
  with Suc.IH [OF r] show ?case
    by (simp add: ws encode_words_Cons) (metis append_take_drop_id)
qed

lemma read_words_error: "read_words n bs = Inl e \<Longrightarrow> e = TruncatedInput \<and> length bs < 4 * n"
  by (induction n arbitrary: bs) (fastforce split: if_splits sum.splits)+

lemma read_words_numeral:
  "read_words (numeral k) bs =
     (if length bs < 4 then Inl TruncatedInput
      else case read_words (pred_numeral k) (drop 4 bs) of
             Inl e \<Rightarrow> Inl e
           | Inr (ws, rest) \<Rightarrow> Inr (decode_word (take 4 bs) # ws, rest))"
  by (simp add: numeral_eq_Suc)

lemmas codec_eval =
  read_words_numeral encode_def encode_words_def encode_word_def decode_def read_arrays_def
  decode_word_def Let_def

lemma read_words_closed:
  "read_words n bs =
     (if length bs < 4 * n then Inl TruncatedInput
      else Inr (map (\<lambda>i. word_at i bs) [0..<n], drop (4 * n) bs))"
proof (induction n arbitrary: bs)
  case 0
  show ?case by simp
next
  case (Suc n)
  have "map (\<lambda>i. word_at i bs) [0..<Suc n] = word_at 0 bs # map (\<lambda>i. word_at i (drop 4 bs)) [0..<n]"
    by (simp add: map_upt_Suc word_at_def add.commute del: upt_Suc)
  moreover have "(length bs - 4 < 4 * n) = (length bs < 4 * Suc n)" if "\<not> length bs < 4"
    using that by auto
  ultimately show ?case
    by (simp add: Suc.IH word_at_def add.commute del: upt_Suc)
qed

section \<open>The decoder on an encoding\<close>

lemma wf_fields_small:
  assumes "wf_matrix m" and "representable m"
  shows "\<forall>x \<in> set (col_index m). x < 2 ^ 32" and "\<forall>x \<in> set (row_start m). x < 2 ^ 32"
proof -
  from assms show "\<forall>x \<in> set (col_index m). x < 2 ^ 32"
    by (fastforce simp: wf_matrix_def representable_def list_all_iff)
  show "\<forall>x \<in> set (row_start m). x < 2 ^ 32"
  proof
    fix x assume "x \<in> set (row_start m)"
    then obtain i where i: "i < length (row_start m)" "x = row_start m ! i"
      by (auto simp: in_set_conv_nth)
    from assms(1) have "sorted (row_start m)" and "length (row_start m) = Suc (rows m)"
      by (simp_all add: wf_matrix_def)
    with i have "x \<le> row_start m ! rows m"
      using sorted_nth_mono [of "row_start m" i "rows m"] by simp
    with assms show "x < 2 ^ 32" by (simp add: wf_matrix_def representable_def)
  qed
qed

lemma read_arrays_take:
  assumes "length cs = length vs" and "length rs = Suc r"
  shows "read_arrays r c (length vs)
           (take k (encode_words vs @ encode_words cs @ encode_words rs @ rest)) =
     (if k < 4 * length vs + 4 * length vs + 4 * Suc r then Inl TruncatedInput
      else if unat (rs ! r) \<noteq> length vs then Inl MalformedInput
      else Inr \<lparr>rows = r, cols = c, stored_values = vs, col_index = map unat cs, row_start = map unat rs\<rparr>)"
proof -
  let ?n = "length vs"
  define B2 where "B2 = take (k - 4 * ?n) (encode_words cs @ encode_words rs @ rest)"
  define B3 where "B3 = take (k - 4 * ?n - 4 * ?n) (encode_words rs @ rest)"
  define B4 where "B4 = take (k - 4 * ?n - 4 * ?n - 4 * Suc r) rest"
  have v: "read_words ?n (take k (encode_words vs @ encode_words cs @ encode_words rs @ rest)) =
      (if k < 4 * ?n then Inl TruncatedInput else Inr (vs, B2))"
    unfolding B2_def by (rule read_words_take)
  have c: "read_words ?n B2 = (if k - 4 * ?n < 4 * ?n then Inl TruncatedInput else Inr (cs, B3))"
    unfolding B2_def B3_def
    using read_words_take [of cs "k - 4 * ?n" "encode_words rs @ rest"] by (simp only: assms(1))
  have r: "read_words (Suc r) B3 =
      (if k - 4 * ?n - 4 * ?n < 4 * Suc r then Inl TruncatedInput else Inr (rs, B4))"
    unfolding B3_def B4_def
    using read_words_take [of rs "k - 4 * ?n - 4 * ?n" rest] by (simp only: assms(2))
  consider "k < 4 * ?n" | "\<not> k < 4 * ?n" "k - 4 * ?n < 4 * ?n"
    | "\<not> k < 4 * ?n" "\<not> k - 4 * ?n < 4 * ?n" "k - 4 * ?n - 4 * ?n < 4 * Suc r"
    | "\<not> k < 4 * ?n" "\<not> k - 4 * ?n < 4 * ?n" "\<not> k - 4 * ?n - 4 * ?n < 4 * Suc r"
    by blast
  then show ?thesis
  proof cases
    case 1
    then show ?thesis unfolding read_arrays_def v by simp
  next
    case 2
    then have "k < 4 * ?n + 4 * ?n + 4 * Suc r" by arith
    with 2 show ?thesis unfolding read_arrays_def v by (simp add: c)
  next
    case 3
    then have "k < 4 * ?n + 4 * ?n + 4 * Suc r" by arith
    with 3 show ?thesis unfolding read_arrays_def v by (simp add: c r del: read_words.simps)
  next
    case 4
    then have "\<not> k < 4 * ?n + 4 * ?n + 4 * Suc r" by arith
    with 4 show ?thesis unfolding read_arrays_def v by (simp add: c r del: read_words.simps)
  qed
qed

lemma decode_take:
  assumes "length cs = length vs" and "length rs = Suc (unat r)" and "unat n = length vs"
  shows "decode (take k (encode_words [r, c, n] @ encode_words vs @ encode_words cs @ encode_words rs @ rest)) =
     (if k < 12 + (4 * length vs + 4 * length vs + 4 * Suc (unat r)) then Inl TruncatedInput
      else if rs ! unat r \<noteq> n then Inl MalformedInput
      else Inr \<lparr>rows = unat r, cols = unat c, stored_values = vs, col_index = map unat cs,
                row_start = map unat rs\<rparr>)"
proof -
  define B1 where "B1 = take (k - 12) (encode_words vs @ encode_words cs @ encode_words rs @ rest)"
  have h: "read_words 3 (take k (encode_words [r, c, n] @ encode_words vs @ encode_words cs @ encode_words rs @ rest)) =
      (if k < 12 then Inl TruncatedInput else Inr ([r, c, n], B1))"
  proof -
    have "length [r, c, n] = 3" and "4 * (3 :: nat) = 12" by simp_all
    then show ?thesis
      unfolding B1_def
      using read_words_take [of "[r, c, n]" k "encode_words vs @ encode_words cs @ encode_words rs @ rest"]
      by (simp only:)
  qed
  have m: "(unat (rs ! unat r) \<noteq> length vs) = (rs ! unat r \<noteq> n)"
    using assms(3) by (metis unat_eq_nat_uint word_unat_eq_iff unsigned_word_eqI)
  show ?thesis
  proof (cases "k < 12")
    case True
    then show ?thesis unfolding decode_def h by simp
  next
    case False
    then have "(k - 12 < 4 * length vs + 4 * length vs + 4 * Suc (unat r)) =
        (k < 12 + (4 * length vs + 4 * length vs + 4 * Suc (unat r)))" by arith
    with False show ?thesis
      unfolding decode_def h
      using read_arrays_take [OF assms(1,2), of "unat c" "k - 12" rest] m
      by (simp add: B1_def assms(3))
  qed
qed

lemma wf_encodable: "wf_matrix m \<Longrightarrow> representable m \<Longrightarrow> encodable m"
  using wf_fields_small [of m]
  by (simp add: encodable_def wf_matrix_def representable_def list_all_iff)

lemma length_encode:
  "length (encode m) = 12 + (4 * length (stored_values m) + 4 * length (col_index m) + 4 * length (row_start m))"
  by (simp add: encode_def)

lemma decode_take_encode:
  assumes "encodable m"
  shows "decode (take k (encode m @ rest)) = (if k < length (encode m) then Inl TruncatedInput else Inr m)"
proof -
  let ?r = "of_nat (rows m) :: cint" and ?c = "of_nat (cols m) :: cint"
  let ?n = "of_nat (length (stored_values m)) :: cint"
  let ?cs = "map of_nat (col_index m) :: cint list" and ?rs = "map of_nat (row_start m) :: cint list"
  from assms have u: "unat ?r = rows m" "unat ?c = cols m" "unat ?n = length (stored_values m)"
    by (simp_all add: encodable_def unat_of_nat_small)
  from assms have l: "length ?cs = length (stored_values m)" "length ?rs = Suc (unat ?r)"
    by (simp_all add: encodable_def u)
  from assms have "\<forall>x \<in> set (col_index m). x < 2 ^ 32" and "\<forall>x \<in> set (row_start m). x < 2 ^ 32"
    by (simp_all add: encodable_def list_all_iff)
  then have i: "map unat ?cs = col_index m" "map unat ?rs = row_start m"
    by (simp_all only: map_unat_of_nat)
  have res: "\<lparr>rows = unat ?r, cols = unat ?c, stored_values = stored_values m,
      col_index = map unat ?cs, row_start = map unat ?rs\<rparr> = m"
    by (simp only: u i) simp
  from assms have last: "?rs ! unat ?r = ?n"
    by (simp add: u encodable_def)
  have enc: "encode m @ rest =
      encode_words [?r, ?c, ?n] @ encode_words (stored_values m) @ encode_words ?cs @ encode_words ?rs @ rest"
    by (simp add: encode_def)
  have len: "length (encode m) =
      12 + (4 * length (stored_values m) + 4 * length (stored_values m) + 4 * Suc (unat ?r))"
    using assms by (simp add: length_encode u encodable_def)
  show ?thesis
    unfolding enc len using decode_take [OF l u(3), of k ?c rest]
    by (simp only: last res simp_thms if_False)
qed

lemma decode_encode_append: "encodable m \<Longrightarrow> decode (encode m @ rest) = Inr m"
  using decode_take_encode [of m "length (encode m @ rest)" rest] by simp

lemma read_arrays_result:
  assumes "read_arrays r c n bs = Inr m"
  shows "\<exists>vs cs rs rest. length vs = n \<and> length cs = n \<and> length rs = Suc r \<and> unat (rs ! r) = n \<and>
     bs = encode_words vs @ encode_words cs @ encode_words rs @ rest \<and>
     m = \<lparr>rows = r, cols = c, stored_values = vs, col_index = map unat cs, row_start = map unat rs\<rparr>"
proof -
  from assms obtain vs b2 cs b3 rs rest where
    v: "read_words n bs = Inr (vs, b2)" and c: "read_words n b2 = Inr (cs, b3)" and
    r: "read_words (Suc r) b3 = Inr (rs, rest)" and u: "unat (rs ! r) = n" and
    m: "m = \<lparr>rows = r, cols = c, stored_values = vs, col_index = map unat cs, row_start = map unat rs\<rparr>"
    unfolding read_arrays_def by (auto split: sum.splits if_splits simp del: read_words.simps)
  from read_words_result [OF v] read_words_result [OF c] read_words_result [OF r] u m
  show ?thesis by blast
qed

lemma decode_result:
  assumes "decode bs = Inr m"
  shows "encodable m \<and> (\<exists>rest. bs = encode m @ rest)"
proof -
  from assms obtain h b1 where h: "read_words 3 bs = Inr (h, b1)"
    and a: "read_arrays (unat (h ! 0)) (unat (h ! 1)) (unat (h ! 2)) b1 = Inr m"
    unfolding decode_def by (auto split: sum.splits)
  from read_words_result [OF h] have lh: "length h = 3" and bs: "bs = encode_words h @ b1" by simp_all
  from lh have hh: "h = [h ! 0, h ! 1, h ! 2]"
    by (auto simp: list_eq_iff_nth_eq eval_nat_numeral less_Suc_eq)
  from read_arrays_result [OF a] obtain vs cs rs rest where
    l: "length vs = unat (h ! 2)" "length cs = unat (h ! 2)" "length rs = Suc (unat (h ! 0))"
      "unat (rs ! unat (h ! 0)) = unat (h ! 2)"
    and b1: "b1 = encode_words vs @ encode_words cs @ encode_words rs @ rest"
    and m: "m = \<lparr>rows = unat (h ! 0), cols = unat (h ! 1), stored_values = vs,
      col_index = map unat cs, row_start = map unat rs\<rparr>"
    by blast
  have e: "encodable m"
    using l by (simp add: m encodable_def list_all_iff)
  have "encode m = encode_words h @ encode_words vs @ encode_words cs @ encode_words rs"
    using l by (subst hh) (simp add: m encode_def map_of_nat_unat del: map_map)
  with bs b1 e show ?thesis by simp
qed

lemma decode_error:
  assumes "decode bs = Inl e"
  shows "e = TruncatedInput \<or> e = MalformedInput"
  using assms unfolding decode_def read_arrays_def
  by (auto split: sum.splits if_splits dest!: read_words_error simp del: read_words.simps)

section \<open>Examples\<close>

lemma enc_demo: "encode demo_matrix =
  [2,0,0,0, 3,0,0,0, 2,0,0,0,  5,0,0,0, 6,0,0,0,  0,0,0,0, 2,0,0,0,  0,0,0,0, 1,0,0,0, 2,0,0,0]"
  by (simp add: codec_eval demo_matrix_def)

lemma dec_demo: "decode [2,0,0,0, 3,0,0,0, 2,0,0,0,  5,0,0,0, 6,0,0,0,  0,0,0,0, 2,0,0,0,  0,0,0,0, 1,0,0,0, 2,0,0,0] = Inr demo_matrix"
  by (simp add: codec_eval demo_matrix_def)

lemma dec_trunc: "decode [2,0,0,0, 3,0,0,0, 2,0,0,0,  5,0,0,0, 6,0,0,0,  0,0,0,0, 2,0,0,0,  0,0,0,0, 1,0,0,0, 2,0,0] = Inl TruncatedInput"
  by (simp add: codec_eval demo_matrix_def)

lemma dec_malformed: "decode [2,0,0,0, 3,0,0,0, 2,0,0,0,  5,0,0,0, 6,0,0,0,  0,0,0,0, 2,0,0,0,  0,0,0,0, 1,0,0,0, 1,0,0,0] = Inl MalformedInput"
  by (simp add: codec_eval demo_matrix_def)

lemma enc_demo_ok: "encodable demo_matrix"
  by (simp add: encodable_def demo_matrix_def)

lemma dec_bad: "decode [1,0,0,0, 1,0,0,0, 2,0,0,0,  5,0,0,0, 6,0,0,0,  7,0,0,0, 7,0,0,0,  9,0,0,0, 2,0,0,0] =
   Inr \<lparr>rows = 1, cols = 1, stored_values = [5, 6], col_index = [7, 7], row_start = [9, 2]\<rparr>"
  by (simp add: codec_eval)

lemma bad_not_wf: "\<not> wf_matrix \<lparr>rows = 1, cols = 1, stored_values = [5, 6], col_index = [7, 7], row_start = [9, 2]\<rparr>"
  by (simp add: wf_matrix_def)

lemma decode_ill_formed:
  "\<exists>m. decode [1,0,0,0, 1,0,0,0, 2,0,0,0,  5,0,0,0, 6,0,0,0,  7,0,0,0, 7,0,0,0,  9,0,0,0, 2,0,0,0] = Inr m \<and>
        \<not> wf_matrix m"
  using dec_bad bad_not_wf by blast

section \<open>The decoder in closed form\<close>

lemma word_at_drop: "word_at i (drop (4 * k) bs) = word_at (k + i) bs"
  by (simp add: word_at_def add.commute distrib_left)

lemma read_header:
  "\<not> length bs < 12 \<Longrightarrow> read_words 3 bs = Inr ([word_at 0 bs, word_at 1 bs, word_at 2 bs], drop 12 bs)"
  by (simp add: read_words_closed upt_conv_Cons numeral_2_eq_2 del: read_words.simps)

lemma read_arrays_closed:
  "read_arrays r c n bs =
     (if length bs < 4 * (2 * n + Suc r) then Inl TruncatedInput
      else if unat (word_at (2 * n + r) bs) \<noteq> n then Inl MalformedInput
      else Inr \<lparr>rows = r, cols = c, stored_values = map (\<lambda>i. word_at i bs) [0..<n],
                col_index = map (\<lambda>i. unat (word_at (n + i) bs)) [0..<n],
                row_start = map (\<lambda>i. unat (word_at (2 * n + i) bs)) [0..<Suc r]\<rparr>)"
proof -
  define b2 where "b2 = drop (4 * n) bs"
  define b3 where "b3 = drop (4 * n) b2"
  have l2: "length b2 = length bs - 4 * n" and l3: "length b3 = length bs - 4 * n - 4 * n"
    by (simp_all add: b2_def b3_def)
  have w2: "word_at i b2 = word_at (n + i) bs" for i
    unfolding b2_def by (rule word_at_drop)
  have w3: "word_at i b3 = word_at (2 * n + i) bs" for i
    unfolding b3_def by (simp add: word_at_drop w2 add.assoc [symmetric] mult_2)
  have v: "read_words n bs =
      (if length bs < 4 * n then Inl TruncatedInput else Inr (map (\<lambda>i. word_at i bs) [0..<n], b2))"
    unfolding b2_def by (rule read_words_closed)
  have c: "read_words n b2 =
      (if length bs - 4 * n < 4 * n then Inl TruncatedInput
       else Inr (map (\<lambda>i. word_at (n + i) bs) [0..<n], b3))"
    using read_words_closed [of n b2] by (simp only: l2 w2 b3_def)
  have r: "read_words (Suc r) b3 =
      (if length bs - 4 * n - 4 * n < 4 * Suc r then Inl TruncatedInput
       else Inr (map (\<lambda>i. word_at (2 * n + i) bs) [0..<Suc r], drop (4 * Suc r) b3))"
    using read_words_closed [of "Suc r" b3] by (simp only: l3 w3)
  have nth: "map (\<lambda>i. word_at (2 * n + i) bs) [0..<Suc r] ! r = word_at (2 * n + r) bs"
    by (simp del: upt_Suc)
  consider "length bs < 4 * n" | "\<not> length bs < 4 * n" "length bs - 4 * n < 4 * n"
    | "\<not> length bs < 4 * n" "\<not> length bs - 4 * n < 4 * n" "length bs - 4 * n - 4 * n < 4 * Suc r"
    | "\<not> length bs < 4 * n" "\<not> length bs - 4 * n < 4 * n" "\<not> length bs - 4 * n - 4 * n < 4 * Suc r"
    by blast
  then show ?thesis
  proof cases
    case 1
    then have "length bs < 4 * (2 * n + Suc r)" by arith
    with 1 show ?thesis unfolding read_arrays_def v by simp
  next
    case 2
    then have "length bs < 4 * (2 * n + Suc r)" by arith
    with 2 show ?thesis unfolding read_arrays_def v by (simp add: c)
  next
    case 3
    then have "length bs < 4 * (2 * n + Suc r)" by arith
    with 3 show ?thesis unfolding read_arrays_def v by (simp add: c r del: read_words.simps upt_Suc)
  next
    case 4
    then have "\<not> length bs < 4 * (2 * n + Suc r)" by arith
    with 4 show ?thesis
      unfolding read_arrays_def v by (simp add: c r nth comp_def del: read_words.simps upt_Suc)
  qed
qed

lemma decode_closed:
  "decode bs =
     (if length bs < 12 \<or> length bs < declared_length bs then Inl TruncatedInput
      else if word_at (3 + 2 * unat (word_at 2 bs) + unat (word_at 0 bs)) bs \<noteq> word_at 2 bs
      then Inl MalformedInput
      else Inr \<lparr>rows = unat (word_at 0 bs), cols = unat (word_at 1 bs),
                stored_values = map (\<lambda>i. word_at (3 + i) bs) [0..<unat (word_at 2 bs)],
                col_index = map (\<lambda>i. unat (word_at (3 + unat (word_at 2 bs) + i) bs)) [0..<unat (word_at 2 bs)],
                row_start = map (\<lambda>i. unat (word_at (3 + 2 * unat (word_at 2 bs) + i) bs))
                  [0..<Suc (unat (word_at 0 bs))]\<rparr>)"
proof (cases "length bs < 12")
  case True
  then show ?thesis by (simp add: decode_def read_words_closed)
next
  case False
  let ?n = "unat (word_at 2 bs)" and ?r = "unat (word_at 0 bs)"
  have w: "word_at i (drop 12 bs) = word_at (3 + i) bs" for i
    using word_at_drop [of i 3 bs] by simp
  from False have t: "(length (drop 12 bs) < 4 * (2 * ?n + Suc ?r)) = (length bs < declared_length bs)"
    by (auto simp: declared_length_def)
  have u: "(unat (word_at k bs) \<noteq> ?n) = (word_at k bs \<noteq> word_at 2 bs)" for k
    by (simp add: word_unat_eq_iff)
  have "decode bs = read_arrays ?r (unat (word_at 1 bs)) ?n (drop 12 bs)"
    using False by (simp add: decode_def read_header del: read_words.simps)
  also note read_arrays_closed
  finally show ?thesis
    using False by (simp only: t w u add.assoc if_False simp_thms)
qed

section \<open>Properties\<close>

text \<open>
  C4. Round trip: \<^verbatim>\<open>Decode\<close> of the encoding of a well-formed matrix with less
  than \<open>2^32\<close> rows, columns and entries is that matrix, with the same
  dimensions, value array and entries, whatever bytes follow the encoding.
\<close>

theorem codec_round_trip:
  assumes "wf_matrix m" and "representable m"
  shows "decode (encode m @ rest) = Inr m"
  using assms by (simp add: decode_encode_append wf_encodable)

theorem codec_round_trip_witness:
  "decode (encode demo_matrix @ [1, 2, 3]) = Inr demo_matrix \<and> representable demo_matrix"
proof -
  have r: "representable demo_matrix" by (simp add: representable_def demo_matrix_def)
  from codec_round_trip [OF wf_demo_matrix r] r show ?thesis by simp
qed

text \<open>
  C12. Truncation: every proper prefix of an encoding is refused with
  \<open>TruncatedInput\<close>; no matrix is returned for it.
\<close>

theorem decode_truncated:
  assumes "encodable m" and "k < length (encode m)"
  shows "decode (take k (encode m)) = Inl TruncatedInput"
  using decode_take_encode [OF assms(1), of k "[]"] assms(2) by simp

theorem decode_truncated_witness:
  "decode (take 39 (encode demo_matrix)) = Inl TruncatedInput \<and> length (encode demo_matrix) = 40"
proof -
  have l: "length (encode demo_matrix) = 40" by (simp add: length_encode demo_matrix_def)
  then have "39 < length (encode demo_matrix)" by simp
  from decode_truncated [OF enc_demo_ok this] l show ?thesis by simp
qed



text \<open>
  C18. The errors of \<^verbatim>\<open>Decode\<close>: it fails with \<open>TruncatedInput\<close> exactly when the
  input is shorter than the header or than the length the header declares, with
  \<open>MalformedInput\<close> exactly when the input is long enough and the last row
  offset differs from the declared number of entries, and with no other error.
\<close>

theorem decode_errors:
  "decode bs = Inl e \<longleftrightarrow>
     e = TruncatedInput \<and> (length bs < 12 \<or> length bs < declared_length bs) \<or>
     e = MalformedInput \<and> 12 \<le> length bs \<and> declared_length bs \<le> length bs \<and>
       word_at (3 + 2 * unat (word_at 2 bs) + unat (word_at 0 bs)) bs \<noteq> word_at 2 bs"
  unfolding decode_closed by auto

theorem decode_errors_witness:
  "decode ((encode demo_matrix)[39 := 1]) = Inl MalformedInput \<and>
   declared_length ((encode demo_matrix)[39 := 1]) = 40"
proof -
  have d: "declared_length ((encode demo_matrix)[39 := 1]) = 40"
    by (simp add: enc_demo declared_length_def word_at_def decode_word_def)
  have "word_at (3 + 2 * unat (word_at 2 ((encode demo_matrix)[39 := 1])) +
      unat (word_at 0 ((encode demo_matrix)[39 := 1]))) ((encode demo_matrix)[39 := 1]) \<noteq>
      word_at 2 ((encode demo_matrix)[39 := 1])"
    by (simp add: enc_demo word_at_def decode_word_def)
  with decode_errors [of "(encode demo_matrix)[39 := 1]" MalformedInput] d show ?thesis
    by (simp add: length_encode demo_matrix_def)
qed

text \<open>
  C35. A field and its four bytes: decoding the bytes of a field gives the field,
  and encoding the field of four bytes gives the bytes.
\<close>

theorem word_bytes:
  "decode_word (encode_word x) = x \<and> length (encode_word x) = 4 \<and>
   (length bs = 4 \<longrightarrow> encode_word (decode_word bs) = bs)"
  by (simp add: encode_decode_word)

theorem word_bytes_witness:
  "encode_word (decode_word [4, 3, 2, 1]) = [4, 3, 2, 1] \<and> decode_word [4, 3, 2, 1] = 0x01020304"
  using word_bytes [of 0 "[4, 3, 2, 1]"] by (simp add: decode_word_def)

text \<open>
  C26. What \<^verbatim>\<open>Decode\<close> accepts: it returns a matrix exactly when the input
  begins with the encoding of that matrix and the matrix is encodable, that is,
  its arrays have the lengths that its header declares and its fields fit 32
  bits. Nothing else is required: neither ascending columns, nor columns within
  the dimensions, nor ascending row offsets, so a load does not establish the
  invariant of the layout (\<open>decode_ill_formed\<close> is such an input).
\<close>

theorem decode_accepts:
  "decode bs = Inr m \<longleftrightarrow> encodable m \<and> take (length (encode m)) bs = encode m"
proof
  assume "decode bs = Inr m"
  from decode_result [OF this] show "encodable m \<and> take (length (encode m)) bs = encode m"
    by auto
next
  assume a: "encodable m \<and> take (length (encode m)) bs = encode m"
  then have "bs = encode m @ drop (length (encode m)) bs"
    by (metis append_take_drop_id)
  with a decode_encode_append [of m "drop (length (encode m)) bs"] show "decode bs = Inr m"
    by simp
qed

end
