(* ===== verification/Program.thy ===== *)
theory Program
  imports Command_Line Printing Matrix_Codec Matrix_Storage
begin

text \<open>
  \<^verbatim>\<open>save_matrix\<close> (lines 165-170), \<^verbatim>\<open>load_matrix\<close> (lines 172-176) and \<^verbatim>\<open>main\<close>
  (lines 187-259) of \<^verbatim>\<open>src/main.cpp\<close>. \<^verbatim>\<open>main\<close> is the composition of the other
  theories: the command line, the file, the analysis of the text, the printed
  statistics, and then the part that exercises the matrix: four assignments,
  each followed by \<^verbatim>\<open>show_array\<close> of \<^verbatim>\<open>m.value_data()\<close>, the whole array of the
  library with its spare elements; then the matrix printed, saved to
  \<^verbatim>\<open>matrix.bin\<close>, loaded into a second matrix, and that one printed.

  Neither \<^verbatim>\<open>save_matrix\<close> nor \<^verbatim>\<open>load_matrix\<close> tests whether its stream is open. The
  stream of a file that does not exist yields no byte, as in \<^verbatim>\<open>read_file\<close>, so a
  load of a missing file fails in the archive as a load of an empty file does. A
  stream that cannot be opened for writing makes the archive fail when it
  writes.

  An exception that leaves a library call (a failed stream under an archive, an
  index out of range) is not caught anywhere in \<^verbatim>\<open>main\<close>: the program ends there,
  which is the outcome \<open>Abort\<close> with the output written so far.
\<close>

section \<open>Saving and loading\<close>

definition save_matrix :: "Matrix \<Rightarrow> string \<Rightarrow> World \<Rightarrow> error + World" where
  "save_matrix m file_name w =
     (if file_name \<in> unwritable w then Inl IOFailure
      else Inr (w\<lparr>files := (files w)(file_name \<mapsto> map char_of_byte (encode m))\<rparr>))"

definition load_matrix :: "string \<Rightarrow> World \<Rightarrow> error + Matrix" where
  "load_matrix file_name w =
     decode (map byte_of_char (case files w file_name of None \<Rightarrow> [] | Some contents \<Rightarrow> contents))"

section \<open>The matrix part of \<^verbatim>\<open>main\<close>\<close>

text \<open>
  \<open>write_and_show\<close> is one pair of statements \<^verbatim>\<open>m(i, j) = v; show_array(m.value_data());\<close>
  and \<open>print_matrix\<close> is \<^verbatim>\<open>std::cout << m << std::endl\<close>, which writes the
  dimensions and every row in full.
\<close>

definition uncaught :: "error + 'a \<Rightarrow> World \<Rightarrow> 'a outcome" where
  "uncaught r w = (case r of Inl e \<Rightarrow> Abort w | Inr x \<Rightarrow> Return x w)"

definition write_and_show ::
  "int \<Rightarrow> int \<Rightarrow> cint \<Rightarrow> compressed_matrix \<Rightarrow> World \<Rightarrow> compressed_matrix outcome" where
  "write_and_show row col v m w =
     and_then (uncaught (assign row col v m) w) (\<lambda>m' w'. Return m' (show_array (value_data m') w'))"

definition dense_rows :: "Matrix \<Rightarrow> cint list list" where
  "dense_rows m = map (\<lambda>r. map (dense m r) [0..<cols m]) [0..<rows m]"

definition print_matrix :: "Matrix \<Rightarrow> World \<Rightarrow> World" where
  "print_matrix m w = put [OMat (rows m) (cols m) (dense_rows m), OEndl] w"

definition matrix_demo :: "World \<Rightarrow> int outcome" where
  "matrix_demo w0 =
     and_then (uncaught (new_matrix 10 10) w0) (\<lambda>m w.
     and_then (write_and_show 0 5 1 m w) (\<lambda>m w.
     and_then (write_and_show 0 6 2 m w) (\<lambda>m w.
     and_then (write_and_show 0 4 3 m w) (\<lambda>m w.
     and_then (write_and_show 0 4 7 m w) (\<lambda>m w.
       let w1 = put [OStr ''Save matrix'', OEndl] (print_matrix (layout m) w)
       in case save_matrix (layout m) ''matrix.bin'' w1 of
            Inl e \<Rightarrow> Abort w1
          | Inr w2 \<Rightarrow>
              and_then (uncaught (load_matrix ''matrix.bin'' w2) (put [OStr ''Load matrix'', OEndl] w2))
                (\<lambda>m2 w. Return 0 (print_matrix m2 w)))))))"

section \<open>\<^verbatim>\<open>main\<close>\<close>

text \<open>Lines 196-198: the complaint about a missing \<^verbatim>\<open>--input\<close>, after which \<^verbatim>\<open>main\<close> goes on.\<close>

definition prompt :: "Options \<Rightarrow> World \<Rightarrow> World" where
  "prompt options w = (if input options = [] then put [OStr ''set --input file'', OEndl] w else w)"

definition main :: "int \<Rightarrow> parse_result \<Rightarrow> World \<Rightarrow> int outcome" where
  "main ac parsed w0 =
     and_then (parse_command_line ac parsed options_init w0) (\<lambda>options w1.
       let w2 = prompt options w1;
           (the_text, w3) = read_file (input options) w2;
           (dictionary, stats) = analyse_text the_text ([], stats_init)
       in matrix_demo (print_stats stats w3))"

text \<open>A command line that names the input file, and a world in which that file exists.\<close>

definition example_vm :: variables_map where
  "example_vm = \<lparr>vm_help = False, vm_dim = None, vm_input = Some ''in.txt'', vm_matrix = None,
     vm_print_matrix = False, vm_print_chains = False\<rparr>"

definition example_world :: World where
  "example_world = \<lparr>cout = [], cerr = [], files = [''in.txt'' \<mapsto> ''a b. a''], unwritable = {}\<rparr>"

section \<open>What the matrix part writes\<close>

text \<open>
  The layout of the matrix after the four assignments, the line that
  \<^verbatim>\<open>show_array\<close> writes for an array, the line for a matrix, the four arrays
  shown, each of the ten elements of the capacity, and the whole output of the
  matrix part.
\<close>

definition final_matrix :: Matrix where
  "final_matrix = \<lparr>rows = 10, cols = 10, stored_values = [7, 1, 2], col_index = [4, 5, 6],
     row_start = [0, 3, 3, 3, 3, 3, 3, 3, 3, 3, 3]\<rparr>"

definition array_line :: "cint list \<Rightarrow> out_item list" where
  "array_line a = concat (map (\<lambda>e. [OInt (sint e), OStr '' '']) a) @ [OEndl]"

definition matrix_line :: "Matrix \<Rightarrow> out_item list" where
  "matrix_line m = [OMat (rows m) (cols m) (dense_rows m), OEndl]"

definition shown_arrays :: "out_item list" where
  "shown_arrays =
     array_line [1, 0, 0, 0, 0, 0, 0, 0, 0, 0] @ array_line [1, 2, 0, 0, 0, 0, 0, 0, 0, 0] @
     array_line [3, 1, 2, 0, 0, 0, 0, 0, 0, 0] @ array_line [7, 1, 2, 0, 0, 0, 0, 0, 0, 0]"

definition demo_output :: "out_item list" where
  "demo_output =
     shown_arrays @ matrix_line final_matrix @
     [OStr ''Save matrix'', OEndl, OStr ''Load matrix'', OEndl] @ matrix_line final_matrix"

section \<open>Facts\<close>

lemma show_array_put: "show_array a w = put (array_line a) w"
  by (simp add: show_array_def fold_show_element array_line_def put_put)

lemma print_matrix_put: "print_matrix m w = put (matrix_line m) w"
  by (simp add: print_matrix_def matrix_line_def)

lemma uncaught_simps [simp]: "uncaught (Inl e) w = Abort w" "uncaught (Inr x) w = Return x w"
  by (simp_all add: uncaught_def)

lemma four_writes:
  "write_and_show 0 5 1
     \<lparr>layout = \<lparr>rows = 10, cols = 10, stored_values = [], col_index = [],
                 row_start = [0, 0, 0, 0, 0, 0, 0, 0, 0, 0, 0]\<rparr>, capacity = 10\<rparr> w =
   Return \<lparr>layout = \<lparr>rows = 10, cols = 10, stored_values = [1], col_index = [5],
                        row_start = [0, 1, 1, 1, 1, 1, 1, 1, 1, 1, 1]\<rparr>, capacity = 10\<rparr>
     (put (array_line [1, 0, 0, 0, 0, 0, 0, 0, 0, 0]) w)"
  "write_and_show 0 6 2
     \<lparr>layout = \<lparr>rows = 10, cols = 10, stored_values = [1], col_index = [5],
                 row_start = [0, 1, 1, 1, 1, 1, 1, 1, 1, 1, 1]\<rparr>, capacity = 10\<rparr> w =
   Return \<lparr>layout = \<lparr>rows = 10, cols = 10, stored_values = [1, 2], col_index = [5, 6],
                        row_start = [0, 2, 2, 2, 2, 2, 2, 2, 2, 2, 2]\<rparr>, capacity = 10\<rparr>
     (put (array_line [1, 2, 0, 0, 0, 0, 0, 0, 0, 0]) w)"
  "write_and_show 0 4 3
     \<lparr>layout = \<lparr>rows = 10, cols = 10, stored_values = [1, 2], col_index = [5, 6],
                 row_start = [0, 2, 2, 2, 2, 2, 2, 2, 2, 2, 2]\<rparr>, capacity = 10\<rparr> w =
   Return \<lparr>layout = \<lparr>rows = 10, cols = 10, stored_values = [3, 1, 2], col_index = [4, 5, 6],
                        row_start = [0, 3, 3, 3, 3, 3, 3, 3, 3, 3, 3]\<rparr>, capacity = 10\<rparr>
     (put (array_line [3, 1, 2, 0, 0, 0, 0, 0, 0, 0]) w)"
  "write_and_show 0 4 7
     \<lparr>layout = \<lparr>rows = 10, cols = 10, stored_values = [3, 1, 2], col_index = [4, 5, 6],
                 row_start = [0, 3, 3, 3, 3, 3, 3, 3, 3, 3, 3]\<rparr>, capacity = 10\<rparr> w =
   Return demo_storage (put (array_line [7, 1, 2, 0, 0, 0, 0, 0, 0, 0]) w)"
  by (simp_all add: write_and_show_def assign_def filled_def value_data_def csr_defs show_array_put
      demo_storage_def replicate_numeral_Cons)

lemma layout_demo_storage [simp]: "layout demo_storage = final_matrix"
  by (simp add: demo_storage_def final_matrix_def)

lemma wf_final_matrix: "wf_matrix final_matrix"
  by (simp add: final_matrix_def csr_abs_defs)

lemma encodable_final_matrix: "encodable final_matrix"
  by (simp add: final_matrix_def encodable_def)

lemma load_save:
  assumes "encodable m" and "save_matrix m file_name w = Inr w'"
  shows "load_matrix file_name w' = Inr m"
  using assms decode_encode_append [of m "[]"]
  by (auto simp: save_matrix_def load_matrix_def split: if_splits)

lemma load_missing: "files w file_name = None \<Longrightarrow> load_matrix file_name w = Inl TruncatedInput"
  by (simp add: load_matrix_def decode_closed)

lemma matrix_demo_result:
  "matrix_demo w =
     (if ''matrix.bin'' \<in> unwritable w
      then Abort (put (shown_arrays @ matrix_line final_matrix @ [OStr ''Save matrix'', OEndl]) w)
      else Return 0 ((put demo_output w)
             \<lparr>files := (files w)(''matrix.bin'' \<mapsto> map char_of_byte (encode final_matrix))\<rparr>))"
proof -
  have l: "load_matrix ''matrix.bin'' (w'\<lparr>files := (files w')(''matrix.bin'' \<mapsto> map char_of_byte (encode final_matrix))\<rparr>) = Inr final_matrix" for w'
    using decode_encode_append [OF encodable_final_matrix, of "[]"] by (simp add: load_matrix_def)
  show ?thesis
    unfolding matrix_demo_def new_matrix_10 uncaught_simps and_then_simps four_writes
    by (simp add: print_matrix_put put_put save_matrix_def l demo_output_def shown_arrays_def put_def)
qed

lemma matrix_demo_frame [simp]:
  "cerr (world_of (matrix_demo w)) = cerr w"
  "unwritable (world_of (matrix_demo w)) = unwritable w"
  by (simp_all add: matrix_demo_result)

lemma matrix_demo_cout:
  "cout (world_of (matrix_demo w)) =
     cout w @ (if ''matrix.bin'' \<in> unwritable w
               then shown_arrays @ matrix_line final_matrix @ [OStr ''Save matrix'', OEndl]
               else demo_output)"
  by (simp add: matrix_demo_result)

lemma dense_rows_final_matrix:
  "dense_rows final_matrix =
     [0, 0, 0, 0, 7, 1, 2, 0, 0, 0] # replicate 9 [0, 0, 0, 0, 0, 0, 0, 0, 0, 0]"
  by (simp add: dense_rows_def final_matrix_def dense_def entry_def row_cols_def row_vals_def
      slice_def upt_conv_Cons eval_nat_numeral)

section \<open>\<^verbatim>\<open>main\<close> by the outcome of the command line\<close>

lemma main_Exit:
  "parse_command_line ac parsed options_init w = Exit n w' \<Longrightarrow> main ac parsed w = Exit n w'"
  by (simp add: main_def)

lemma main_Return:
  assumes "parse_command_line ac parsed options_init w = Return options w1"
  shows "main ac parsed w =
     matrix_demo (print_stats (snd (analyse_text (fst (read_file (input options) (prompt options w1)))
         ([], stats_init)))
       (snd (read_file (input options) (prompt options w1))))"
  unfolding main_def assms and_then_simps
  by (simp add: Let_def split_beta)

lemma prompt_frame [simp]:
  "unwritable (prompt options w) = unwritable w" "files (prompt options w) = files w"
  "cerr (prompt options w) = cerr w"
  by (simp_all add: prompt_def)

lemma main_Return_ends:
  assumes "parse_command_line ac parsed options_init w = Return options w1"
  shows "status_of (main ac parsed w) = (if ''matrix.bin'' \<in> unwritable w1 then None else Some 0)"
  unfolding main_Return [OF assms] matrix_demo_result by simp

lemma matrix_demo_files:
  "files (world_of (matrix_demo w)) =
     (case matrix_demo w of
        Return n w' \<Rightarrow> (files w)(''matrix.bin'' \<mapsto> map char_of_byte (encode final_matrix))
      | Exit n w' \<Rightarrow> files w
      | Abort w' \<Rightarrow> files w)"
  by (simp add: matrix_demo_result)

lemma main_Return_files:
  assumes "parse_command_line ac parsed options_init w = Return options w1"
  shows "files (world_of (main ac parsed w)) =
     (case main ac parsed w of
        Return n w' \<Rightarrow> (files w1)(''matrix.bin'' \<mapsto> map char_of_byte (encode final_matrix))
      | Exit n w' \<Rightarrow> files w1
      | Abort w' \<Rightarrow> files w1)"
  unfolding main_Return [OF assms] matrix_demo_files by (simp split: outcome.splits)

lemma toks: "word_tokens ''a b. a'' = [''a'', ''b'', ''a'']" "sentence_tokens ''a b. a'' = [''a b'', '' a'']"
  "word_tokens ''a b'' = [''a'', ''b'']" "word_tokens '' a'' = [''a'']"
  by (simp_all add: text_stats_eval)

section \<open>Properties\<close>

text \<open>
  C6. The matrix part of \<^verbatim>\<open>main\<close>, when \<^verbatim>\<open>matrix.bin\<close> can be written, returns 0
  after showing \<^verbatim>\<open>m.value_data()\<close> four times. The array has the ten elements of
  the capacity of the 10 by 10 matrix and is shown as \<open>1 0 0 0 0 0 0 0 0 0\<close>,
  then with \<open>1 2\<close>, \<open>3 1 2\<close> and \<open>7 1 2\<close> in front of the zeros, as the comments
  of lines 237-243 say: the third write goes in front of the two entries of its
  row, the fourth overwrites it in place. The matrix printed after the load is
  the matrix printed before the save, and \<^verbatim>\<open>matrix.bin\<close> holds its encoding.
\<close>

theorem matrix_demo_trace:
  assumes "''matrix.bin'' \<notin> unwritable w"
  shows "matrix_demo w =
     Return 0 ((put demo_output w)
       \<lparr>files := (files w)(''matrix.bin'' \<mapsto> map char_of_byte (encode final_matrix))\<rparr>)"
  using assms by (simp add: matrix_demo_result)

theorem matrix_demo_trace_witness:
  "matrix_demo \<lparr>cout = [], cerr = [], files = Map.empty, unwritable = {}\<rparr> =
     Return 0 \<lparr>cout = demo_output, cerr = [],
       files = [''matrix.bin'' \<mapsto> map char_of_byte (encode final_matrix)], unwritable = {}\<rparr>"
  using matrix_demo_trace [of "\<lparr>cout = [], cerr = [], files = Map.empty, unwritable = {}\<rparr>"]
  by (simp add: put_def)

text \<open>
  C20. Load after save: a well-formed matrix with less than \<open>2^32\<close> rows, columns
  and entries that was saved to a file is what a load of that file returns, and
  the save changes no other file.
\<close>

theorem load_after_save:
  assumes "wf_matrix m" and "representable m" and "save_matrix m file_name w = Inr w'"
  shows "load_matrix file_name w' = Inr m \<and> (\<forall>f. f \<noteq> file_name \<longrightarrow> files w' f = files w f)"
  using load_save [OF wf_encodable [OF assms(1,2)] assms(3)] assms(3)
  by (auto simp: save_matrix_def split: if_splits)

theorem load_after_save_witness:
  "load_matrix ''m.bin''
     \<lparr>cout = [], cerr = [], files = [''m.bin'' \<mapsto> map char_of_byte (encode demo_matrix)], unwritable = {}\<rparr> =
   Inr demo_matrix"
proof -
  have r: "representable demo_matrix" by (simp add: representable_def demo_matrix_def)
  have s: "save_matrix demo_matrix ''m.bin'' \<lparr>cout = [], cerr = [], files = Map.empty, unwritable = {}\<rparr> =
      Inr \<lparr>cout = [], cerr = [], files = [''m.bin'' \<mapsto> map char_of_byte (encode demo_matrix)], unwritable = {}\<rparr>"
    by (simp add: save_matrix_def)
  from load_after_save [OF wf_demo_matrix r s] show ?thesis by simp
qed

end
