(* ===== verification/Spec2Isabelle.thy ===== *)
theory Spec2Isabelle
  imports NGram_Prelude Char_Class Tokenizer Ordered_Map Text_Stats Console Command_Line Printing
    Sparse_Matrix Matrix_Layout Matrix_Storage Matrix_Codec Program
begin

text \<open>
  A verification development for \<^verbatim>\<open>n-gram-text-gen\<close>, whose source is the single file
  \<^verbatim>\<open>src/main.cpp\<close>.

  \<^bold>\<open>The program.\<close> \<^verbatim>\<open>main\<close> parses the command line into \<^verbatim>\<open>Options\<close>
  (\<^verbatim>\<open>parse_command_line\<close>), reads the input file (\<^verbatim>\<open>read_file\<close>), splits the text into
  sentences at \<^verbatim>\<open>.?!;\<close> and hands each sentence to \<^verbatim>\<open>fill_dictionary\<close>, which splits
  it into words, counts them in a \<^verbatim>\<open>std::map<string,int>\<close> and updates the global
  \<^verbatim>\<open>Stats\<close>. \<^verbatim>\<open>main\<close> then derives the number of distinct words and the highest word
  count, prints the statistics (\<^verbatim>\<open>print_stats\<close>), and finally exercises a
  \<^verbatim>\<open>boost::numeric::ublas::compressed_matrix<int>\<close>: four element writes, the array
  \<^verbatim>\<open>m.value_data()\<close> shown after each (\<^verbatim>\<open>show_array\<close>), the matrix printed, saved to
  \<^verbatim>\<open>matrix.bin\<close> (\<^verbatim>\<open>save_matrix\<close>), loaded back (\<^verbatim>\<open>load_matrix\<close>) and printed again.
  \<^verbatim>\<open>remove_predicate\<close>, \<^verbatim>\<open>clean_text\<close> and \<^verbatim>\<open>print_dictionary\<close> are defined but only
  called from code that is commented out.

  The specification of the repository describes the sparse matrix and its binary
  codec as the core and the text processing as a collaborator. The matrix and the
  archive are library code that is not under \<^verbatim>\<open>src/\<close>; their models here follow the
  specification. Everything else is translated from \<^verbatim>\<open>src/main.cpp\<close>. Where the
  two differ the model follows the source: what \<^verbatim>\<open>main\<close> shows is the array of the
  library with its spare elements, as the comments of lines 237-243 give it,
  and not only the stored values of the specification; \<^verbatim>\<open>load_matrix\<close> does not
  test whether the file could be opened.

  \<^bold>\<open>Theories, in the order of their imports.\<close>

  \<^item> \<open>NGram_Prelude\<close>: the machine types (\<^verbatim>\<open>int\<close> is \<open>cint\<close>, a 32-bit word read
    through \<open>sint\<close>; a byte is an 8-bit word), the bound \<open>INT_MAX\<close>, the fact
    collections (\<open>cclass_defs\<close>, \<open>tok_simps\<close>, \<open>omap_simps\<close>, \<open>csr_defs\<close>), and the
    shared lemmas on words, scanners, slices of arrays and concatenations.

  \<^item> \<open>Char_Class\<close>: the predicates of \<^verbatim>\<open><cctype>\<close> in the "C" locale;
    \<open>remove_predicate\<close> (lines 94-100) and \<open>clean_text\<close> (lines 102-106) with the
    erase-remove idiom as \<open>remove_if\<close> and \<open>erase\<close>. The theorems show that the
    predicate holds of every character and that \<open>clean_text\<close> therefore erases
    its whole argument.

  \<^item> \<open>Tokenizer\<close>: one scanner, \<open>next_token\<close>, and the iteration \<open>tokens\<close> over
    it, instantiated with the delimiters of \<^verbatim>\<open>boost::tokenizer<>\<close> (white space and
    punctuation; \<open>word_tokens\<close>, line 122) and of \<^verbatim>\<open>char_separator(".?!;")\<close>
    (\<open>sentence_tokens\<close>, lines 203-205). \<open>tokens\<close> is a \<open>function\<close> whose
    termination is proved from \<open>next_token_shorter\<close>. The lemmas relate it to the
    reference definition \<open>fields\<close>, show that tokens are non-empty and free of
    delimiters, that no other character is lost, that at most \<open>(n + 1) div 2\<close>
    tokens come out of \<open>n\<close> characters, and that the words of the sentences of
    a text are the words of the text (\<open>sentence_words\<close>).

  \<^item> \<open>Ordered_Map\<close>: \<^verbatim>\<open>std::map\<close> as the list of its entries in ascending order
    of the keys (\<open>omap\<close>), with \<open>omap_insert\<close> returning the position of the key
    and whether it was inserted, as \<^verbatim>\<open>insert\<close> returns iterator and flag, and
    \<open>insert_or_increment\<close> for the idiom of lines 128-132 and 138-142. The
    abstract view is \<open>map_of\<close>; \<open>omap_inv\<close> is the invariant, \<open>bump\<close> the
    abstract counter update, and the lemmas are the refinement between the two,
    for one call and for a \<open>fold\<close> of calls.

  \<^item> \<open>Text_Stats\<close>: the record \<open>Stats\<close> (lines 24-29), \<open>fill_dictionary\<close> (lines
    118-144) with its loop body \<open>count_token\<close>, and \<open>analyse_text\<close>, which is
    lines 203-215 of \<^verbatim>\<open>main\<close>. The global \<^verbatim>\<open>stats\<close> is passed and returned. The
    theorems give every field of \<open>Stats\<close> and the dictionary after the analysis
    in terms of \<open>word_tokens\<close> and \<open>sentence_tokens\<close> of the text.

  \<^item> \<open>Console\<close>: the world outside the program: \<^verbatim>\<open>cout\<close> and \<^verbatim>\<open>cerr\<close> as lists of
    the items written to them, the files by name, the names that cannot be opened
    for writing; the three ways to end (\<open>Exit\<close>, \<open>Return\<close>, \<open>Abort\<close>) with
    the sequencing \<open>and_then\<close>; and \<open>read_file\<close> (lines 84-92).

  \<^item> \<open>Command_Line\<close>: \<open>Options\<close> (lines 17-22) and \<open>parse_command_line\<close> (lines
    37-82). What the library parser returns or throws is the parameter
    \<open>parse_result\<close>; the function itself, with both \<^verbatim>\<open>exit\<close> calls and both
    \<^verbatim>\<open>catch\<close> clauses, is modelled in full.

  \<^item> \<open>Printing\<close>: \<open>print_dictionary\<close> (lines 108-116), \<open>print_stats\<close> (lines
    146-163) and \<open>show_array\<close> (lines 178-184), each loop a \<open>fold\<close> of its
    body, with the output of each in closed form.

  \<^item> \<open>Sparse_Matrix\<close>: the matrix in compressed-row layout, as the record
    \<open>Matrix\<close> of the three arrays and the dimensions, with \<open>construct\<close>,
    \<open>set_elem\<close>, \<open>get_elem\<close> and \<open>value_array\<close>. The invariant is
    \<open>wf_matrix\<close>, the abstract view is the function \<open>dense\<close> from coordinates
    to values (and \<open>entry\<close>, which tells a stored zero from an absent entry).
    The lemmas are built in layers: one row as a sorted association list
    (\<open>row_lookup\<close>, \<open>row_overwrite\<close>, \<open>row_insert\<close>), the rows of a matrix
    after a write (\<open>overwrite_rows\<close>, \<open>insert_rows\<close>), the invariant
    (\<open>wf_set_elem\<close>), and the refinement (\<open>entry_set_elem\<close>,
    \<open>dense_set_elem\<close>).

  \<^item> \<open>Matrix_Layout\<close>: the stored coordinates in the order of the value array
    (\<open>stored_coords\<close>), the inductive predicate \<open>reachable\<close> of the matrices
    that a construction and writes can produce, the proof that the
    representation is canonical (\<open>matrix_ext\<close>, \<open>entry_inject\<close>) and that
    every well-formed matrix is reachable (\<open>wf_reachable\<close>, by the writes
    \<open>writes_of\<close>), so that \<open>wf_matrix\<close> is exactly reachability; and the stored
    coordinates after a run of writes (\<open>stored_coords_run\<close>, \<open>stored_count\<close>).

  \<^item> \<open>Matrix_Storage\<close>: the object \<^verbatim>\<open>Matrix m\<close> of \<^verbatim>\<open>main\<close> (lines 32 and 234) as
    the record \<open>compressed_matrix\<close> of the layout and the capacity of the
    arrays; \<open>new_matrix\<close> is the constructor, \<open>assign\<close> is \<^verbatim>\<open>m(i, j) = v\<close>
    (\<open>set_elem\<close> on the layout, and the growth of the capacity when the arrays
    are full), \<open>value_data\<close> is \<^verbatim>\<open>m.value_data()\<close>: the stored values followed by
    zeros up to the capacity. The invariant \<open>wf_storage\<close> adds to \<open>wf_matrix\<close>
    that the stored values fit the capacity; the lemmas show that construction
    and assignment keep it and that the layout of an assignment is the write of
    \<open>Sparse_Matrix\<close>, so every theorem on the layout applies to the object.

  \<^item> \<open>Matrix_Codec\<close>: \<open>encode\<close> and \<open>decode\<close> over bytes, fields of 32 bits in
    little-endian order, with the reader \<open>read_words\<close> for one array. The
    lemmas give the reader and the decoder in closed form (\<open>read_words_closed\<close>,
    \<open>decode_closed\<close>), the decoder on every prefix of an encoding
    (\<open>decode_take_encode\<close>), and from these the round trip, the two errors and
    their exact conditions.

  \<^item> \<open>Program\<close>: \<open>save_matrix\<close> (lines 165-170), \<open>load_matrix\<close> (lines
    172-176), the matrix part of \<^verbatim>\<open>main\<close> (\<open>matrix_demo\<close>, lines 234-258, with
    \<open>write_and_show\<close> for an assignment followed by \<^verbatim>\<open>show_array(m.value_data())\<close>)
    and \<open>main\<close> (lines 187-259) as the composition of all of the above. Neither
    function tests its stream: a save to a file that cannot be opened fails
    (\<open>IOFailure\<close>), a load of a file that is missing reads no byte and fails in
    the decoder (\<open>load_missing\<close>); \<^verbatim>\<open>main\<close> catches neither, so both end the
    program as \<open>Abort\<close>.

  \<^item> \<open>Spec2Isabelle\<close> (this theory): the properties of \<^verbatim>\<open>main\<close> that span the
    components.

  \<^bold>\<open>Conventions.\<close> A definition that models code has the name of the function,
  type or field it models. Definitions that only serve to state properties
  (invariants, abstractions, closed forms, examples) are specification, not
  model: \<open>omap_inv\<close>, \<open>bump\<close>, \<open>counts_map\<close>, \<open>fields\<close>, \<open>word_counts\<close>,
  \<open>wf_matrix\<close>, \<open>entry\<close>, \<open>dense\<close>, \<open>stored_coords\<close>, \<open>nonzero_coords\<close>,
  \<open>reachable\<close>, \<open>entry_write\<close>, \<open>writes_of\<close>, \<open>wf_storage\<close>,
  \<open>representable\<close>, \<open>encodable\<close>, \<open>declared_length\<close>, \<open>stats_lines\<close>,
  \<open>shown_arrays\<close>, \<open>demo_output\<close> and the like. Errors are values: \<open>error + 'a\<close> for the
  matrix and the codec, \<open>outcome\<close> for functions that can end the program.
  Every definition is executable; the witnesses evaluate them by \<open>simp\<close>.

  \<^bold>\<open>Bounds.\<close> The counters of the program are \<^verbatim>\<open>int\<close>. The theorems that read
  a counter as a number assume a text of at most \<open>INT_MAX = 2^31 - 1\<close>
  characters; this bounds the number of words of the text and of every sentence
  (\<open>length_tokens_le\<close>, \<open>sentences_small\<close>), so no counter wraps. Beyond the
  bound the C++ program has undefined behaviour and the model, which wraps, says
  nothing about it. The codec stores every field in 32 bits; the round trip
  assumes fewer than \<open>2^32\<close> rows, columns and entries (\<open>representable\<close>),
  which with the invariant bounds every field. The capacity of the 10 by 10
  matrix of \<^verbatim>\<open>main\<close> is ten elements (the smaller dimension); the three entries
  that \<^verbatim>\<open>main\<close> stores fit, so the array shown has ten elements throughout, and
  \<open>growth_example\<close> shows the growth on a matrix that exceeds its capacity. The
  spare elements are taken as zero, as the comments of the source show them.
  No definition needs fuel: all
  loops of the program run over a finite container, and the tokenizer
  terminates because every token consumes at least one character.

  \<^bold>\<open>Not modelled.\<close> The parsing of \<^verbatim>\<open>argv\<close> by \<^verbatim>\<open>boost::program_options\<close> (its
  result is an input), the formatting of numbers, strings, the option description
  and matrices into characters (an output stream is the list of operands), the
  internals of the ublas matrix and of the boost archive beyond what the
  specification states and the capacity of the arrays (the index arrays of the
  library, which like the values have spare elements; the header of the
  archive), the locale (the
  program never sets one), and the code of \<^verbatim>\<open>main\<close> that is commented out.
\<close>

section \<open>The program as a whole\<close>

text \<open>
  C15. How \<^verbatim>\<open>main\<close> ends: with status 1 after an exception of the command line
  parser that derives from \<^verbatim>\<open>std::exception\<close>; with status 0 after the help text;
  in every other case, also after an exception of unknown type, it runs to the
  end and returns 0, unless \<^verbatim>\<open>matrix.bin\<close> cannot be written, and then it ends
  without a status, by the exception of the archive.
\<close>

theorem main_ends:
  "status_of (main ac parsed w) =
     (case parsed of
        Std_Exception what \<Rightarrow> Some 1
      | Parsed vm \<Rightarrow>
          if ac = 1 \<or> vm_help vm then Some 0
          else if ''matrix.bin'' \<in> unwritable w then None else Some 0
      | Other_Exception \<Rightarrow> if ''matrix.bin'' \<in> unwritable w then None else Some 0)"
proof (cases parsed)
  case (Parsed vm)
  show ?thesis
  proof (cases "ac = 1 \<or> vm_help vm")
    case True
    then show ?thesis
      using main_Exit [OF parse_help [OF True, of options_init w]] by (simp add: Parsed)
  next
    case False
    then have f: "ac \<noteq> 1" "\<not> vm_help vm" by simp_all
    from main_Return_ends [OF parse_returns [OF f, of options_init w]] False
    show ?thesis by (simp add: Parsed)
  qed
next
  case (Std_Exception what)
  then show ?thesis
    using main_Exit [OF parse_exception [of ac what options_init w]] by simp
next
  case Other_Exception
  have "parse_command_line ac Other_Exception options_init w =
      Return options_init (put_err [OStr ''Exception of unknown type!\<newline>''] w)"
    by (simp add: parse_command_line_def)
  from main_Return_ends [OF this] show ?thesis by (simp add: Other_Exception)
qed

text \<open>
  C5. The output of a run with an input file. When \<^verbatim>\<open>main\<close> is called with
  arguments and without \<^verbatim>\<open>--help\<close>, \<^verbatim>\<open>--input\<close> names a file that exists and has
  at most \<open>INT_MAX\<close> characters, and \<^verbatim>\<open>matrix.bin\<close> can be written, then \<^verbatim>\<open>main\<close>
  prints the dimension line, then the number of words of the text, the number
  of distinct words, the highest number of occurrences of a word and the
  histogram of the sentence lengths, then the output of the matrix part
  (\<open>demo_output\<close>, in which \<^verbatim>\<open>m.value_data()\<close> is shown with its spare elements).
\<close>

theorem main_statistics:
  assumes "ac \<noteq> 1" and "\<not> vm_help vm" and "vm_input vm = Some file_name" and "file_name \<noteq> []"
    and "files w file_name = Some the_text" and "length the_text \<le> INT_MAX"
    and "''matrix.bin'' \<notin> unwritable w"
  shows "cout (world_of (main ac (Parsed vm) w)) =
     cout w @
     [OStr ''Dimension of the matrix = '', OInt (sint (case vm_dim vm of Some d \<Rightarrow> d | None \<Rightarrow> 2)), OEndl] @
     stats_lines (int (length (word_tokens the_text))) (int (card (set (word_tokens the_text))))
       (int (Max (insert 0 (count_list (word_tokens the_text) ` set (word_tokens the_text))))) @
     concat (map length_line
       (fold insert_or_increment (map int (filter (\<lambda>n. 0 < n) (word_counts (sentence_tokens the_text)))) [])) @
     demo_output"
proof -
  let ?options = "options_init\<lparr>print_chains := print_chains options_init \<or> vm_print_chains vm,
      input := file_name, dim := (case vm_dim vm of Some d \<Rightarrow> d | None \<Rightarrow> dim options_init)\<rparr>"
  let ?w1 = "put [OStr ''Dimension of the matrix = '',
      OInt (sint (case vm_dim vm of Some d \<Rightarrow> d | None \<Rightarrow> dim options_init)), OEndl] w"
  have p: "parse_command_line ac (Parsed vm) options_init w = Return ?options ?w1"
    using parse_returns [OF assms(1,2), of options_init w] assms(3) by simp
  have r: "read_file file_name (prompt ?options ?w1) = (the_text, ?w1)"
    using assms(4,5) by (simp add: read_file_def prompt_def)
  have i: "input ?options = file_name" by simp
  show ?thesis
    unfolding main_Return [OF p] i r fst_conv snd_conv
    using assms(7)
    by (simp add: matrix_demo_cout print_stats_lines analysis_numbers [OF assms(6)] options_init_def
        split: option.splits)
qed

theorem main_statistics_witness:
  "cout (world_of (main 3 (Parsed example_vm) example_world)) =
     [OStr ''Dimension of the matrix = '', OInt 2, OEndl] @ stats_lines 3 2 2 @
     [OInt 1, OStr '' : '', OInt 1, OEndl, OInt 2, OStr '' : '', OInt 1, OEndl] @ demo_output"
proof -
  have h: "(3 :: int) \<noteq> 1" "\<not> vm_help example_vm" "vm_input example_vm = Some ''in.txt''" "''in.txt'' \<noteq> []"
    "files example_world ''in.txt'' = Some ''a b. a''" "length ''a b. a'' \<le> INT_MAX"
    "''matrix.bin'' \<notin> unwritable example_world"
    by (simp_all add: example_vm_def example_world_def INT_MAX_def)
  have m: "Max (insert 0 (count_list [''a'', ''b'', ''a''] ` set [''a'', ''b'', ''a''])) = 2"
    by simp
  have c: "card {''a'', ''b'', ''a''} = 2" by (simp add: card_insert_if)
  from main_statistics [OF h] show ?thesis
    by (simp add: toks m c word_counts_def length_line_def omap_simps example_vm_def example_world_def)
qed

text \<open>
  C23. Without \<^verbatim>\<open>--input\<close> the program does not stop. When \<^verbatim>\<open>main\<close> is called with
  arguments, without \<^verbatim>\<open>--help\<close> and without \<^verbatim>\<open>--input\<close>, and there is no file
  with the empty name, it prints the dimension line and \<^verbatim>\<open>set --input file\<close>,
  fails to open the file with the empty name, reports that on \<^verbatim>\<open>cerr\<close>, prints
  statistics that are all zero and goes on to the matrix part, which runs to
  its end when \<^verbatim>\<open>matrix.bin\<close> can be written and up to \<^verbatim>\<open>Save matrix\<close> otherwise.
\<close>

theorem main_without_input:
  assumes "ac \<noteq> 1" and "\<not> vm_help vm" and "vm_input vm = None" and "files w [] = None"
  shows "cout (world_of (main ac (Parsed vm) w)) =
     cout w @
     [OStr ''Dimension of the matrix = '', OInt (sint (case vm_dim vm of Some d \<Rightarrow> d | None \<Rightarrow> 2)), OEndl,
      OStr ''set --input file'', OEndl] @
     stats_lines 0 0 0 @
     (if ''matrix.bin'' \<in> unwritable w
      then shown_arrays @ matrix_line final_matrix @ [OStr ''Save matrix'', OEndl]
      else demo_output) \<and>
   cerr (world_of (main ac (Parsed vm) w)) = cerr w @ [OStr ''can't open input file: '', OStr [], OEndl]"
proof -
  let ?options = "options_init\<lparr>print_chains := print_chains options_init \<or> vm_print_chains vm,
      input := input options_init, dim := (case vm_dim vm of Some d \<Rightarrow> d | None \<Rightarrow> dim options_init)\<rparr>"
  let ?w1 = "put [OStr ''Dimension of the matrix = '',
      OInt (sint (case vm_dim vm of Some d \<Rightarrow> d | None \<Rightarrow> dim options_init)), OEndl] w"
  let ?w2 = "put [OStr ''set --input file'', OEndl] ?w1"
  have p: "parse_command_line ac (Parsed vm) options_init w = Return ?options ?w1"
    using parse_returns [OF assms(1,2), of options_init w] assms(3) by simp
  have i: "input ?options = []" by (simp add: options_init_def)
  have r: "read_file [] (prompt ?options ?w1) = ([], put_err [OStr ''can't open input file: '', OStr [], OEndl] ?w2)"
    using assms(4) by (simp add: read_file_def prompt_def options_init_def)
  have a: "analyse_text [] ([], stats_init) = ([], stats_init)"
    by (simp add: text_stats_eval omap_size_def)
  show ?thesis
    unfolding main_Return [OF p] i r fst_conv snd_conv a
    by (simp add: matrix_demo_cout print_stats_lines stats_init_def options_init_def split: option.splits)
qed

theorem main_without_input_witness:
  "cout (world_of (main 2 (Parsed (example_vm\<lparr>vm_input := None\<rparr>)) example_world)) =
     [OStr ''Dimension of the matrix = '', OInt 2, OEndl, OStr ''set --input file'', OEndl] @
     stats_lines 0 0 0 @ demo_output"
proof -
  have h: "(2 :: int) \<noteq> 1" "\<not> vm_help (example_vm\<lparr>vm_input := None\<rparr>)"
    "vm_input (example_vm\<lparr>vm_input := None\<rparr>) = None" "files example_world [] = None"
    by (simp_all add: example_vm_def example_world_def)
  from main_without_input [OF h] show ?thesis
    by (simp add: example_vm_def example_world_def)
qed

text \<open>
  C24. The only file that \<^verbatim>\<open>main\<close> changes is \<^verbatim>\<open>matrix.bin\<close>, and only in a run
  that returns; it then holds the encoding of the matrix after the four writes.
\<close>

theorem main_files:
  "files (world_of (main ac parsed w)) =
     (case main ac parsed w of
        Return n w' \<Rightarrow> (files w)(''matrix.bin'' \<mapsto> map char_of_byte (encode final_matrix))
      | Exit n w' \<Rightarrow> files w
      | Abort w' \<Rightarrow> files w)"
proof (cases "parse_command_line ac parsed options_init w")
  case (Exit n w')
  with parse_files [of ac parsed options_init w] show ?thesis
    by (simp add: main_Exit [OF Exit])
next
  case (Return options w1)
  with parse_files [of ac parsed options_init w] have "files w1 = files w" by simp
  with main_Return_files [OF Return] show ?thesis by (simp split: outcome.splits)
next
  case (Abort w')
  then show ?thesis
    by (simp add: parse_command_line_def Let_def split: parse_result.splits if_splits)
qed

end
